(* ===== verification/Prelude.thy ===== *)
theory Prelude
  imports Main "HOL-Library.Word"
begin

text \<open>
  Shared vocabulary of the development: the types that stand for Go's machine integers,
  byte slices and times, the result type of code that may panic, the standard-library
  functions the components call (hexadecimal and decimal printing, saturating time
  subtraction) and the list lemmas the components share.

  A Go function that cannot panic is an ordinary HOL function.  One that can panic returns
  a value of type \<open>'a go\<close>; a Go error result is a value of a sum type or an option inside it.
\<close>

named_theorems go_simps \<open>unfolding rules for code that may panic\<close>
named_theorems chan_simps \<open>rules about the state of Go channels\<close>

section \<open>Machine integers, bytes and times\<close>

type_synonym byte = "8 word"
type_synonym bytes = "byte list"
type_synonym u32 = "32 word"
type_synonym u64 = "64 word"

text \<open>
  A slice that the code compares with \<open>nil\<close> is an option: \<open>None\<close> is \<open>nil\<close>, and
  \<open>Some []\<close> an allocated slice of length 0.
\<close>

type_synonym slice = "bytes option"

definition slice_bytes :: "slice \<Rightarrow> bytes" where
  "slice_bytes s = (case s of None \<Rightarrow> [] | Some b \<Rightarrow> b)"

lemma slice_bytes_simps [simp]:
  "slice_bytes None = []" "slice_bytes (Some b) = b"
  by (simp_all add: slice_bytes_def)

lemma unat_u32_less: "unat (x :: u32) < 2 ^ 32"
proof -
  have "unat x < 2 ^ LENGTH(32)" by (rule unsigned_less)
  then show ?thesis by simp
qed

text \<open>A signed 32-bit integer is an \<open>int\<close>; conversions to it wrap around.\<close>

definition to_int32 :: "int \<Rightarrow> int" where
  "to_int32 x = (x + 2 ^ 31) mod 2 ^ 32 - 2 ^ 31"

lemma to_int32_id: "- (2 ^ 31) \<le> x \<Longrightarrow> x < 2 ^ 31 \<Longrightarrow> to_int32 x = x"
  by (simp add: to_int32_def)

lemma to_int32_range: "- (2 ^ 31) \<le> to_int32 x \<and> to_int32 x < 2 ^ 31"
proof -
  have "0 \<le> (x + 2 ^ 31) mod 2 ^ 32" and "(x + 2 ^ 31) mod 2 ^ 32 < (2 ^ 32 :: int)"
    by (rule pos_mod_sign, simp) (rule pos_mod_bound, simp)
  then show ?thesis by (simp add: to_int32_def)
qed

text \<open>
  A \<open>time.Time\<close> is the number of nanoseconds since the Unix epoch, a \<open>time.Duration\<close> a
  number of nanoseconds.  \<open>Time.Sub\<close> saturates at the bounds of a signed 64-bit integer.
\<close>

type_synonym time = int
type_synonym duration = int

abbreviation minDuration :: duration where
  "minDuration \<equiv> - (2 ^ 63)"

abbreviation maxDuration :: duration where
  "maxDuration \<equiv> 2 ^ 63 - 1"

definition time_Sub :: "time \<Rightarrow> time \<Rightarrow> duration" where
  "time_Sub t u = max minDuration (min maxDuration (t - u))"

lemma time_Sub_self [simp]: "time_Sub t t = 0"
  by (simp add: time_Sub_def)

lemma time_Sub_mono: "u \<le> v \<Longrightarrow> time_Sub t v \<le> time_Sub t u"
  by (auto simp: time_Sub_def)

definition unixEpoch :: time where
  "unixEpoch = 0"

text \<open>The zero \<open>time.Time\<close> is the first instant of year 1.\<close>

definition zeroTime :: time where
  "zeroTime = - 62135596800 * 10 ^ 9"

section \<open>Results of code that may panic\<close>

datatype 'a go = Ret 'a | Panic string

fun go_bind :: "'a go \<Rightarrow> ('a \<Rightarrow> 'b go) \<Rightarrow> 'b go" where
  "go_bind (Ret x) f = f x"
| "go_bind (Panic e) f = Panic e"

lemma go_bind_eq_Ret [simp]: "go_bind m f = Ret y \<longleftrightarrow> (\<exists>x. m = Ret x \<and> f x = Ret y)"
  by (cases m) auto

lemma go_bind_assoc [simp]: "go_bind (go_bind m f) g = go_bind m (\<lambda>x. go_bind (f x) g)"
  by (cases m) auto

definition is_panic :: "'a go \<Rightarrow> bool" where
  "is_panic r = (case r of Ret _ \<Rightarrow> False | Panic _ \<Rightarrow> True)"

lemma is_panic_simps [simp, go_simps]:
  "\<not> is_panic (Ret x)" "is_panic (Panic e)"
  by (simp_all add: is_panic_def)

lemma not_is_panic: "\<not> is_panic r \<longleftrightarrow> (\<exists>x. r = Ret x)"
  by (cases r) auto

lemma go_bind_cong [fundef_cong]:
  "m = m' \<Longrightarrow> (\<And>x. m' = Ret x \<Longrightarrow> f x = g x) \<Longrightarrow> go_bind m f = go_bind m' g"
  by (cases m') auto

section \<open>Go channels used as latches\<close>

text \<open>
  The code uses channels of empty structs as latches: nothing is ever sent on them, they
  are open until they are closed, a receive succeeds once they are closed, and closing a
  closed channel panics.
\<close>

datatype latch = Open | Closed

fun close_latch :: "latch \<Rightarrow> latch go" where
  "close_latch Open = Ret Closed"
| "close_latch Closed = Panic ''close of closed channel''"

lemma close_latch_Ret [simp, chan_simps]: "close_latch c = Ret d \<longleftrightarrow> c = Open \<and> d = Closed"
  by (cases c) auto

lemma close_latch_panic [simp, chan_simps]: "is_panic (close_latch c) \<longleftrightarrow> c = Closed"
  by (cases c) auto

section \<open>Printing\<close>

text \<open>\<open>hex.EncodeToString\<close>: two lower-case hexadecimal digits per byte.\<close>

definition hexdigits :: string where
  "hexdigits = ''0123456789abcdef''"

definition hexdigit :: "nat \<Rightarrow> char" where
  "hexdigit n = hexdigits ! n"

fun hex_EncodeToString :: "bytes \<Rightarrow> string" where
  "hex_EncodeToString [] = []"
| "hex_EncodeToString (b # bs) =
     hexdigit (unat b div 16) # hexdigit (unat b mod 16) # hex_EncodeToString bs"

lemma hexdigits_props: "length hexdigits = 16" "distinct hexdigits" "CHR '':'' \<notin> set hexdigits"
  by (simp_all add: hexdigits_def)

lemma hexdigit_inj: "m < 16 \<Longrightarrow> n < 16 \<Longrightarrow> hexdigit m = hexdigit n \<Longrightarrow> m = n"
  by (simp add: hexdigit_def hexdigits_props nth_eq_iff_index_eq)

lemma unat_byte_less: "unat (b :: byte) < 256"
proof -
  have "unat b < 2 ^ LENGTH(8)" by (rule unsigned_less)
  then show ?thesis by simp
qed

lemma hex_EncodeToString_inj: "hex_EncodeToString xs = hex_EncodeToString ys \<Longrightarrow> xs = ys"
proof (induction xs arbitrary: ys)
  case Nil
  then show ?case by (cases ys) auto
next
  case (Cons x xs)
  then obtain y zs where ys: "ys = y # zs" by (cases ys) auto
  with Cons.prems have hi: "hexdigit (unat x div 16) = hexdigit (unat y div 16)"
    and lo: "hexdigit (unat x mod 16) = hexdigit (unat y mod 16)"
    and tl: "hex_EncodeToString xs = hex_EncodeToString zs" by auto
  have lt: "unat x div 16 < 16" "unat y div 16 < 16"
    using unat_byte_less [of x] unat_byte_less [of y] by auto
  from hexdigit_inj [OF lt hi] hexdigit_inj [OF _ _ lo]
  have "unat x = unat y"
    by (metis div_mult_mod_eq mod_less_divisor zero_less_numeral)
  then have "x = y" by (simp add: word_unat_eq_iff)
  then show ?case using ys Cons.IH [OF tl] by simp
qed

lemma hex_EncodeToString_chars: "c \<in> set (hex_EncodeToString bs) \<Longrightarrow> c \<in> set hexdigits"
proof (induction bs)
  case Nil
  then show ?case by simp
next
  case (Cons b bs)
  have "hexdigit n \<in> set hexdigits" if "n < 16" for n
    using that by (simp add: hexdigit_def hexdigits_props)
  moreover have "unat b div 16 < 16" "unat b mod 16 < 16" using unat_byte_less [of b] by auto
  ultimately show ?case using Cons by auto
qed

lemma colon_not_hex: "CHR '':'' \<notin> set (hex_EncodeToString bs)"
  using hex_EncodeToString_chars hexdigits_props(3) by blast

text \<open>The verb \<open>%d\<close>: decimal digits, with a sign in front of a negative number.\<close>

fun show_nat :: "nat \<Rightarrow> string" where
  "show_nat n = (if n < 10 then [char_of (48 + n)] else show_nat (n div 10) @ [char_of (48 + n mod 10)])"

declare show_nat.simps [simp del]

definition show_int :: "int \<Rightarrow> string" where
  "show_int i = (if i < 0 then CHR ''-'' # show_nat (nat (- i)) else show_nat (nat i))"

definition digitchar :: "char \<Rightarrow> bool" where
  "digitchar c \<longleftrightarrow> 48 \<le> (of_char c :: nat) \<and> (of_char c :: nat) < 58"

lemma show_nat_chars: "c \<in> set (show_nat n) \<Longrightarrow> digitchar c"
proof (induction n rule: show_nat.induct)
  case (1 n)
  then show ?case
    by (subst (asm) (2) show_nat.simps) (auto simp: digitchar_def split: if_splits)
qed

lemma show_nat_nonempty: "show_nat n \<noteq> []"
  by (subst show_nat.simps) simp

fun read_nat :: "string \<Rightarrow> nat \<Rightarrow> nat" where
  "read_nat [] acc = acc"
| "read_nat (c # cs) acc = read_nat cs (10 * acc + (of_char c - 48))"

lemma read_nat_append: "read_nat (xs @ ys) acc = read_nat ys (read_nat xs acc)"
  by (induction xs arbitrary: acc) auto

lemma read_show_nat: "read_nat (show_nat n) 0 = n"
proof (induction n rule: show_nat.induct)
  case (1 n)
  show ?case
  proof (cases "n < 10")
    case True
    then show ?thesis by (subst show_nat.simps) simp
  next
    case False
    then have "read_nat (show_nat n) 0 = 10 * (n div 10) + n mod 10"
      using "1.IH" by (subst show_nat.simps) (simp add: read_nat_append)
    then show ?thesis by simp
  qed
qed

lemma show_nat_inj: "show_nat m = show_nat n \<Longrightarrow> m = n"
  by (metis read_show_nat)

lemma show_int_chars: "c \<in> set (show_int i) \<Longrightarrow> digitchar c \<or> c = CHR ''-''"
  by (auto simp: show_int_def dest: show_nat_chars split: if_splits)

lemma show_int_inj: "show_int i = show_int j \<Longrightarrow> i = j"
proof -
  have minus: "CHR ''-'' \<notin> set (show_nat n)" for n
    using show_nat_chars [of "CHR ''-''" n] by (auto simp: digitchar_def)
  assume eq: "show_int i = show_int j"
  consider (neg) "i < 0" "j < 0" | (pos) "0 \<le> i" "0 \<le> j" | (mixed) "(i < 0) \<noteq> (j < 0)" by linarith
  then show ?thesis
  proof cases
    case neg
    with eq have "nat (- i) = nat (- j)" by (auto simp: show_int_def dest: show_nat_inj)
    with neg show ?thesis by simp
  next
    case pos
    with eq have "nat i = nat j" by (auto simp: show_int_def dest: show_nat_inj)
    with pos show ?thesis by simp
  next
    case mixed
    with eq minus show ?thesis
      by (cases "i < 0") (auto simp: show_int_def split: if_splits, (metis list.set_intros(1))+)
  qed
qed

section \<open>Splitting strings\<close>

text \<open>\<open>strings.Split\<close> and \<open>strings.Join\<close> with a separator of one character.\<close>

fun strSplit :: "char \<Rightarrow> string \<Rightarrow> string list" where
  "strSplit c [] = [[]]"
| "strSplit c (x # s) =
     (if x = c then [] # strSplit c s
      else case strSplit c s of [] \<Rightarrow> [[x]] | w # ws \<Rightarrow> (x # w) # ws)"

fun strJoin :: "char \<Rightarrow> string list \<Rightarrow> string" where
  "strJoin c [] = []"
| "strJoin c [s] = s"
| "strJoin c (s # t # ts) = s @ c # strJoin c (t # ts)"

lemma strSplit_nonempty: "strSplit c s \<noteq> []"
  by (induction s) (auto split: list.splits)

lemma strSplit_no_sep: "c \<notin> set s \<Longrightarrow> strSplit c s = [s]"
  by (induction s) auto

lemma strSplit_append: "c \<notin> set s \<Longrightarrow> strSplit c (s @ c # t) = s # strSplit c t"
  by (induction s) auto

section \<open>Lists\<close>

text \<open>A separator that occurs in neither front part splits an append in one way only.\<close>

lemma append_sep_inj:
  assumes "xs @ c # ys = xs' @ c # ys'" and "c \<notin> set xs" and "c \<notin> set xs'"
  shows "xs = xs' \<and> ys = ys'"
  using assms
proof (induction xs arbitrary: xs')
  case Nil
  then show ?case by (cases xs') auto
next
  case (Cons x xs)
  then show ?case by (cases xs') auto
qed

lemma sum_list_remove1:
  "a \<in> set xs \<Longrightarrow> sum_list (map f xs) = f a + sum_list (map f (remove1 a xs))"
  for f :: "'a \<Rightarrow> 'b::comm_monoid_add"
  by (rule sum_list_map_remove1)

lemma length_filter_update:
  assumes "i < length xs" and "\<not> P (xs ! i)" and "P v"
  shows "length (filter P (xs[i := v])) = Suc (length (filter P xs))"
  using assms
proof (induction xs arbitrary: i)
  case Nil
  then show ?case by simp
next
  case (Cons x xs)
  then show ?case by (cases i) auto
qed

lemma all_filtered_iff: "length (filter P xs) = length xs \<longleftrightarrow> (\<forall>x \<in> set xs. P x)"
  by (metis filter_id_conv length_filter_less less_irrefl)

lemma distinct_move_to_back:
  "distinct xs \<Longrightarrow> distinct (remove1 a xs @ [a])"
  by simp

section \<open>Streams of operations and their refinement\<close>

text \<open>
  \<open>run_go\<close> feeds a stream of events to an operation that may panic.  The locale is the contract of a
  component that implements an operation on abstract states: from a state with the invariant, on an event that is
  \<open>ok\<close>, the concrete operation has the abstract one's result and panics exactly when it does.
  The client's view, that a whole stream has the results of the abstract stream, is proved once.
\<close>

fun run_go :: "('e \<Rightarrow> 's \<Rightarrow> ('r \<times> 's) go) \<Rightarrow> 'e list \<Rightarrow> 's \<Rightarrow> ('r list \<times> 's) go" where
  "run_go f [] s = Ret ([], s)"
| "run_go f (e # es) s =
     go_bind (f e s) (\<lambda>(r, s'). go_bind (run_go f es s') (\<lambda>(rs, s''). Ret (r # rs, s'')))"

definition abs_go :: "('s \<Rightarrow> 't) \<Rightarrow> ('r \<times> 's) go \<Rightarrow> ('r \<times> 't) go" where
  "abs_go f x = go_bind x (\<lambda>(r, s). Ret (r, f s))"

lemma abs_go_simps [simp, go_simps]:
  "abs_go f (Ret (r, s)) = Ret (r, f s)" "abs_go f (Panic e) = Panic e"
  by (simp_all add: abs_go_def)

locale go_refinement =
  fixes step :: "'e \<Rightarrow> 's \<Rightarrow> ('r \<times> 's) go" and spec :: "'e \<Rightarrow> 't \<Rightarrow> ('r \<times> 't) go"
    and inv :: "'s \<Rightarrow> bool" and abs :: "'s \<Rightarrow> 't" and ok :: "'e \<Rightarrow> bool"
  assumes sim: "inv s \<Longrightarrow> ok e \<Longrightarrow> abs_go abs (step e s) = spec e (abs s)"
    and keeps: "inv s \<Longrightarrow> ok e \<Longrightarrow> step e s = Ret (r, s') \<Longrightarrow> inv s'"
begin

lemma run_sim:
  assumes "inv s" and "list_all ok es"
  shows "abs_go abs (run_go step es s) = run_go spec es (abs s)"
  using assms
proof (induction es arbitrary: s)
  case Nil
  then show ?case by simp
next
  case (Cons e es)
  show ?case
  proof (cases "step e s")
    case (Panic x)
    with sim [of s e] Cons.prems have "spec e (abs s) = Panic x" by simp
    with Panic show ?thesis by simp
  next
    case (Ret rs)
    obtain r s' where rs: "rs = (r, s')" by (cases rs)
    with Ret sim [of s e] Cons.prems have sp: "spec e (abs s) = Ret (r, abs s')" by simp
    from Ret rs keeps [of s e r s'] Cons.prems have "inv s'" by simp
    with Cons.IH [of s'] Cons.prems have "run_go spec es (abs s') = abs_go abs (run_go step es s')" by simp
    with Ret rs sp show ?thesis by (cases "run_go step es s'") auto
  qed
qed

lemma run_keeps:
  assumes "inv s" and "list_all ok es" and "run_go step es s = Ret (rs, s')"
  shows "inv s'"
  using assms
proof (induction es arbitrary: s rs)
  case Nil
  then show ?case by simp
next
  case (Cons e es)
  then obtain r s1 rs' where "step e s = Ret (r, s1)" "run_go step es s1 = Ret (rs', s')" by auto
  with Cons keeps [of s e r s1] show ?case by auto
qed

end

section \<open>Results of code that may return an error\<close>

fun res_bind :: "'e + 'a \<Rightarrow> ('a \<Rightarrow> 'e + 'b) \<Rightarrow> 'e + 'b" where
  "res_bind (Inl e) f = Inl e"
| "res_bind (Inr x) f = f x"

lemma res_bind_eq_Inr [simp]: "res_bind m f = Inr y \<longleftrightarrow> (\<exists>x. m = Inr x \<and> f x = Inr y)"
  by (cases m) auto

lemma res_bind_cong [fundef_cong]:
  "m = m' \<Longrightarrow> (\<And>x. m' = Inr x \<Longrightarrow> f x = g x) \<Longrightarrow> res_bind m f = res_bind m' g"
  by (cases m') auto

lemma res_bind_assoc [simp]: "res_bind (res_bind m f) g = res_bind m (\<lambda>x. res_bind (f x) g)"
  by (cases m) auto

text \<open>A loop that collects results and stops at the first error.\<close>

fun res_map :: "('a \<Rightarrow> 'e + 'b) \<Rightarrow> 'a list \<Rightarrow> 'e + 'b list" where
  "res_map f [] = Inr []"
| "res_map f (x # xs) = res_bind (f x) (\<lambda>y. res_bind (res_map f xs) (\<lambda>ys. Inr (y # ys)))"

lemma res_map_cong [fundef_cong]:
  "xs = ys \<Longrightarrow> (\<And>x. x \<in> set ys \<Longrightarrow> f x = g x) \<Longrightarrow> res_map f xs = res_map g ys"
  by (induction ys arbitrary: xs) auto

lemma res_map_Inr: "res_map f xs = Inr ys \<longleftrightarrow> list_all2 (\<lambda>x y. f x = Inr y) xs ys"
  by (induction xs arbitrary: ys) (auto simp: list_all2_Cons1)

text \<open>A loop that only checks.\<close>

fun res_all :: "('a \<Rightarrow> 'e option) \<Rightarrow> 'a list \<Rightarrow> 'e option" where
  "res_all f [] = None"
| "res_all f (x # xs) = (case f x of Some e \<Rightarrow> Some e | None \<Rightarrow> res_all f xs)"

lemma res_all_None [simp]: "res_all f xs = None \<longleftrightarrow> (\<forall>x \<in> set xs. f x = None)"
  by (induction xs) (auto split: option.splits)

section \<open>Results of code that may panic or return an error\<close>

text \<open>A Go function that returns an error or a value, and may panic; \<open>try_bind\<close> returns early on both.\<close>

fun try_bind :: "('e + 'a) go \<Rightarrow> ('a \<Rightarrow> ('e + 'b) go) \<Rightarrow> ('e + 'b) go" where
  "try_bind (Ret (Inr x)) f = f x"
| "try_bind (Ret (Inl e)) f = Ret (Inl e)"
| "try_bind (Panic s) f = Panic s"

lemma try_bind_Inr [simp]: "try_bind m f = Ret (Inr y) \<longleftrightarrow> (\<exists>x. m = Ret (Inr x) \<and> f x = Ret (Inr y))"
  by (cases "(m, f)" rule: try_bind.cases) auto

lemma try_bind_Inl: "try_bind m f = Ret (Inl e) \<longleftrightarrow> m = Ret (Inl e) \<or> (\<exists>x. m = Ret (Inr x) \<and> f x = Ret (Inl e))"
  by (cases "(m, f)" rule: try_bind.cases) auto

lemma try_bind_Panic: "try_bind m f = Panic e \<longleftrightarrow> m = Panic e \<or> (\<exists>x. m = Ret (Inr x) \<and> f x = Panic e)"
  by (cases "(m, f)" rule: try_bind.cases) auto

text \<open>Code that cannot panic, and code that cannot fail, as code that may do both.\<close>

definition try_res :: "('d \<Rightarrow> 'e) \<Rightarrow> 'd + 'a \<Rightarrow> ('e + 'a) go" where
  "try_res f r = (case r of Inl e \<Rightarrow> Ret (Inl (f e)) | Inr x \<Rightarrow> Ret (Inr x))"

definition try_go :: "'a go \<Rightarrow> ('e + 'a) go" where
  "try_go m = (case m of Ret x \<Rightarrow> Ret (Inr x) | Panic s \<Rightarrow> Panic s)"

lemma try_res_Inr [simp]: "try_res f r = Ret (Inr x) \<longleftrightarrow> r = Inr x"
  by (simp add: try_res_def split: sum.splits)

lemma try_res_simps [simp]: "try_res f (Inl e) = Ret (Inl (f e))" "try_res f r \<noteq> Panic s"
  by (simp_all add: try_res_def split: sum.splits)

lemma try_go_Inr [simp]: "try_go m = Ret (Inr x) \<longleftrightarrow> m = Ret x"
  by (simp add: try_go_def split: go.splits)

lemma try_go_simps [simp]: "try_go (Panic s) = Panic s" "try_go m \<noteq> Ret (Inl e)"
  by (simp_all add: try_go_def split: go.splits)

end
