(* ===== verification/BlockCutter.thy ===== *)
theory BlockCutter
  imports Prelude
begin

text \<open>
  The block cutter of the ordering service (\<open>orderer/common/blockcutter/blockcutter.go\<close>):
  it collects ordered envelopes into a pending batch and cuts the batch when it is full.
  A consensus plugin calls \<open>Ordered\<close> for every ordered message and \<open>Cut\<close> when a batch has to be
  written early; each batch becomes one block.

  State: the receiver, with its pending batch, the size of the batch in bytes as a
  \<open>uint32\<close> that wraps around, the time the batch was begun and the fill durations reported to
  the metrics provider.  A nil pending batch and an empty one are the same list: the code
  sets the batch to nil when it cuts and otherwise only appends to it.
\<close>

section \<open>State and operations\<close>

record Envelope =
  Payload :: slice
  Signature :: bytes

record BatchSize =
  MaxMessageCount :: u32
  AbsoluteMaxBytes :: u32
  PreferredMaxBytes :: u32

record receiver =
  pendingBatch :: "Envelope list"
  pendingBatchSizeBytes :: u32
  PendingBatchStartTime :: time
  BlockFillDuration :: "duration list"

definition NewReceiverImpl :: receiver where
  "NewReceiverImpl =
     \<lparr>pendingBatch = [], pendingBatchSizeBytes = 0,
      PendingBatchStartTime = zeroTime, BlockFillDuration = []\<rparr>"

definition messageSizeBytes :: "Envelope \<Rightarrow> u32" where
  "messageSizeBytes message =
     of_nat (length (slice_bytes (Payload message)) + length (Signature message))"

definition Cut :: "time \<Rightarrow> receiver \<Rightarrow> Envelope list \<times> receiver" where
  "Cut now r =
     (let r1 = (if pendingBatch r \<noteq> []
                then r\<lparr>BlockFillDuration :=
                        BlockFillDuration r @ [time_Sub now (PendingBatchStartTime r)]\<rparr>
                else r);
          batch = pendingBatch r1
      in (batch, r1\<lparr>PendingBatchStartTime := zeroTime, pendingBatch := [],
                    pendingBatchSizeBytes := 0\<rparr>))"

text \<open>
  \<open>Ordered\<close> reads the clock at most four times; \<open>now i\<close> is the reading number \<open>i\<close>: at the start of
  a batch, in the first \<open>Cut\<close>, when the batch is restarted and in the second \<open>Cut\<close>.  The orderer
  configuration is an argument, \<open>None\<close> when the fetcher has none, which panics.
\<close>

definition Ordered ::
  "BatchSize option \<Rightarrow> (nat \<Rightarrow> time) \<Rightarrow> Envelope \<Rightarrow> receiver \<Rightarrow> (Envelope list list \<times> bool \<times> receiver) go"
where
  "Ordered ordererConfig now msg r =
     (let r0 = (if length (pendingBatch r) = 0 then r\<lparr>PendingBatchStartTime := now 0\<rparr> else r)
      in case ordererConfig of
           None \<Rightarrow> Panic ''Could not retrieve orderer config to query batch parameters, block cutting is not possible''
         | Some batchSize \<Rightarrow>
             (let msgSize = messageSizeBytes msg
              in if PreferredMaxBytes batchSize < msgSize
                 then let (first, r1) =
                            (if 0 < length (pendingBatch r0)
                             then (let (messageBatch, r') = Cut (now 1) r0 in ([messageBatch], r'))
                             else ([], r0))
                      in Ret (first @ [[msg]], False,
                              r1\<lparr>BlockFillDuration := BlockFillDuration r1 @ [0]\<rparr>)
                 else let messageWillOverflowBatchSizeBytes =
                            PreferredMaxBytes batchSize < pendingBatchSizeBytes r0 + msgSize;
                          (first, r1) =
                            (if messageWillOverflowBatchSizeBytes
                             then (let (messageBatch, r') = Cut (now 1) r0
                                   in ([messageBatch], r'\<lparr>PendingBatchStartTime := now 2\<rparr>))
                             else ([], r0));
                          r2 = r1\<lparr>pendingBatch := pendingBatch r1 @ [msg],
                                  pendingBatchSizeBytes := pendingBatchSizeBytes r1 + msgSize\<rparr>
                      in if MaxMessageCount batchSize \<le> of_nat (length (pendingBatch r2))
                         then (let (messageBatch, r3) = Cut (now 3) r2
                               in Ret (first @ [messageBatch], False, r3))
                         else Ret (first, True, r2)))"

section \<open>The interface a consensus plugin relies on\<close>

text \<open>
  The contract of \<open>blockcutter.Receiver\<close>: \<open>Ordered\<close> neither loses, duplicates nor reorders messages
  and its flag tells whether messages are left, \<open>Cut\<close> hands out everything that is pending.
  The client's view is a sequence of calls; \<open>run\<close> collects the batches they produce.
\<close>

datatype ('c, 'd, 'm) call = CallOrdered 'c 'm | CallCut 'd

fun call_msgs :: "('c, 'd, 'm) call list \<Rightarrow> 'm list" where
  "call_msgs [] = []"
| "call_msgs (CallOrdered c m # cs) = m # call_msgs cs"
| "call_msgs (CallCut d # cs) = call_msgs cs"

fun run_calls ::
  "('c \<Rightarrow> 'm \<Rightarrow> 'r \<Rightarrow> ('m list list \<times> bool \<times> 'r) go) \<Rightarrow> ('d \<Rightarrow> 'r \<Rightarrow> 'm list \<times> 'r) \<Rightarrow>
   ('c, 'd, 'm) call list \<Rightarrow> 'r \<Rightarrow> ('m list list \<times> 'r) go"
where
  "run_calls do_ordered do_cut [] r = Ret ([], r)"
| "run_calls do_ordered do_cut (CallOrdered c m # cs) r =
     go_bind (do_ordered c m r) (\<lambda>(bs, p, r1).
       go_bind (run_calls do_ordered do_cut cs r1) (\<lambda>(bs', r2). Ret (bs @ bs', r2)))"
| "run_calls do_ordered do_cut (CallCut d # cs) r =
     (case do_cut d r of (b, r1) \<Rightarrow>
       go_bind (run_calls do_ordered do_cut cs r1) (\<lambda>(bs', r2). Ret (b # bs', r2)))"

locale block_receiver =
  fixes do_ordered :: "'c \<Rightarrow> 'm \<Rightarrow> 'r \<Rightarrow> ('m list list \<times> bool \<times> 'r) go"
    and do_cut :: "'d \<Rightarrow> 'r \<Rightarrow> 'm list \<times> 'r"
    and pend :: "'r \<Rightarrow> 'm list"
  assumes ordered_conserves:
      "do_ordered c m r = Ret (bs, p, r') \<Longrightarrow> concat bs @ pend r' = pend r @ [m]"
    and ordered_flag: "do_ordered c m r = Ret (bs, p, r') \<Longrightarrow> p \<longleftrightarrow> pend r' \<noteq> []"
    and cut_all: "do_cut d r = (b, r') \<Longrightarrow> b = pend r \<and> pend r' = []"
begin

lemma run_conserves:
  "run_calls do_ordered do_cut cs r = Ret (bs, r') \<Longrightarrow> concat bs @ pend r' = pend r @ call_msgs cs"
proof (induction cs arbitrary: r bs)
  case Nil
  then show ?case by simp
next
  case (Cons x cs)
  show ?case
  proof (cases x)
    case (CallOrdered c m)
    with Cons.prems obtain bs1 p r1 bs2 where o: "do_ordered c m r = Ret (bs1, p, r1)"
      and rest: "run_calls do_ordered do_cut cs r1 = Ret (bs2, r')" and bs: "bs = bs1 @ bs2" by auto
    show ?thesis
      using ordered_conserves [OF o] Cons.IH [OF rest] bs CallOrdered by simp
  next
    case (CallCut d)
    with Cons.prems obtain b r1 bs2 where c: "do_cut d r = (b, r1)"
      and rest: "run_calls do_ordered do_cut cs r1 = Ret (bs2, r')" and bs: "bs = b # bs2"
      by (auto split: prod.splits)
    show ?thesis using cut_all [OF c] Cons.IH [OF rest] bs CallCut by simp
  qed
qed

end

section \<open>Lemmas\<close>

lemma Cut_simps [simp]:
  "fst (Cut now r) = pendingBatch r"
  "pendingBatch (snd (Cut now r)) = []"
  "pendingBatchSizeBytes (snd (Cut now r)) = 0"
  by (simp_all add: Cut_def Let_def)

lemma Cut_pair: "Cut now r = (pendingBatch r, snd (Cut now r))"
  by (metis Cut_simps(1) prod.collapse)

text \<open>
  The outcome of \<open>Ordered\<close> without the clock and the metrics: the batches, the flag and the
  pending envelopes.  The proofs below work on it.
\<close>

definition ordered_result :: "BatchSize \<Rightarrow> Envelope \<Rightarrow> receiver \<Rightarrow> Envelope list list \<times> bool \<times> Envelope list \<times> u32" where
  "ordered_result b m r =
     (let n = messageSizeBytes m; ov = PreferredMaxBytes b < pendingBatchSizeBytes r + n;
          first = (if ov then [pendingBatch r] else []);
          q = (if ov then [] else pendingBatch r) @ [m]
      in if PreferredMaxBytes b < n
         then ((if pendingBatch r = [] then [] else [pendingBatch r]) @ [[m]], False, [],
               if pendingBatch r = [] then pendingBatchSizeBytes r else 0)
         else if MaxMessageCount b \<le> of_nat (length q) then (first @ [q], False, [], 0)
         else (first, True, q, (if ov then 0 else pendingBatchSizeBytes r) + n))"

lemma Ordered_None: "is_panic (Ordered None now m r)"
  by (simp add: Ordered_def Let_def)

lemma Ordered_Some:
  "\<exists>r'. Ordered (Some b) now m r = Ret (fst (ordered_result b m r), fst (snd (ordered_result b m r)), r')
     \<and> (pendingBatch r', pendingBatchSizeBytes r') = snd (snd (ordered_result b m r))"
  by (auto simp: Ordered_def ordered_result_def Let_def Cut_pair [of _ r] Cut_def split: prod.splits)

lemma Ordered_cases:
  assumes "Ordered cfg now m r = Ret (bs, p, r')"
  obtains b where "cfg = Some b" and "bs = fst (ordered_result b m r)"
    and "p = fst (snd (ordered_result b m r))"
    and "pendingBatch r' = fst (snd (snd (ordered_result b m r)))"
    and "pendingBatchSizeBytes r' = snd (snd (snd (ordered_result b m r)))"
proof (cases cfg)
  case None
  with assms Ordered_None [of now m r] show ?thesis by auto
next
  case (Some b)
  with Ordered_Some [of b now m r] assms that show ?thesis by (metis Pair_inject fst_conv go.inject(1) snd_conv)
qed

lemma Ordered_resultI:
  "Ordered (Some b) now m r = Ret (bs, p, r') \<Longrightarrow>
   ordered_result b m r = (bs, p, pendingBatch r', pendingBatchSizeBytes r')"
  by (elim Ordered_cases) (simp add: prod_eq_iff)

lemma Ordered_conserves:
  "Ordered cfg now m r = Ret (bs, p, r') \<Longrightarrow> concat bs @ pendingBatch r' = pendingBatch r @ [m]"
  by (erule Ordered_cases) (auto simp: ordered_result_def Let_def)

lemma Ordered_flag: "Ordered cfg now m r = Ret (bs, p, r') \<Longrightarrow> p \<longleftrightarrow> pendingBatch r' \<noteq> []"
  by (erule Ordered_cases) (auto simp: ordered_result_def Let_def)

interpretation cutter: block_receiver "\<lambda>(cfg, now). Ordered cfg now" Cut pendingBatch
proof unfold_locales
  fix c :: "BatchSize option \<times> (nat \<Rightarrow> time)" and m r bs p r'
  assume "(case c of (cfg, now) \<Rightarrow> Ordered cfg now) m r = Ret (bs, p, r')"
  then have o: "Ordered (fst c) (snd c) m r = Ret (bs, p, r')" by (simp add: case_prod_beta)
  show "concat bs @ pendingBatch r' = pendingBatch r @ [m]" by (rule Ordered_conserves [OF o])
  show "p \<longleftrightarrow> pendingBatch r' \<noteq> []" by (rule Ordered_flag [OF o])
next
  fix d r b r'
  assume "Cut d r = (b, r')"
  then show "b = pendingBatch r \<and> pendingBatch r' = []"
    by (metis Cut_simps(1,2) fst_conv snd_conv)
qed

section \<open>The invariant of the receiver\<close>

text \<open>
  Under a fixed configuration the size field is the exact sum of the sizes of the pending
  envelopes, the batch is within the preferred size and below the message count.
\<close>

definition batch_bytes :: "Envelope list \<Rightarrow> nat" where
  "batch_bytes es = sum_list (map (\<lambda>e. unat (messageSizeBytes e)) es)"

definition receiver_inv :: "BatchSize \<Rightarrow> receiver \<Rightarrow> bool" where
  "receiver_inv b r \<longleftrightarrow>
     unat (pendingBatchSizeBytes r) = batch_bytes (pendingBatch r) \<and>
     pendingBatchSizeBytes r \<le> PreferredMaxBytes b \<and>
     (pendingBatch r = [] \<or> length (pendingBatch r) < unat (MaxMessageCount b))"

definition batch_ok :: "BatchSize \<Rightarrow> Envelope list \<Rightarrow> bool" where
  "batch_ok b es \<longleftrightarrow>
     es \<noteq> [] \<and> length es \<le> max 1 (unat (MaxMessageCount b)) \<and>
     (batch_bytes es \<le> unat (PreferredMaxBytes b) \<or> length es = 1)"

lemma batch_bytes_simps [simp]:
  "batch_bytes [] = 0"
  "batch_bytes (e # es) = unat (messageSizeBytes e) + batch_bytes es"
  "batch_bytes (xs @ ys) = batch_bytes xs + batch_bytes ys"
  by (simp_all add: batch_bytes_def)

lemma NewReceiverImpl_inv: "receiver_inv b NewReceiverImpl"
  by (simp add: receiver_inv_def NewReceiverImpl_def)

lemma unat_add_small:
  fixes x y p :: u32
  assumes "x \<le> p" and "y \<le> p" and "unat p < 2 ^ 31"
  shows "unat (x + y) = unat x + unat y"
proof -
  have "unat x + unat y < 2 ^ 32"
    using assms by (simp add: word_le_nat_alt)
  then show ?thesis by (simp add: unat_word_ariths)
qed

lemma full_iff:
  assumes "length q \<le> unat (m :: u32) \<or> length q = 1"
  shows "m \<le> of_nat (length q) \<longleftrightarrow> unat m \<le> length q"
proof -
  have "length q < 2 ^ 32"
    using assms unat_u32_less [of m] by auto
  then show ?thesis by (simp add: word_le_nat_alt unat_of_nat)
qed

lemma ordered_result_inv:
  assumes inv: "receiver_inv b r" and small: "unat (PreferredMaxBytes b) < 2 ^ 31"
    and res: "ordered_result b m r = (bs, p, q, n)"
  shows "unat n = batch_bytes q \<and> n \<le> PreferredMaxBytes b \<and>
         (q = [] \<or> length q < unat (MaxMessageCount b)) \<and> (\<forall>batch \<in> set bs. batch_ok b batch)"
proof (cases "PreferredMaxBytes b < messageSizeBytes m")
  case True
  have "pendingBatch r \<noteq> [] \<Longrightarrow> batch_ok b (pendingBatch r)"
    using inv by (auto simp: receiver_inv_def batch_ok_def word_le_nat_alt)
  moreover have "batch_ok b [m]" by (simp add: batch_ok_def)
  ultimately show ?thesis
    using True inv res by (cases "pendingBatch r = []") (auto simp: ordered_result_def receiver_inv_def Let_def)
next
  case fits: False
  let ?n = "messageSizeBytes m" and ?pb = "pendingBatch r" and ?ps = "pendingBatchSizeBytes r"
  have ps: "?ps \<le> PreferredMaxBytes b" and sum: "unat ?ps = batch_bytes ?pb"
    and cnt: "?pb = [] \<or> length ?pb < unat (MaxMessageCount b)"
    using inv by (auto simp: receiver_inv_def)
  have n_le: "?n \<le> PreferredMaxBytes b" using fits by simp
  have add: "unat (?ps + ?n) = unat ?ps + unat ?n" by (rule unat_add_small [OF ps n_le small])
  have n_le': "unat ?n \<le> unat (PreferredMaxBytes b)" using n_le by (simp add: word_le_nat_alt)
  have ps': "unat ?ps \<le> unat (PreferredMaxBytes b)" using ps by (simp add: word_le_nat_alt)
  have pb_ok: "?pb \<noteq> [] \<Longrightarrow> batch_ok b ?pb"
    using cnt sum ps' by (auto simp: batch_ok_def)
  have m_ok: "batch_ok b [m]" by (simp add: batch_ok_def)
  show ?thesis
  proof (cases "PreferredMaxBytes b < ?ps + ?n")
    case True
    then have "unat (PreferredMaxBytes b) < unat ?ps + unat ?n"
      using add by (simp add: word_less_nat_alt)
    with n_le' sum have ne: "?pb \<noteq> []" by auto
    have full: "MaxMessageCount b \<le> of_nat (length [m]) \<longleftrightarrow> unat (MaxMessageCount b) \<le> length [m]"
      by (rule full_iff) simp
    have "ordered_result b m r =
        (if MaxMessageCount b \<le> of_nat (length [m]) then ([?pb] @ [[m]], False, [], 0)
         else ([?pb], True, [m], 0 + ?n))"
      using True fits by (simp add: ordered_result_def Let_def)
    with res full pb_ok [OF ne] m_ok n_le n_le' show ?thesis
      by (auto split: if_splits)
  next
    case False
    have full: "MaxMessageCount b \<le> of_nat (length (?pb @ [m])) \<longleftrightarrow> unat (MaxMessageCount b) \<le> length (?pb @ [m])"
      using cnt by (intro full_iff) auto
    have le: "unat ?ps + unat ?n \<le> unat (PreferredMaxBytes b)"
      using False add by (simp add: word_le_nat_alt not_less)
    have ok: "batch_ok b (?pb @ [m])"
      using cnt sum le by (auto simp: batch_ok_def)
    have le': "?ps + ?n \<le> PreferredMaxBytes b" using False by simp
    have "ordered_result b m r =
        (if MaxMessageCount b \<le> of_nat (length (?pb @ [m])) then ([] @ [?pb @ [m]], False, [], 0)
         else ([], True, ?pb @ [m], ?ps + ?n))"
      using False fits by (simp add: ordered_result_def Let_def)
    with res full ok add sum le' show ?thesis
      by (auto split: if_splits)
  qed
qed

text \<open>Sample inputs for the witnesses.\<close>

definition sample_env :: "byte \<Rightarrow> Envelope" where
  "sample_env x = \<lparr>Payload = Some [x, x, x], Signature = [x]\<rparr>"

definition sample_batch :: BatchSize where
  "sample_batch = \<lparr>MaxMessageCount = 3, AbsoluteMaxBytes = 100, PreferredMaxBytes = 10\<rparr>"

definition sample_receiver :: receiver where
  "sample_receiver = NewReceiverImpl\<lparr>pendingBatch := [sample_env 1], pendingBatchSizeBytes := 4\<rparr>"

lemmas cutter_eval = Ordered_def Cut_def NewReceiverImpl_def messageSizeBytes_def sample_env_def
  sample_batch_def sample_receiver_def time_Sub_def zeroTime_def word_le_nat_alt

section \<open>Properties\<close>

text \<open>
  C38. Whatever sequence of \<open>Ordered\<close> and \<open>Cut\<close> calls is made, under whatever configurations, the
  batches handed out followed by the envelopes still pending are exactly the envelopes that
  were pending at the start followed by the envelopes submitted, in the order they were
  submitted: the cutter loses, duplicates and reorders nothing.
\<close>

theorem cutter_conserves_stream:
  "run_calls (\<lambda>(cfg, now). Ordered cfg now) Cut cs r = Ret (bs, r') \<Longrightarrow>
   concat bs @ pendingBatch r' = pendingBatch r @ call_msgs cs"
  by (rule cutter.run_conserves)

theorem cutter_conserves_stream_witness:
  "\<exists>bs r'. run_calls (\<lambda>(cfg, now). Ordered cfg now) Cut
       [CallOrdered (Some sample_batch, \<lambda>_. 5) (sample_env 2),
        CallOrdered (Some sample_batch, \<lambda>_. 6) (sample_env 3), CallCut 7] sample_receiver = Ret (bs, r') \<and>
     bs = [[sample_env 1, sample_env 2], [sample_env 3]] \<and> pendingBatch r' = [] \<and>
     concat bs @ pendingBatch r' = [sample_env 1, sample_env 2, sample_env 3]"
  (is "\<exists>bs r'. ?run = Ret (bs, r') \<and> _")
proof -
  obtain r' where run: "?run = Ret ([[sample_env 1, sample_env 2], [sample_env 3]], r')"
    by (simp add: cutter_eval Let_def)
  have "concat [[sample_env 1, sample_env 2], [sample_env 3]] @ pendingBatch r' =
      [sample_env 1, sample_env 2, sample_env 3]"
    using cutter_conserves_stream [OF run] by (simp add: sample_receiver_def)
  then have "pendingBatch r' = []" by simp
  with run show ?thesis by (intro exI conjI) auto
qed

text \<open>
  C39. The table in the comment of \<open>Ordered\<close>: no batch always leaves a message pending, two batches
  never do, and no other combination occurs.  Under a fixed configuration two batches are cut
  exactly when the message alone exceeds the preferred size and other messages were pending.
\<close>

theorem Ordered_table:
  assumes "receiver_inv b r" and "unat (PreferredMaxBytes b) < 2 ^ 31"
    and "Ordered (Some b) now m r = Ret (bs, p, r')"
  shows "(length bs, p) \<in> {(0, True), (1, False), (1, True), (2, False)} \<and>
         (length bs = 2 \<longleftrightarrow> PreferredMaxBytes b < messageSizeBytes m \<and> pendingBatch r \<noteq> [])"
proof -
  note res = Ordered_resultI [OF assms(3)]
  have no_ov: "\<not> PreferredMaxBytes b < pendingBatchSizeBytes r + messageSizeBytes m"
    if "\<not> PreferredMaxBytes b < messageSizeBytes m" and "pendingBatch r = []"
    using that assms(1) by (auto simp: receiver_inv_def unat_eq_0)
  have no_full: "\<not> MaxMessageCount b \<le> 1" if "pendingBatch r \<noteq> []"
    using that assms(1) by (auto simp: receiver_inv_def word_le_nat_alt neq_Nil_conv)
  show ?thesis
    using res no_ov no_full by (auto simp: ordered_result_def Let_def split: if_splits)
qed

theorem Ordered_table_witness:
  "\<exists>bs p r'. receiver_inv (sample_batch\<lparr>PreferredMaxBytes := 4\<rparr>) sample_receiver \<and>
     Ordered (Some (sample_batch\<lparr>PreferredMaxBytes := 4\<rparr>)) (\<lambda>_. 5) (sample_env 2\<lparr>Signature := [9, 9]\<rparr>) sample_receiver
       = Ret (bs, p, r') \<and> length bs = 2 \<and> \<not> p"
proof -
  let ?b = "sample_batch\<lparr>PreferredMaxBytes := 4\<rparr>" and ?m = "sample_env 2\<lparr>Signature := [9, 9]\<rparr>"
  have inv: "receiver_inv ?b sample_receiver" by (simp add: receiver_inv_def cutter_eval)
  have small: "unat (PreferredMaxBytes ?b) < 2 ^ 31" by simp
  obtain bs p r' where run: "Ordered (Some ?b) (\<lambda>_. 5) ?m sample_receiver = Ret (bs, p, r')"
    using Ordered_Some by blast
  from Ordered_table [OF inv small run] inv run show ?thesis
    by (auto simp: cutter_eval)
qed

text \<open>
  C40. Under a fixed configuration whose preferred size is below 2 GiB the invariant of the receiver
  is kept, the byte counter never wraps around, and every batch that is cut is non-empty,
  within the message count, and within the preferred size unless it is a single message.
\<close>

theorem Ordered_keeps_limits:
  assumes "receiver_inv b r" and "unat (PreferredMaxBytes b) < 2 ^ 31"
    and "Ordered (Some b) now m r = Ret (bs, p, r')"
  shows "receiver_inv b r' \<and> (\<forall>batch \<in> set bs. batch_ok b batch)"
proof -
  from ordered_result_inv [OF assms(1,2) Ordered_resultI [OF assms(3)]] show ?thesis
    by (simp add: receiver_inv_def)
qed

theorem Ordered_keeps_limits_witness:
  "\<exists>bs p r'. Ordered (Some sample_batch) (\<lambda>_. 5) (sample_env 2) sample_receiver = Ret (bs, p, r') \<and>
     receiver_inv sample_batch sample_receiver \<and> receiver_inv sample_batch r' \<and>
     pendingBatch r' = [sample_env 1, sample_env 2]"
proof -
  have inv: "receiver_inv sample_batch sample_receiver" by (simp add: receiver_inv_def cutter_eval)
  have small: "unat (PreferredMaxBytes sample_batch) < 2 ^ 31" by (simp add: sample_batch_def)
  obtain bs p r' where run: "Ordered (Some sample_batch) (\<lambda>_. 5) (sample_env 2) sample_receiver = Ret (bs, p, r')"
    and q: "pendingBatch r' = [sample_env 1, sample_env 2]"
    by (auto simp: cutter_eval Let_def)
  from Ordered_keeps_limits [OF inv small run] inv run q show ?thesis by blast
qed

end
