(* ===== verification/HcsTypes.thy ===== *)
theory HcsTypes
  imports Prelude
begin

text \<open>
  The messages of the Hedera Consensus Service (HCS) consensus plugin, as
  \<open>orderer/consensus/hcs/protodef/hcs.proto\<close> declares them, and the functions of
  \<open>orderer/consensus/hcs/chain.go\<close> that only build or read them: the message constructors, the
  conversion of times, the block metadata and the classification of subscription errors.

  A message field that the code compares with nil is an option.  The conversions between
  \<open>time.Time\<close> and protobuf timestamps are those of the vendored package \<open>ptypes\<close>.
\<close>

section \<open>Protobuf messages\<close>

record Timestamp =
  Seconds :: int
  Nanos :: int

record AccountID =
  ShardNum :: int
  RealmNum :: int
  AccountNum :: int

record AnyMsg =
  TypeUrl :: string
  AnyValue :: bytes

record ApplicationMessageID =
  ValidStart :: "Timestamp option"
  IdAccountID :: "AccountID option"
  IdMetadata :: "AnyMsg option"

record ApplicationMessage =
  ApplicationMessageId :: "ApplicationMessageID option"
  BusinessProcessMessage :: slice
  UnencryptedBusinessProcessMessageHash :: slice
  BusinessProcessSignatureOnHash :: slice
  EncryptionRandom :: slice
  AppMetadata :: "AnyMsg option"
  MetadataHash :: slice
  MetadataSignatureOnHash :: slice

record ApplicationMessageChunk =
  ChunkMessageId :: "ApplicationMessageID option"
  ChunksCount :: int
  ChunkIndex :: int
  MessageChunk :: bytes
  ChunkMetadata :: "AnyMsg option"

record ApplicationSignature =
  PublicKey :: slice
  SignatureBytes :: slice

datatype Class = NORMAL | CONFIG | UnknownClass int

record HcsMessageRegular =
  RegularPayload :: bytes
  ConfigSeq :: u64
  MsgClass :: Class
  OriginalSeq :: u64

datatype TimeToCutRequest = BlockNumber u64 | MessageHash bytes

text \<open>The outer message; \<open>TypeNotSet\<close> and \<open>None\<close> are oneof fields that are not set.\<close>

datatype HcsMessage =
    Regular HcsMessageRegular
  | TimeToCut "TimeToCutRequest option"
  | OrdererStarted bytes
  | TypeNotSet

record HcsMetadata =
  LastConsensusTimestampPersisted :: "Timestamp option"
  LastOriginalSequenceProcessed :: u64
  LastResubmittedConfigSequence :: u64
  LastChunkFreeConsensusTimestampPersisted :: "Timestamp option"
  LastChunkFreeSequenceProcessed :: u64

record HcsConfigPublicKey =
  KeyType :: string
  KeyString :: string

record HcsConfigMetadata =
  TopicId :: string
  PublicKeys :: "HcsConfigPublicKey list"
  ReassembleTimeout :: string

section \<open>Times and timestamps\<close>

abbreviation minValidSeconds :: int where
  "minValidSeconds \<equiv> - 62135596800"

abbreviation maxValidSeconds :: int where
  "maxValidSeconds \<equiv> 253402300800"

definition validateTimestamp :: "Timestamp option \<Rightarrow> bool" where
  "validateTimestamp ts =
     (case ts of None \<Rightarrow> False
      | Some t \<Rightarrow> minValidSeconds \<le> Seconds t \<and> Seconds t < maxValidSeconds \<and>
                  0 \<le> Nanos t \<and> Nanos t < 10 ^ 9)"

text \<open>\<open>TimestampProto\<close> and \<open>Timestamp\<close>: \<open>None\<close> is the error result.\<close>

definition TimestampProto :: "time \<Rightarrow> Timestamp option" where
  "TimestampProto t =
     (let ts = Some \<lparr>Seconds = t div 10 ^ 9, Nanos = t mod 10 ^ 9\<rparr>
      in if validateTimestamp ts then ts else None)"

definition Timestamp_time :: "Timestamp option \<Rightarrow> time option" where
  "Timestamp_time ts =
     (if validateTimestamp ts
      then (case ts of None \<Rightarrow> None | Some t \<Rightarrow> Some (Seconds t * 10 ^ 9 + Nanos t))
      else None)"

definition timestampProtoOrPanic :: "time \<Rightarrow> Timestamp go" where
  "timestampProtoOrPanic t =
     (case TimestampProto t of
        None \<Rightarrow> Panic ''failed to convert time.Time to google.protobuf.Timestamp''
      | Some ts \<Rightarrow> Ret ts)"

text \<open>The times that a protobuf timestamp can represent.\<close>

definition representable :: "time \<Rightarrow> bool" where
  "representable t \<longleftrightarrow> minValidSeconds * 10 ^ 9 \<le> t \<and> t < maxValidSeconds * 10 ^ 9"

section \<open>Message constructors\<close>

definition newConfigMessage :: "bytes \<Rightarrow> u64 \<Rightarrow> u64 \<Rightarrow> HcsMessage" where
  "newConfigMessage config configSeq originalSeq =
     Regular \<lparr>RegularPayload = config, ConfigSeq = configSeq, MsgClass = CONFIG, OriginalSeq = originalSeq\<rparr>"

definition newNormalMessage :: "bytes \<Rightarrow> u64 \<Rightarrow> u64 \<Rightarrow> HcsMessage" where
  "newNormalMessage payload configSeq originalSeq =
     Regular \<lparr>RegularPayload = payload, ConfigSeq = configSeq, MsgClass = NORMAL, OriginalSeq = originalSeq\<rparr>"

definition newTimeToCutMessageWithBlockNumber :: "u64 \<Rightarrow> HcsMessage" where
  "newTimeToCutMessageWithBlockNumber blockNumber = TimeToCut (Some (BlockNumber blockNumber))"

definition newTimeToCutMessageWithMessageHash :: "bytes \<Rightarrow> HcsMessage" where
  "newTimeToCutMessageWithMessageHash messageHash = TimeToCut (Some (MessageHash messageHash))"

definition newOrdererStartedMessage :: "bytes \<Rightarrow> HcsMessage" where
  "newOrdererStartedMessage identity = OrdererStarted identity"

definition newHcsMetadata :: "Timestamp \<Rightarrow> u64 \<Rightarrow> u64 \<Rightarrow> Timestamp \<Rightarrow> u64 \<Rightarrow> HcsMetadata" where
  "newHcsMetadata lastConsensusTimestampPersisted lastOriginalSequenceProcessed
     lastResubmittedConfigSequence lastChunkFreeConsensusTimestampPersisted lastChunkFreeSequenceProcessed =
     \<lparr>LastConsensusTimestampPersisted = Some lastConsensusTimestampPersisted,
      LastOriginalSequenceProcessed = lastOriginalSequenceProcessed,
      LastResubmittedConfigSequence = lastResubmittedConfigSequence,
      LastChunkFreeConsensusTimestampPersisted = Some lastChunkFreeConsensusTimestampPersisted,
      LastChunkFreeSequenceProcessed = lastChunkFreeSequenceProcessed\<rparr>"

section \<open>Reading the metadata of the last block\<close>

text \<open>
  \<open>getStateFromMetadata\<close> takes the decoder of \<open>HcsMetadata\<close> as an argument and returns the last
  persisted consensus timestamp, the last original sequence processed, the last resubmitted
  config sequence, the last chunk-free timestamp and the last chunk-free sequence.
\<close>

type_synonym hcs_state = "time \<times> u64 \<times> u64 \<times> time \<times> u64"

definition getStateFromMetadata ::
  "(bytes \<Rightarrow> HcsMetadata option) \<Rightarrow> slice \<Rightarrow> hcs_state go"
where
  "getStateFromMetadata unmarshal metadataValue =
     (case metadataValue of
        None \<Rightarrow> Ret (unixEpoch, 0, 0, unixEpoch, 0)
      | Some b \<Rightarrow>
          (case unmarshal b of
             None \<Rightarrow> Panic ''Ledger may be corrupted: cannot unmarshal orderer metadata in most recent block''
           | Some hcsMetadata \<Rightarrow>
               (case Timestamp_time (LastConsensusTimestampPersisted hcsMetadata) of
                  None \<Rightarrow> Panic ''Ledger may be corrupted: invalid last consensus timestamp in most recent block''
                | Some consensusTimestamp \<Rightarrow>
                    (case Timestamp_time (LastChunkFreeConsensusTimestampPersisted hcsMetadata) of
                       None \<Rightarrow> Panic ''Ledger may be corrupted: invalid last chunk free consensus timestamp in most recent block''
                     | Some lastChunkFreeTimestamp \<Rightarrow>
                         Ret (consensusTimestamp,
                              LastOriginalSequenceProcessed hcsMetadata,
                              LastResubmittedConfigSequence hcsMetadata,
                              lastChunkFreeTimestamp,
                              LastChunkFreeSequenceProcessed hcsMetadata)))))"

section \<open>Subscription errors\<close>

datatype StatusCode = NotFound | ResourceExhausted | Unavailable | Internal | OtherCode nat

record Status =
  Code :: StatusCode
  StatusMessage :: string

text \<open>
  \<open>rstStreamRegex\<close> is compiled from an interpreted Go string, in which a backslash followed by b is the
  backspace character, and the slashes and the letters gi around the expression are literal.
  A match is an occurrence of slash, backspace, \<open>rst\<close>, one character that is not a letter or a
  digit, \<open>stream\<close>, backspace, slash, \<open>gi\<close>.
\<close>

definition backspace :: char where
  "backspace = CHR 0x08"

definition alnum :: "char \<Rightarrow> bool" where
  "alnum c \<longleftrightarrow>
     (let n = (of_char c :: nat)
      in 48 \<le> n \<and> n \<le> 57 \<or> 97 \<le> n \<and> n \<le> 122 \<or> 65 \<le> n \<and> n \<le> 90)"

definition rstStream_at :: "string \<Rightarrow> bool" where
  "rstStream_at s \<longleftrightarrow>
     take 5 s = [CHR ''/'', backspace, CHR ''r'', CHR ''s'', CHR ''t''] \<and>
     5 < length s \<and> \<not> alnum (s ! 5) \<and>
     take 10 (drop 6 s) = ''stream'' @ [backspace, CHR ''/'', CHR ''g'', CHR ''i'']"

fun rstStreamRegex_FindIndex :: "string \<Rightarrow> nat option" where
  "rstStreamRegex_FindIndex [] = None"
| "rstStreamRegex_FindIndex (c # s) =
     (if rstStream_at (c # s) then Some 0 else map_option Suc (rstStreamRegex_FindIndex s))"

definition isSubscriptionErrorRecoverable :: "Status \<Rightarrow> bool" where
  "isSubscriptionErrorRecoverable status =
     (case Code status of
        NotFound \<Rightarrow> True
      | ResourceExhausted \<Rightarrow> True
      | Unavailable \<Rightarrow> True
      | Internal \<Rightarrow> rstStreamRegex_FindIndex (StatusMessage status) \<noteq> None
      | OtherCode _ \<Rightarrow> False)"

section \<open>Lemmas\<close>

lemma representable_iff: "TimestampProto t \<noteq> None \<longleftrightarrow> representable t"
  by (auto simp: TimestampProto_def representable_def validateTimestamp_def Let_def)

lemma TimestampProto_representable:
  "representable t \<Longrightarrow> TimestampProto t = Some \<lparr>Seconds = t div 10 ^ 9, Nanos = t mod 10 ^ 9\<rparr>"
  using representable_iff [of t] by (auto simp: TimestampProto_def Let_def split: if_splits)

lemma timestampProtoOrPanic_Ret:
  "timestampProtoOrPanic t = Ret ts \<longleftrightarrow> TimestampProto t = Some ts"
  by (auto simp: timestampProtoOrPanic_def split: option.splits)

lemma Timestamp_roundtrip: "TimestampProto t = Some ts \<Longrightarrow> Timestamp_time (Some ts) = Some t"
  by (auto simp: TimestampProto_def Timestamp_time_def Let_def split: if_splits)

lemma TimestampProto_inj: "TimestampProto t = Some ts \<Longrightarrow> TimestampProto u = Some ts \<Longrightarrow> t = u"
  by (metis Timestamp_roundtrip option.inject)

lemma rstStreamRegex_needs_backspace:
  "rstStreamRegex_FindIndex s \<noteq> None \<Longrightarrow> backspace \<in> set s"
proof (induction s)
  case Nil
  then show ?case by simp
next
  case (Cons c s)
  show ?case
  proof (cases "rstStream_at (c # s)")
    case True
    then have "backspace \<in> set (take 5 (c # s))" by (auto simp: rstStream_at_def)
    then show ?thesis by (rule in_set_takeD)
  next
    case False
    with Cons show ?thesis by auto
  qed
qed

text \<open>The state written into a block is the state read back when the plugin restarts.\<close>

lemma metadata_roundtrip:
  assumes "TimestampProto t = Some ts" and "TimestampProto u = Some us"
    and "unmarshal b = Some (newHcsMetadata ts orig resub us chunkfree)"
  shows "getStateFromMetadata unmarshal (Some b) = Ret (t, orig, resub, u, chunkfree)"
  using assms by (simp add: getStateFromMetadata_def newHcsMetadata_def Timestamp_roundtrip)

end
