(* ===== verification/ConfigTypes.thy ===== *)
theory ConfigTypes
  imports Prelude
begin

text \<open>
  The protobuf messages of the channel configuration (\<open>common/configtx.proto\<close> and \<open>common/policies.proto\<close> of
  fabric-protos): the tree of configuration groups, and policies.  The maps of a group are
  association lists with distinct keys.
\<close>

record ConfigValue =
  cvVersion :: u64
  cvValue :: bytes
  cvModPolicy :: string

record PolicyMsg =
  PolicyType :: int
  PolicyValue :: bytes

record ConfigPolicy =
  cpVersion :: u64
  cpPolicy :: "PolicyMsg option"
  cpModPolicy :: string

datatype ConfigGroup =
  ConfigGroup (cgVersion: u64)
    (cgGroups: "(string \<times> ConfigGroup) list")
    (cgValues: "(string \<times> ConfigValue) list")
    (cgPolicies: "(string \<times> ConfigPolicy) list")
    (cgModPolicy: string)

lemma size_subgroup [termination_simp]:
  "(k, h) \<in> set (cgGroups g) \<Longrightarrow> size h < size g"
  by (cases g) (auto simp: size_list_estimation' less_Suc_eq_le
      intro!: order_trans [OF _ size_list_estimation' [where x = "(k, h)" and f = "size_prod (\<lambda>_. 0) size"]])

lemma size_subgroup_constr [termination_simp]:
  "(k :: string, h :: ConfigGroup) \<in> set gs \<Longrightarrow> size h < Suc (size_list (size_prod (\<lambda>_. 0) size) gs + n)"
  using size_subgroup [of k h "ConfigGroup 0 gs [] [] []"] by simp

record SignedData =
  sdData :: bytes
  sdIdentity :: bytes
  sdSignature :: bytes

end
