(* ===== verification/GoCrypto.thy ===== *)
theory GoCrypto
  imports Prelude
begin

text \<open>
  The two parts of Go's standard library that fix the bytes of a block header: \<open>crypto/sha256\<close> and the fragment
  of \<open>encoding/asn1\<close> that marshals it.  Both are written out as computable functions.  The lemmas say that a
  digest has 32 bytes and that the DER encoding can be read back in one way only.
\<close>

section \<open>SHA-256\<close>

text \<open>
  \<open>crypto/sha256\<close> (FIPS 180-4): the message is padded to a multiple of 64 bytes with a 1 bit, zeros and its
  length in bits modulo \<open>2 ^ 64\<close>; each block of 16 words is extended to 64 and compressed into the state.
\<close>

unbundle bit_operations_syntax

definition rotr :: "nat \<Rightarrow> u32 \<Rightarrow> u32" where
  "rotr n w = (drop_bit n w OR push_bit (32 - n) w)"

text \<open>
  The constants of the rounds and of the initial state are the first 32 bits of the fractional parts of the cube roots of the first 64 primes
  and of the square roots of the first 8: \<open>root_bits\<close> finds an integer root bit by bit, and conversion to a word drops the integer part.
\<close>

definition sha_primes :: "nat list" where
  "sha_primes =
     [2, 3, 5, 7, 11, 13, 17, 19, 23, 29, 31, 37, 41, 43, 47, 53,
      59, 61, 67, 71, 73, 79, 83, 89, 97, 101, 103, 107, 109, 113, 127, 131,
      137, 139, 149, 151, 157, 163, 167, 173, 179, 181, 191, 193, 197, 199, 211, 223,
      227, 229, 233, 239, 241, 251, 257, 263, 269, 271, 277, 281, 283, 293, 307, 311]"

fun root_bits :: "nat \<Rightarrow> nat \<Rightarrow> nat \<Rightarrow> nat \<Rightarrow> nat" where
  "root_bits k n 0 r = r"
| "root_bits k n (Suc b) r = (if (r + 2 ^ b) ^ k \<le> n then root_bits k n b (r + 2 ^ b) else root_bits k n b r)"

definition sha_K :: "u32 list" where
  "sha_K = map (\<lambda>p. of_nat (root_bits 3 (p * 2 ^ 96) 35 0)) sha_primes"

definition sha_init :: "u32 list" where
  "sha_init = map (\<lambda>p. of_nat (root_bits 2 (p * 2 ^ 64) 35 0)) (take 8 sha_primes)"

definition sha_ssig0 :: "u32 \<Rightarrow> u32" where
  "sha_ssig0 w = (rotr 7 w XOR rotr 18 w XOR drop_bit 3 w)"

definition sha_ssig1 :: "u32 \<Rightarrow> u32" where
  "sha_ssig1 w = (rotr 17 w XOR rotr 19 w XOR drop_bit 10 w)"

text \<open>The message schedule; the list holds the words so far, the last one first.\<close>

primrec sha_extend :: "nat \<Rightarrow> u32 list \<Rightarrow> u32 list" where
  "sha_extend 0 ws = ws"
| "sha_extend (Suc n) ws =
     sha_extend n ((sha_ssig1 (ws ! 1) + ws ! 6 + sha_ssig0 (ws ! 14) + ws ! 15) # ws)"

fun sha_round :: "u32 list \<Rightarrow> u32 \<times> u32 \<Rightarrow> u32 list" where
  "sha_round [a, b, c, d, e, f, g, h] (k, w) =
     (let t1 = h + (rotr 6 e XOR rotr 11 e XOR rotr 25 e) + ((e AND f) XOR (NOT e AND g)) + k + w;
          t2 = (rotr 2 a XOR rotr 13 a XOR rotr 22 a) + ((a AND b) XOR (a AND c) XOR (b AND c))
      in [t1 + t2, a, b, c, d + t1, e, f, g])"
| "sha_round s _ = s"

definition sha_block :: "u32 list \<Rightarrow> u32 list \<Rightarrow> u32 list" where
  "sha_block s ws = map2 (+) s (foldl sha_round s (zip sha_K (rev (sha_extend 48 (rev ws)))))"

fun sha_words :: "bytes \<Rightarrow> u32 list" where
  "sha_words (a # b # c # d # r) =
     (push_bit 24 (ucast a) OR push_bit 16 (ucast b) OR push_bit 8 (ucast c) OR ucast d) # sha_words r"
| "sha_words _ = []"

fun sha_blocks :: "u32 list \<Rightarrow> nat \<Rightarrow> u32 list \<Rightarrow> u32 list" where
  "sha_blocks s 0 ws = s"
| "sha_blocks s (Suc n) ws = sha_blocks (sha_block s (take 16 ws)) n (drop 16 ws)"

definition word_bytes :: "u32 \<Rightarrow> bytes" where
  "word_bytes w = [ucast (drop_bit 24 w), ucast (drop_bit 16 w), ucast (drop_bit 8 w), ucast w]"

definition length_bytes :: "u64 \<Rightarrow> bytes" where
  "length_bytes n = word_bytes (ucast (drop_bit 32 n)) @ word_bytes (ucast n)"

definition sha_pad :: "bytes \<Rightarrow> bytes" where
  "sha_pad m = m @ [0x80] @ replicate ((119 - length m mod 64) mod 64) 0
      @ length_bytes (8 * of_nat (length m))"

definition sha256_Sum256 :: "bytes \<Rightarrow> bytes" where
  "sha256_Sum256 m =
     (let p = sha_pad m in concat (map word_bytes (sha_blocks sha_init (length p div 64) (sha_words p))))"


lemma length_sha_round: "length (sha_round s kw) = length s"
  by (induction s kw rule: sha_round.induct) (simp_all add: Let_def)

lemma length_sha_rounds: "length (foldl sha_round s kws) = length s"
  by (induction kws arbitrary: s) (simp_all add: length_sha_round)

lemma length_sha_blocks: "length (sha_blocks s n ws) = length s"
  by (induction s n ws rule: sha_blocks.induct) (simp_all add: sha_block_def length_sha_rounds)

lemma length_concat_words: "length (concat (map word_bytes ws)) = 4 * length ws"
  by (induction ws) (simp_all add: word_bytes_def)

lemma length_sha256 [simp]: "length (sha256_Sum256 m) = 32"
  by (simp add: sha256_Sum256_def Let_def length_concat_words length_sha_blocks sha_init_def sha_primes_def)

section \<open>DER\<close>

text \<open>
  \<open>encoding/asn1\<close>, for what the code marshals: big-endian numbers without leading zeros, definite lengths
  in the short and the long form, a non-negative \<open>INTEGER\<close> (with a zero byte in front when its first bit is set),
  an \<open>OCTET STRING\<close> and a \<open>SEQUENCE\<close>.
\<close>

fun be_bytes :: "nat \<Rightarrow> bytes" where
  "be_bytes n = (if n = 0 then [] else be_bytes (n div 256) @ [of_nat (n mod 256)])"

declare be_bytes.simps [simp del]

definition be_val :: "bytes \<Rightarrow> nat" where
  "be_val bs = foldl (\<lambda>acc b. 256 * acc + unat b) 0 bs"

definition der_length :: "nat \<Rightarrow> bytes" where
  "der_length n = (if n < 128 then [of_nat n] else (0x80 OR of_nat (length (be_bytes n))) # be_bytes n)"

definition der_tlv :: "byte \<Rightarrow> bytes \<Rightarrow> bytes" where
  "der_tlv tag content = tag # der_length (length content) @ content"

definition der_intBytes :: "nat \<Rightarrow> bytes" where
  "der_intBytes n = (let bs = be_bytes n in if bs = [] then [0] else if bit (hd bs) 7 then 0 # bs else bs)"

definition der_integer :: "nat \<Rightarrow> bytes" where
  "der_integer n =
     der_tlv 0x02 (der_intBytes n)"

definition der_octets :: "bytes \<Rightarrow> bytes" where
  "der_octets bs = der_tlv 0x04 bs"

definition der_sequence :: "bytes list \<Rightarrow> bytes" where
  "der_sequence es = der_tlv 0x30 (concat es)"

lemma be_val_snoc: "be_val (bs @ [b]) = 256 * be_val bs + unat b"
  by (simp add: be_val_def)

lemma unat_of_nat_byte: "n < 256 \<Longrightarrow> unat (of_nat n :: byte) = n"
  by (simp add: unat_of_nat take_bit_nat_eq_self)

lemma be_val_be_bytes [simp]: "be_val (be_bytes n) = n"
proof (induction n rule: be_bytes.induct)
  case (1 n)
  show ?case
  proof (cases "n = 0")
    case True
    then show ?thesis by (subst be_bytes.simps) (simp add: be_val_def)
  next
    case False
    then have "be_val (be_bytes n) = 256 * (n div 256) + n mod 256"
      using "1.IH" by (subst be_bytes.simps) (simp add: be_val_snoc unat_of_nat_byte)
    then show ?thesis by simp
  qed
qed

lemma be_val_zero: "be_val (0 # bs) = be_val bs"
  by (simp add: be_val_def)

lemma be_bytes_length: "n < 256 ^ k \<Longrightarrow> length (be_bytes n) \<le> k"
proof (induction k arbitrary: n)
  case 0
  then show ?case by (subst be_bytes.simps) simp
next
  case (Suc k)
  then have "n div 256 < 256 ^ k" by (simp add: less_mult_imp_div_less mult.commute)
  with Suc.IH show ?case by (subst be_bytes.simps) simp
qed

text \<open>A reader of lengths, which shows that an encoded length ends where it says.\<close>

definition der_readLength :: "bytes \<Rightarrow> nat \<times> bytes" where
  "der_readLength bs =
     (if unat (hd bs) < 128 then (unat (hd bs), tl bs)
      else let k = unat (hd bs) - 128 in (be_val (take k (tl bs)), drop k (tl bs)))"

lemma unat_long_form: "k < 128 \<Longrightarrow> unat (0x80 OR of_nat k :: byte) = 128 + k"
proof -
  assume k: "k < 128"
  have "(0x80 OR of_nat k :: byte) = 0x80 + of_nat k"
  proof (rule disjunctive_add [symmetric])
    fix n
    have "(0x80 :: byte) = push_bit 7 1" by simp
    moreover have "take_bit 7 (of_nat k :: byte) = of_nat k"
      using k by (simp add: take_bit_of_nat take_bit_nat_eq_self)
    ultimately show "\<not> bit (0x80 :: byte) n \<or> \<not> bit (of_nat k :: byte) n"
      by (metis bit_push_bit_iff bit_take_bit_iff not_less)
  qed
  also have "\<dots> = of_nat (128 + k)" by simp
  finally show ?thesis using k unat_of_nat_byte [of "128 + k"] by simp
qed

lemma der_readLength_der_length:
  assumes "n < 2 ^ 63"
  shows "der_readLength (der_length n @ r) = (n, r)"
proof (cases "n < 128")
  case True
  then show ?thesis by (simp add: der_length_def der_readLength_def unat_of_nat_byte)
next
  case False
  have "n < 256 ^ 8" using assms by simp
  then have "length (be_bytes n) < 128" using be_bytes_length [of n 8] by linarith
  with False show ?thesis
    by (simp add: der_length_def der_readLength_def unat_long_form)
qed

lemma der_tlv_inj:
  assumes "der_tlv t c @ r = der_tlv t' c' @ r'" and "length c < 2 ^ 63" and "length c' < 2 ^ 63"
  shows "t = t' \<and> c = c' \<and> r = r'"
proof -
  from assms(1) have t: "t = t'"
    and e: "der_length (length c) @ c @ r = der_length (length c') @ c' @ r'" by (simp_all add: der_tlv_def)
  have "(length c, c @ r) = (length c', c' @ r')"
    using arg_cong [OF e, of der_readLength] assms(2,3) by (simp only: der_readLength_der_length)
  with t show ?thesis using append_eq_append_conv [of c c' r r'] by simp
qed

lemma be_val_der_intBytes: "be_val (der_intBytes n) = n"
proof (cases "be_bytes n = []")
  case True
  then have "n = 0" using be_val_be_bytes [of n] by (simp add: be_val_def)
  then show ?thesis using True by (simp add: der_intBytes_def be_val_def)
next
  case False
  then show ?thesis by (simp add: der_intBytes_def Let_def be_val_zero)
qed

lemma length_der_intBytes: "n < 2 ^ 64 \<Longrightarrow> length (der_intBytes n) \<le> 9"
  using be_bytes_length [of n 8] by (simp add: der_intBytes_def Let_def)

lemma length_der_tlv: "length c < 2 ^ 62 \<Longrightarrow> length (der_tlv t c) \<le> length c + 10"
  using be_bytes_length [of "length c" 8] by (simp add: der_tlv_def der_length_def)

end
