(* ===== verification/ProtoUtil.thy ===== *)
theory ProtoUtil
  imports BlockCutter HcsTypes ConfigTypes GoCrypto
begin

text \<open>
  The package \<open>protoutil\<close>, as far as the ordering service uses it: the messages of fabric-protos that carry
  transactions, configurations and blocks, the accessors of \<open>unmarshalers.go\<close>, \<open>commonutils.go\<close> and
  \<open>signeddata.go\<close>, and the block functions of \<open>blockutils.go\<close>.

  The protobuf library is a parameter: a \<open>codec\<close> holds one marshalling and one unmarshalling function per
  message type, \<open>None\<close> being the error the library returns.  \<open>codec_ok\<close> states the documented behaviour the
  proofs rely on.
\<close>

section \<open>Messages\<close>

record ChannelHeader =
  chType :: int
  chVersion :: int
  chTimestamp :: "Timestamp option"
  chChannelId :: string
  chTxId :: string
  chEpoch :: u64
  chExtension :: bytes
  chTlsCertHash :: slice

record SignatureHeader =
  shCreator :: bytes
  shNonce :: bytes

record Header =
  hdrChannelHeader :: slice
  hdrSignatureHeader :: slice

record Payload =
  plHeader :: "Header option"
  plData :: bytes

record BlockHeader =
  Number :: u64
  PreviousHash :: bytes
  DataHash :: bytes

text \<open>\<open>BlockData\<close> and \<open>BlockMetadata\<close> hold one repeated field each.\<close>

record Block =
  blkHeader :: "BlockHeader option"
  blkData :: "bytes list option"
  blkMetadata :: "bytes list option"

record MetadataSignature =
  msSignatureHeader :: bytes
  msSignature :: bytes

record Metadata =
  mdValue :: bytes
  mdSignatures :: "MetadataSignature list"

record LastConfig =
  lcIndex :: u64

record OrdererBlockMetadata =
  obmLastConfig :: "LastConfig option"
  obmConsenterMetadata :: bytes

record Config =
  cfgSequence :: u64
  cfgChannelGroup :: "ConfigGroup option"

record ConfigEnvelope =
  ceConfig :: "Config option"
  ceLastUpdate :: "Envelope option"

record ConfigUpdate =
  cuChannelId :: string
  cuReadSet :: "ConfigGroup option"
  cuWriteSet :: "ConfigGroup option"

record ConfigSignature =
  csSignatureHeader :: bytes
  csSignature :: bytes

record ConfigUpdateEnvelope =
  cueConfigUpdate :: bytes
  cueSignatures :: "ConfigSignature list"

abbreviation (input) HeaderType_MESSAGE :: int where
  "HeaderType_MESSAGE \<equiv> 0"

abbreviation (input) HeaderType_CONFIG :: int where
  "HeaderType_CONFIG \<equiv> 1"

abbreviation (input) HeaderType_CONFIG_UPDATE :: int where
  "HeaderType_CONFIG_UPDATE \<equiv> 2"

abbreviation (input) HeaderType_ENDORSER_TRANSACTION :: int where
  "HeaderType_ENDORSER_TRANSACTION \<equiv> 3"

abbreviation (input) HeaderType_ORDERER_TRANSACTION :: int where
  "HeaderType_ORDERER_TRANSACTION \<equiv> 4"

abbreviation (input) SIGNATURES :: nat where
  "SIGNATURES \<equiv> 0"

abbreviation (input) LAST_CONFIG :: nat where
  "LAST_CONFIG \<equiv> 1"

abbreviation (input) ORDERER :: nat where
  "ORDERER \<equiv> 3"

abbreviation (input) COMMIT_HASH :: nat where
  "COMMIT_HASH \<equiv> 4"

record codec =
  unEnvelope :: "bytes \<Rightarrow> Envelope option"
  unPayload :: "bytes \<Rightarrow> Payload option"
  unHeader :: "bytes \<Rightarrow> Header option"
  unChannelHeader :: "bytes \<Rightarrow> ChannelHeader option"
  unSignatureHeader :: "bytes \<Rightarrow> SignatureHeader option"
  unBlock :: "bytes \<Rightarrow> Block option"
  unMetadata :: "bytes \<Rightarrow> Metadata option"
  unOrdererBlockMetadata :: "bytes \<Rightarrow> OrdererBlockMetadata option"
  unLastConfig :: "bytes \<Rightarrow> LastConfig option"
  unConfig :: "bytes \<Rightarrow> Config option"
  unConfigEnvelope :: "bytes \<Rightarrow> ConfigEnvelope option"
  unConfigUpdate :: "bytes \<Rightarrow> ConfigUpdate option"
  unConfigUpdateEnvelope :: "bytes \<Rightarrow> ConfigUpdateEnvelope option"
  maEnvelope :: "Envelope \<Rightarrow> bytes option"
  maPayload :: "Payload \<Rightarrow> bytes option"
  maHeader :: "Header \<Rightarrow> bytes option"
  maChannelHeader :: "ChannelHeader \<Rightarrow> bytes option"
  maSignatureHeader :: "SignatureHeader \<Rightarrow> bytes option"
  maMetadata :: "Metadata \<Rightarrow> bytes option"
  maOrdererBlockMetadata :: "OrdererBlockMetadata \<Rightarrow> bytes option"
  maLastConfig :: "LastConfig \<Rightarrow> bytes option"
  maConfigEnvelope :: "ConfigEnvelope \<Rightarrow> bytes option"

text \<open>
  What the proofs rely on: unmarshalling gives back what was marshalled, for messages in which no bytes field that
  the code compares with nil is empty but not nil (the library leaves out empty fields, which come back as nil).
  A message with a field that is not zero or empty has bytes.
\<close>

definition inverts_on :: "('a \<Rightarrow> bool) \<Rightarrow> ('a \<Rightarrow> bytes option) \<Rightarrow> (bytes \<Rightarrow> 'a option) \<Rightarrow> bool" where
  "inverts_on P ma un \<longleftrightarrow> (\<forall>m b. P m \<longrightarrow> ma m = Some b \<longrightarrow> un b = Some m)"

abbreviation inverts :: "('a \<Rightarrow> bytes option) \<Rightarrow> (bytes \<Rightarrow> 'a option) \<Rightarrow> bool" where
  "inverts \<equiv> inverts_on (\<lambda>_. True)"

definition codec_ok :: "codec \<Rightarrow> bool" where
  "codec_ok c \<longleftrightarrow>
     inverts_on (\<lambda>m. Envelope.Payload m \<noteq> Some []) (maEnvelope c) (unEnvelope c)
     \<and> inverts_on (\<lambda>m. \<forall>h. plHeader m = Some h \<longrightarrow> hdrChannelHeader h \<noteq> Some [] \<and> hdrSignatureHeader h \<noteq> Some []) (maPayload c) (unPayload c)
     \<and> inverts_on (\<lambda>m. hdrChannelHeader m \<noteq> Some [] \<and> hdrSignatureHeader m \<noteq> Some []) (maHeader c) (unHeader c)
     \<and> inverts_on (\<lambda>m. chTlsCertHash m \<noteq> Some []) (maChannelHeader c) (unChannelHeader c)
     \<and> inverts (maSignatureHeader c) (unSignatureHeader c) \<and> inverts (maMetadata c) (unMetadata c)
     \<and> inverts (maOrdererBlockMetadata c) (unOrdererBlockMetadata c)
     \<and> inverts (maLastConfig c) (unLastConfig c)
     \<and> (\<forall>m. maChannelHeader c m = Some [] \<longrightarrow> chType m = 0)
     \<and> (\<forall>m. maSignatureHeader c m = Some [] \<longrightarrow> shNonce m = [])
     \<and> (\<forall>m. maPayload c m = Some [] \<longrightarrow> plHeader m = None)"

section \<open>Unmarshalling and marshalling\<close>

datatype proto_err =
    ErrUnmarshal string
  | ErrMarshal string
  | ErrEnvelopeNoHeader
  | ErrHeaderType int int
  | ErrBlockDataNil
  | ErrEnvelopeIndex
  | ErrHeaderNotSet
  | ErrChannelHeaderNotSet
  | ErrBlockEmpty
  | ErrPayloadHeaderEmpty
  | ErrNoMetadata
  | ErrNoMetadataAt nat
  | ErrNilSignatures
  | ErrMissingHeader
  | ErrSerialize
  | ErrNonce
  | ErrSign
  | ErrNilArguments
  | ErrInvalidTxID

definition or_err :: "'e \<Rightarrow> 'a option \<Rightarrow> 'e + 'a" where
  "or_err e x = (case x of None \<Rightarrow> Inl e | Some v \<Rightarrow> Inr v)"

lemma or_err_simps [simp]:
  "or_err e None = Inl e" "or_err e (Some v) = Inr v" "or_err e x = Inr v \<longleftrightarrow> x = Some v"
  by (simp_all add: or_err_def split: option.splits)

definition MarshalOrPanic :: "('a \<Rightarrow> bytes option) \<Rightarrow> 'a \<Rightarrow> bytes go" where
  "MarshalOrPanic ma pb = (case ma pb of None \<Rightarrow> Panic ''error marshaling'' | Some b \<Rightarrow> Ret b)"

definition UnmarshalBlock :: "codec \<Rightarrow> bytes \<Rightarrow> proto_err + Block" where
  "UnmarshalBlock c encoded = or_err (ErrUnmarshal ''Block'') (unBlock c encoded)"

definition UnmarshalPayload :: "codec \<Rightarrow> bytes \<Rightarrow> proto_err + Payload" where
  "UnmarshalPayload c encoded = or_err (ErrUnmarshal ''Payload'') (unPayload c encoded)"

definition UnmarshalEnvelope :: "codec \<Rightarrow> bytes \<Rightarrow> proto_err + Envelope" where
  "UnmarshalEnvelope c encoded = or_err (ErrUnmarshal ''Envelope'') (unEnvelope c encoded)"

definition UnmarshalChannelHeader :: "codec \<Rightarrow> bytes \<Rightarrow> proto_err + ChannelHeader" where
  "UnmarshalChannelHeader c b = or_err (ErrUnmarshal ''ChannelHeader'') (unChannelHeader c b)"

definition UnmarshalSignatureHeader :: "codec \<Rightarrow> bytes \<Rightarrow> proto_err + SignatureHeader" where
  "UnmarshalSignatureHeader c b = or_err (ErrUnmarshal ''SignatureHeader'') (unSignatureHeader c b)"

definition UnmarshalHeader :: "codec \<Rightarrow> bytes \<Rightarrow> proto_err + Header" where
  "UnmarshalHeader c b = or_err (ErrUnmarshal ''Header'') (unHeader c b)"

definition orPanic :: "proto_err + 'a \<Rightarrow> 'a go" where
  "orPanic r = (case r of Inl e \<Rightarrow> Panic ''error'' | Inr v \<Rightarrow> Ret v)"

lemma orPanic_simps [simp, go_simps]:
  "orPanic (Inl e) = Panic ''error''" "orPanic (Inr v) = Ret v" "orPanic r = Ret v \<longleftrightarrow> r = Inr v"
  by (simp_all add: orPanic_def split: sum.splits)

definition UnmarshalPayloadOrPanic :: "codec \<Rightarrow> bytes \<Rightarrow> Payload go" where
  "UnmarshalPayloadOrPanic c encoded = orPanic (UnmarshalPayload c encoded)"

definition UnmarshalEnvelopeOrPanic :: "codec \<Rightarrow> bytes \<Rightarrow> Envelope go" where
  "UnmarshalEnvelopeOrPanic c encoded = orPanic (UnmarshalEnvelope c encoded)"

definition UnmarshalBlockOrPanic :: "codec \<Rightarrow> bytes \<Rightarrow> Block go" where
  "UnmarshalBlockOrPanic c encoded = orPanic (UnmarshalBlock c encoded)"

definition UnmarshalChannelHeaderOrPanic :: "codec \<Rightarrow> bytes \<Rightarrow> ChannelHeader go" where
  "UnmarshalChannelHeaderOrPanic c b = orPanic (UnmarshalChannelHeader c b)"

definition UnmarshalSignatureHeaderOrPanic :: "codec \<Rightarrow> bytes \<Rightarrow> SignatureHeader go" where
  "UnmarshalSignatureHeaderOrPanic c b = orPanic (UnmarshalSignatureHeader c b)"

definition UnmarshalConfig :: "codec \<Rightarrow> bytes \<Rightarrow> proto_err + Config" where
  "UnmarshalConfig c data = or_err (ErrUnmarshal ''Config'') (unConfig c data)"

definition UnmarshalConfigOrPanic :: "codec \<Rightarrow> bytes \<Rightarrow> Config go" where
  "UnmarshalConfigOrPanic c data = orPanic (UnmarshalConfig c data)"

definition UnmarshalConfigUpdate :: "codec \<Rightarrow> bytes \<Rightarrow> proto_err + ConfigUpdate" where
  "UnmarshalConfigUpdate c data = or_err (ErrUnmarshal ''ConfigUpdate'') (unConfigUpdate c data)"

definition UnmarshalConfigUpdateOrPanic :: "codec \<Rightarrow> bytes \<Rightarrow> ConfigUpdate go" where
  "UnmarshalConfigUpdateOrPanic c data = orPanic (UnmarshalConfigUpdate c data)"

definition UnmarshalConfigUpdateEnvelope :: "codec \<Rightarrow> bytes \<Rightarrow> proto_err + ConfigUpdateEnvelope" where
  "UnmarshalConfigUpdateEnvelope c data = or_err (ErrUnmarshal ''ConfigUpdateEnvelope'') (unConfigUpdateEnvelope c data)"

definition UnmarshalConfigUpdateEnvelopeOrPanic :: "codec \<Rightarrow> bytes \<Rightarrow> ConfigUpdateEnvelope go" where
  "UnmarshalConfigUpdateEnvelopeOrPanic c data = orPanic (UnmarshalConfigUpdateEnvelope c data)"

definition UnmarshalConfigEnvelope :: "codec \<Rightarrow> bytes \<Rightarrow> proto_err + ConfigEnvelope" where
  "UnmarshalConfigEnvelope c data = or_err (ErrUnmarshal ''ConfigEnvelope'') (unConfigEnvelope c data)"

definition UnmarshalConfigEnvelopeOrPanic :: "codec \<Rightarrow> bytes \<Rightarrow> ConfigEnvelope go" where
  "UnmarshalConfigEnvelopeOrPanic c data = orPanic (UnmarshalConfigEnvelope c data)"

section \<open>Envelopes\<close>

definition UnmarshalEnvelopeOfType ::
  "codec \<Rightarrow> Envelope \<Rightarrow> int \<Rightarrow> string \<Rightarrow> (bytes \<Rightarrow> 'a option) \<Rightarrow> proto_err + ChannelHeader \<times> 'a"
where
  "UnmarshalEnvelopeOfType c envelope headerType name unmarshal =
     res_bind (UnmarshalPayload c (slice_bytes (Envelope.Payload envelope))) (\<lambda>payload.
     case plHeader payload of
       None \<Rightarrow> Inl ErrEnvelopeNoHeader
     | Some header \<Rightarrow>
         res_bind (UnmarshalChannelHeader c (slice_bytes (hdrChannelHeader header))) (\<lambda>chdr.
         if chType chdr \<noteq> headerType then Inl (ErrHeaderType (chType chdr) headerType)
         else res_bind (or_err (ErrUnmarshal name) (unmarshal (plData payload))) (\<lambda>message. Inr (chdr, message))))"

definition EnvelopeToConfigUpdate :: "codec \<Rightarrow> Envelope \<Rightarrow> proto_err + ConfigUpdateEnvelope" where
  "EnvelopeToConfigUpdate c configtx =
     res_bind (UnmarshalEnvelopeOfType c configtx HeaderType_CONFIG_UPDATE ''ConfigUpdateEnvelope''
                 (unConfigUpdateEnvelope c)) (\<lambda>(_, configUpdateEnv). Inr configUpdateEnv)"

definition GetEnvelopeFromBlock :: "codec \<Rightarrow> bytes \<Rightarrow> proto_err + Envelope" where
  "GetEnvelopeFromBlock c data = or_err (ErrUnmarshal ''Envelope'') (unEnvelope c data)"

definition ExtractEnvelope :: "codec \<Rightarrow> Block \<Rightarrow> int \<Rightarrow> proto_err + Envelope" where
  "ExtractEnvelope c block index =
     (case blkData block of
        None \<Rightarrow> Inl ErrBlockDataNil
      | Some data \<Rightarrow>
          if index < 0 \<or> int (length data) \<le> index then Inl ErrEnvelopeIndex
          else GetEnvelopeFromBlock c (data ! nat index))"

definition ExtractEnvelopeOrPanic :: "codec \<Rightarrow> Block \<Rightarrow> int \<Rightarrow> Envelope go" where
  "ExtractEnvelopeOrPanic c block index = orPanic (ExtractEnvelope c block index)"

definition IsConfigBlock :: "codec \<Rightarrow> Block \<Rightarrow> bool" where
  "IsConfigBlock c block =
     (case ExtractEnvelope c block 0 of
        Inl _ \<Rightarrow> False
      | Inr envelope \<Rightarrow>
          (case UnmarshalPayload c (slice_bytes (Envelope.Payload envelope)) of
             Inl _ \<Rightarrow> False
           | Inr payload \<Rightarrow>
               (case plHeader payload of
                  None \<Rightarrow> False
                | Some header \<Rightarrow>
                    (case UnmarshalChannelHeader c (slice_bytes (hdrChannelHeader header)) of
                       Inl _ \<Rightarrow> False
                     | Inr hdr \<Rightarrow> chType hdr = HeaderType_CONFIG \<or> chType hdr = HeaderType_ORDERER_TRANSACTION))))"

definition ChannelHeader_of :: "codec \<Rightarrow> Envelope \<Rightarrow> proto_err + ChannelHeader" where
  "ChannelHeader_of c env =
     res_bind (UnmarshalPayload c (slice_bytes (Envelope.Payload env))) (\<lambda>envPayload.
     case plHeader envPayload of
       None \<Rightarrow> Inl ErrHeaderNotSet
     | Some header \<Rightarrow>
         (case hdrChannelHeader header of
            None \<Rightarrow> Inl ErrChannelHeaderNotSet
          | Some b \<Rightarrow> UnmarshalChannelHeader c b))"

definition ChannelID_of :: "codec \<Rightarrow> Envelope \<Rightarrow> proto_err + string" where
  "ChannelID_of c env = res_bind (ChannelHeader_of c env) (\<lambda>chdr. Inr (chChannelId chdr))"

definition UnmarshalConfigUpdateFromPayload :: "codec \<Rightarrow> Payload \<Rightarrow> (proto_err + ConfigUpdate) go" where
  "UnmarshalConfigUpdateFromPayload c payload =
     (case UnmarshalConfigEnvelope c (plData payload) of
        Inl e \<Rightarrow> Ret (Inl e)
      | Inr configEnv \<Rightarrow>
          (case ceLastUpdate configEnv of
             None \<Rightarrow> Panic ''nil pointer dereference''
           | Some lastUpdate \<Rightarrow>
               Ret (res_bind (EnvelopeToConfigUpdate c lastUpdate) (\<lambda>configUpdateEnv.
                    UnmarshalConfigUpdate c (cueConfigUpdate configUpdateEnv)))))"

section \<open>Headers and signatures\<close>

definition MakeChannelHeader :: "int \<Rightarrow> int \<Rightarrow> int \<Rightarrow> string \<Rightarrow> u64 \<Rightarrow> ChannelHeader" where
  "MakeChannelHeader nowUnix headerType version chainID epoch =
     \<lparr>chType = headerType, chVersion = version, chTimestamp = Some \<lparr>Seconds = nowUnix, Nanos = 0\<rparr>,
      chChannelId = chainID, chTxId = [], chEpoch = epoch, chExtension = [], chTlsCertHash = None\<rparr>"

definition MakeSignatureHeader :: "bytes \<Rightarrow> bytes \<Rightarrow> SignatureHeader" where
  "MakeSignatureHeader serializedCreatorCertChain nonce = \<lparr>shCreator = serializedCreatorCertChain, shNonce = nonce\<rparr>"

definition MakePayloadHeader :: "codec \<Rightarrow> ChannelHeader \<Rightarrow> SignatureHeader \<Rightarrow> Header go" where
  "MakePayloadHeader c ch sh =
     go_bind (MarshalOrPanic (maChannelHeader c) ch) (\<lambda>chb.
     go_bind (MarshalOrPanic (maSignatureHeader c) sh) (\<lambda>shb.
     Ret \<lparr>hdrChannelHeader = Some chb, hdrSignatureHeader = Some shb\<rparr>))"

text \<open>
  A signer (\<open>identity.SignerSerializer\<close>, implemented by the MSP) signs a message and serializes its identity; \<open>rnd\<close> is what
  \<open>rand.Read\<close> gives for a nonce.
\<close>

record signer =
  Sign :: "bytes \<Rightarrow> bytes option"
  Serialize :: "bytes option"

definition NewSignatureHeader :: "signer \<Rightarrow> bytes option \<Rightarrow> proto_err + SignatureHeader" where
  "NewSignatureHeader sg rnd =
     res_bind (or_err ErrSerialize (Serialize sg)) (\<lambda>creator.
     res_bind (or_err ErrNonce rnd) (\<lambda>nonce. Inr \<lparr>shCreator = creator, shNonce = nonce\<rparr>))"

definition NewSignatureHeaderOrPanic :: "signer option \<Rightarrow> bytes option \<Rightarrow> SignatureHeader go" where
  "NewSignatureHeaderOrPanic sg rnd =
     (case sg of
        None \<Rightarrow> Panic ''invalid signer. cannot be nil''
      | Some s \<Rightarrow> orPanic (NewSignatureHeader s rnd))"

definition SignOrPanic :: "signer option \<Rightarrow> bytes \<Rightarrow> bytes go" where
  "SignOrPanic sg msg =
     (case sg of
        None \<Rightarrow> Panic ''invalid signer. cannot be nil''
      | Some s \<Rightarrow> (case Sign s msg of None \<Rightarrow> Panic ''failed generating signature'' | Some sigma \<Rightarrow> Ret sigma))"

definition configSignedData :: "codec \<Rightarrow> bytes \<Rightarrow> ConfigSignature \<Rightarrow> proto_err + SignedData" where
  "configSignedData c configUpdate configSig =
     res_bind (UnmarshalSignatureHeader c (csSignatureHeader configSig)) (\<lambda>sigHeader.
     Inr \<lparr>sdData = csSignatureHeader configSig @ configUpdate, sdIdentity = shCreator sigHeader,
          sdSignature = csSignature configSig\<rparr>)"

definition ConfigUpdateEnvelopeAsSignedData :: "codec \<Rightarrow> ConfigUpdateEnvelope option \<Rightarrow> proto_err + SignedData list" where
  "ConfigUpdateEnvelopeAsSignedData c ce =
     (case ce of
        None \<Rightarrow> Inl ErrNilSignatures
      | Some env \<Rightarrow> res_map (configSignedData c (cueConfigUpdate env)) (cueSignatures env))"

definition EnvelopeAsSignedData :: "codec \<Rightarrow> Envelope option \<Rightarrow> proto_err + SignedData list" where
  "EnvelopeAsSignedData c env =
     (case env of
        None \<Rightarrow> Inl ErrNilSignatures
      | Some e \<Rightarrow>
          res_bind (UnmarshalPayload c (slice_bytes (Envelope.Payload e))) (\<lambda>payload.
          case plHeader payload of
            None \<Rightarrow> Inl ErrMissingHeader
          | Some header \<Rightarrow>
              res_bind (UnmarshalSignatureHeader c (slice_bytes (hdrSignatureHeader header))) (\<lambda>shdr.
              Inr [\<lparr>sdData = slice_bytes (Envelope.Payload e), sdIdentity = shCreator shdr, sdSignature = Envelope.Signature e\<rparr>])))"

section \<open>Blocks\<close>

definition NewBlock :: "u64 \<Rightarrow> bytes \<Rightarrow> Block" where
  "NewBlock seqNum previousHash =
     \<lparr>blkHeader = Some \<lparr>Number = seqNum, PreviousHash = previousHash, DataHash = []\<rparr>,
      blkData = Some [], blkMetadata = Some (replicate 5 [])\<rparr>"

definition BlockHeaderBytes :: "BlockHeader \<Rightarrow> bytes" where
  "BlockHeaderBytes b = der_sequence [der_integer (unat (Number b)), der_octets (PreviousHash b), der_octets (DataHash b)]"

definition BlockHeaderHash :: "BlockHeader \<Rightarrow> bytes" where
  "BlockHeaderHash b = sha256_Sum256 (BlockHeaderBytes b)"

definition BlockDataHash :: "bytes list \<Rightarrow> bytes" where
  "BlockDataHash data = sha256_Sum256 (concat data)"

definition GetChannelIDFromBlock :: "codec \<Rightarrow> Block option \<Rightarrow> proto_err + string" where
  "GetChannelIDFromBlock c block =
     (case block of
        None \<Rightarrow> Inl ErrBlockEmpty
      | Some b \<Rightarrow>
          (case blkData b of
             None \<Rightarrow> Inl ErrBlockEmpty
           | Some [] \<Rightarrow> Inl ErrBlockEmpty
           | Some (data0 # _) \<Rightarrow>
               res_bind (GetEnvelopeFromBlock c data0) (\<lambda>envelope.
               res_bind (UnmarshalPayload c (slice_bytes (Envelope.Payload envelope))) (\<lambda>payload.
               case plHeader payload of
                 None \<Rightarrow> Inl ErrPayloadHeaderEmpty
               | Some header \<Rightarrow>
                   res_bind (UnmarshalChannelHeader c (slice_bytes (hdrChannelHeader header))) (\<lambda>chdr.
                   Inr (chChannelId chdr))))))"

definition GetChannelIDFromBlockBytes :: "codec \<Rightarrow> bytes \<Rightarrow> proto_err + string" where
  "GetChannelIDFromBlockBytes c b = res_bind (UnmarshalBlock c b) (\<lambda>block. GetChannelIDFromBlock c (Some block))"

definition GetMetadataFromBlock :: "codec \<Rightarrow> Block \<Rightarrow> nat \<Rightarrow> proto_err + Metadata" where
  "GetMetadataFromBlock c block index =
     (case blkMetadata block of
        None \<Rightarrow> Inl ErrNoMetadata
      | Some metadata \<Rightarrow>
          if length metadata \<le> index then Inl (ErrNoMetadataAt index)
          else or_err (ErrUnmarshal ''Metadata'') (unMetadata c (metadata ! index)))"

definition GetMetadataFromBlockOrPanic :: "codec \<Rightarrow> Block \<Rightarrow> nat \<Rightarrow> Metadata go" where
  "GetMetadataFromBlockOrPanic c block index = orPanic (GetMetadataFromBlock c block index)"

definition GetConsenterMetadataFromBlock :: "codec \<Rightarrow> Block \<Rightarrow> proto_err + Metadata" where
  "GetConsenterMetadataFromBlock c block =
     res_bind (GetMetadataFromBlock c block SIGNATURES) (\<lambda>m.
     if mdValue m = [] then GetMetadataFromBlock c block ORDERER
     else res_bind (or_err (ErrUnmarshal ''OrdererBlockMetadata'') (unOrdererBlockMetadata c (mdValue m))) (\<lambda>obm.
          or_err (ErrUnmarshal ''consenter metadata'') (unMetadata c (obmConsenterMetadata obm))))"

definition GetLastConfigIndexFromBlock :: "codec \<Rightarrow> Block \<Rightarrow> (proto_err + u64) go" where
  "GetLastConfigIndexFromBlock c block =
     (case GetMetadataFromBlock c block SIGNATURES of
        Inl e \<Rightarrow> Ret (Inl e)
      | Inr m \<Rightarrow>
          if mdValue m = [] then
            Ret (res_bind (GetMetadataFromBlock c block LAST_CONFIG) (\<lambda>m'.
                 res_bind (or_err (ErrUnmarshal ''LastConfig'') (unLastConfig c (mdValue m'))) (\<lambda>lc.
                 Inr (lcIndex lc))))
          else
            (case unOrdererBlockMetadata c (mdValue m) of
               None \<Rightarrow> Ret (Inl (ErrUnmarshal ''OrdererBlockMetadata''))
             | Some obm \<Rightarrow>
                 (case obmLastConfig obm of
                    None \<Rightarrow> Panic ''nil pointer dereference''
                  | Some lc \<Rightarrow> Ret (Inr (lcIndex lc)))))"

definition GetLastConfigIndexFromBlockOrPanic :: "codec \<Rightarrow> Block \<Rightarrow> u64 go" where
  "GetLastConfigIndexFromBlockOrPanic c block = go_bind (GetLastConfigIndexFromBlock c block) orPanic"

definition InitBlockMetadata :: "Block \<Rightarrow> Block" where
  "InitBlockMetadata block =
     (case blkMetadata block of
        None \<Rightarrow> block\<lparr>blkMetadata := Some [[], [], [], [], []]\<rparr>
      | Some metadata \<Rightarrow>
          if length metadata < COMMIT_HASH + 1
          then block\<lparr>blkMetadata := Some (metadata @ replicate (COMMIT_HASH + 1 - length metadata) [])\<rparr>
          else block)"

definition CopyBlockMetadata :: "Block \<Rightarrow> Block \<Rightarrow> Block" where
  "CopyBlockMetadata src dst = InitBlockMetadata (dst\<lparr>blkMetadata := blkMetadata src\<rparr>)"

section \<open>Lemmas\<close>

lemma unat_u64_less: "unat (x :: u64) < 2 ^ 64"
proof -
  have "unat x < 2 ^ LENGTH(64)" by (rule unsigned_less)
  then show ?thesis by simp
qed

text \<open>The bytes of a header identify it, as long as its hashes are of lengths a Go slice can have.\<close>

lemma BlockHeaderBytes_inj:
  assumes "BlockHeaderBytes a = BlockHeaderBytes b"
    and "length (PreviousHash a) + length (DataHash a) < 2 ^ 61" and "length (PreviousHash b) + length (DataHash b) < 2 ^ 61"
  shows "a = b"
proof -
  let ?c = "\<lambda>h. concat [der_integer (unat (Number h)), der_octets (PreviousHash h), der_octets (DataHash h)]"
  have u64: "unat (Number h) < 2 ^ 64" for h :: BlockHeader
    by (rule unat_u64_less)
  have int: "length (der_integer (unat (Number h))) \<le> 19" for h :: BlockHeader
    using length_der_intBytes [OF u64 [of h]] length_der_tlv [of "der_intBytes (unat (Number h))" "0x02"]
    by (simp add: der_integer_def)
  have len: "length (?c h) < 2 ^ 63" if "length (PreviousHash h) + length (DataHash h) < 2 ^ 61" for h :: BlockHeader
    using that int [of h] length_der_tlv [of "PreviousHash h" "0x04"] length_der_tlv [of "DataHash h" "0x04"]
    by (simp add: der_octets_def)
  have "?c a = ?c b"
    using der_tlv_inj [of "0x30" "?c a" "[]" "0x30" "?c b" "[]"] assms len
    by (simp add: BlockHeaderBytes_def der_sequence_def)
  then have e: "der_tlv 0x02 (der_intBytes (unat (Number a))) @ der_tlv 0x04 (PreviousHash a) @ der_tlv 0x04 (DataHash a) @ []
      = der_tlv 0x02 (der_intBytes (unat (Number b))) @ der_tlv 0x04 (PreviousHash b) @ der_tlv 0x04 (DataHash b) @ []"
    by (simp add: der_integer_def der_octets_def)
  have "length (der_intBytes (unat (Number h))) < 2 ^ 63" for h :: BlockHeader
    using length_der_intBytes [OF u64 [of h]] by simp
  from der_tlv_inj [OF e this this]
  have n: "der_intBytes (unat (Number a)) = der_intBytes (unat (Number b))"
    and e2: "der_tlv 0x04 (PreviousHash a) @ der_tlv 0x04 (DataHash a) @ [] = der_tlv 0x04 (PreviousHash b) @ der_tlv 0x04 (DataHash b) @ []"
    by simp_all
  have p: "PreviousHash a = PreviousHash b" and e3: "der_tlv 0x04 (DataHash a) @ [] = der_tlv 0x04 (DataHash b) @ []"
    using der_tlv_inj [OF e2] assms(2,3) by simp_all
  have d: "DataHash a = DataHash b" using der_tlv_inj [OF e3] assms(2,3) by simp
  have "unat (Number a) = unat (Number b)" using n be_val_der_intBytes by metis
  with p d show ?thesis by (simp add: word_unat_eq_iff)
qed

lemma codec_okD:
  assumes "codec_ok c"
  shows "maEnvelope c m1 = Some b \<Longrightarrow> Envelope.Payload m1 \<noteq> Some [] \<Longrightarrow> unEnvelope c b = Some m1"
    and "maPayload c m2 = Some b \<Longrightarrow> (\<And>h. plHeader m2 = Some h \<Longrightarrow> hdrChannelHeader h \<noteq> Some [] \<and> hdrSignatureHeader h \<noteq> Some [])
         \<Longrightarrow> unPayload c b = Some m2"
    and "maHeader c m3 = Some b \<Longrightarrow> hdrChannelHeader m3 \<noteq> Some [] \<Longrightarrow> hdrSignatureHeader m3 \<noteq> Some [] \<Longrightarrow> unHeader c b = Some m3"
    and "maChannelHeader c m4 = Some b \<Longrightarrow> chTlsCertHash m4 \<noteq> Some [] \<Longrightarrow> unChannelHeader c b = Some m4"
    and "maSignatureHeader c m5 = Some b \<Longrightarrow> unSignatureHeader c b = Some m5"
    and "maMetadata c m6 = Some b \<Longrightarrow> unMetadata c b = Some m6"
    and "maOrdererBlockMetadata c m7 = Some b \<Longrightarrow> unOrdererBlockMetadata c b = Some m7"
    and "maLastConfig c m8 = Some b \<Longrightarrow> unLastConfig c b = Some m8"
    and "maChannelHeader c m4 = Some b \<Longrightarrow> chType m4 \<noteq> 0 \<Longrightarrow> b \<noteq> []"
    and "maSignatureHeader c m5 = Some b \<Longrightarrow> shNonce m5 \<noteq> [] \<Longrightarrow> b \<noteq> []"
    and "maPayload c m2 = Some b \<Longrightarrow> plHeader m2 = Some h \<Longrightarrow> b \<noteq> []"
  using assms unfolding codec_ok_def inverts_on_def by (blast, blast, blast, blast, blast, blast, blast, blast, blast, blast, force)

lemmas proto_accessors =
  UnmarshalBlock_def UnmarshalPayload_def UnmarshalEnvelope_def UnmarshalChannelHeader_def
  UnmarshalSignatureHeader_def UnmarshalHeader_def UnmarshalConfig_def UnmarshalConfigUpdate_def
  UnmarshalConfigUpdateEnvelope_def UnmarshalConfigEnvelope_def GetEnvelopeFromBlock_def

end
