(* ===== verification/Policies.thy ===== *)
theory Policies
  imports ConfigTypes "HOL-Library.Sublist" "HOL-Library.AList"
begin

text \<open>
  Policies: signature policies compiled to evaluators (\<open>common/cauthdsl\<close>), implicit meta policies and the tree of
  policy managers (\<open>common/policies\<close>).

  A policy of the Go interface is a value of the datatype \<open>Policy\<close>.  An evaluator is a Go closure that
  takes the identities and a vector of flags, which it updates; here it returns the vector.  The
  membership service (deserialising an identity, checking its signature and whether it satisfies a principal) is a
  record of functions.  A Go panic is the error \<open>PolPanic\<close>.
\<close>

section \<open>Identities\<close>

record Identity =
  Mspid :: string
  IdString :: string
  IdBytes :: bytes

record MSPPrincipal =
  PrincipalClassification :: int
  Principal :: bytes

record msp_lib =
  DeserializeIdentity :: "bytes \<Rightarrow> Identity option"
  VerifySignature :: "Identity \<Rightarrow> bytes \<Rightarrow> bytes \<Rightarrow> bool"
  SatisfiesPrincipal :: "Identity \<Rightarrow> MSPPrincipal \<Rightarrow> bool"

section \<open>Signature policies\<close>

datatype SignaturePolicy =
    NOutOf int "SignaturePolicy list"
  | SignedBy int
  | UnknownRule
  | NilRule

record SignaturePolicyEnvelope =
  SpVersion :: int
  SpRule :: SignaturePolicy
  SpIdentities :: "MSPPrincipal list"

datatype pol_err = PolError string | PolPanic string

type_synonym evaluator = "Identity list \<Rightarrow> bool list \<Rightarrow> bool \<times> bool list"

text \<open>The loop of a gate: try each rule on a copy of the flags and keep the copy when the rule holds.\<close>

fun gate :: "evaluator list \<Rightarrow> Identity list \<Rightarrow> int \<Rightarrow> bool list \<Rightarrow> int \<times> bool list" where
  "gate [] sd verified used = (verified, used)"
| "gate (p # ps) sd verified used =
     (case p sd used of
        (ok, used') \<Rightarrow> if ok then gate ps sd (verified + 1) used' else gate ps sd verified used)"

text \<open>The first identity that is not used yet and satisfies the principal; \<open>i\<close> is the position.\<close>

fun findSigner :: "(Identity \<Rightarrow> bool) \<Rightarrow> Identity list \<Rightarrow> bool list \<Rightarrow> nat \<Rightarrow> nat option" where
  "findSigner sat (sd # sds) (u # us) i =
     (if \<not> u \<and> sat sd then Some i else findSigner sat sds us (Suc i))"
| "findSigner sat _ _ i = None"

fun compile :: "msp_lib \<Rightarrow> SignaturePolicy \<Rightarrow> MSPPrincipal list \<Rightarrow> pol_err + evaluator" where
  "compile msp NilRule identities = Inl (PolError ''Empty policy element'')"
| "compile msp (NOutOf n rules) identities =
     res_bind (res_map (\<lambda>rule. compile msp rule identities) rules) (\<lambda>policies.
       Inr (\<lambda>signedData used.
              case gate policies signedData 0 used of (verified, used') \<Rightarrow> (n \<le> verified, used')))"
| "compile msp (SignedBy i) identities =
     (if i < 0 \<or> to_int32 (int (length identities)) \<le> i then Inl (PolError ''identity index out of range'')
      else let signedByID = identities ! nat i
           in Inr (\<lambda>signedData used.
                case findSigner (\<lambda>sd. SatisfiesPrincipal msp sd signedByID) signedData used 0 of
                  None \<Rightarrow> (False, used)
                | Some k \<Rightarrow> (True, used[k := True])))"
| "compile msp UnknownRule identities = Inl (PolError ''Unknown type'')"

section \<open>Policies\<close>

datatype Policy =
    SigPolicy evaluator SignaturePolicyEnvelope
  | ImplicitMetaPolicy int "Policy list" string
  | rejectPolicy string
  | PolicyLogger Policy string

text \<open>
  \<open>NewPolicy\<close> of the provider of signature policies; the decoder of the envelope is an argument.
\<close>

definition NewPolicy ::
  "msp_lib \<Rightarrow> (bytes \<Rightarrow> SignaturePolicyEnvelope option) \<Rightarrow> bytes \<Rightarrow> pol_err + Policy"
where
  "NewPolicy msp unmarshal data =
     (case unmarshal data of
        None \<Rightarrow> Inl (PolError ''Error unmarshaling to SignaturePolicy'')
      | Some sigPolicy \<Rightarrow>
          if SpVersion sigPolicy \<noteq> 0 then Inl (PolError ''This evaluator only understands messages of version 0'')
          else res_bind (compile msp (SpRule sigPolicy) (SpIdentities sigPolicy)) (\<lambda>compiled.
                 Inr (SigPolicy compiled sigPolicy)))"

definition EnvelopeBased_NewPolicy :: "msp_lib \<Rightarrow> SignaturePolicyEnvelope option \<Rightarrow> pol_err + Policy" where
  "EnvelopeBased_NewPolicy msp sigPolicy =
     (case sigPolicy of
        None \<Rightarrow> Inl (PolError ''invalid arguments'')
      | Some sp \<Rightarrow>
          res_bind (compile msp (SpRule sp) (SpIdentities sp)) (\<lambda>compiled. Inr (SigPolicy compiled sp)))"

text \<open>
  \<open>SignatureSetToValidIdentities\<close>: the loop over the signature set, with the keys of the identities seen so far.
\<close>

fun validIdentities :: "msp_lib \<Rightarrow> SignedData list \<Rightarrow> string list \<Rightarrow> Identity list" where
  "validIdentities msp [] idMap = []"
| "validIdentities msp (sd # sds) idMap =
     (case DeserializeIdentity msp (sdIdentity sd) of
        None \<Rightarrow> validIdentities msp sds idMap
      | Some identity \<Rightarrow>
          (let key = Mspid identity @ IdString identity
           in if key \<in> set idMap then validIdentities msp sds idMap
              else if \<not> VerifySignature msp identity (sdData sd) (sdSignature sd) then validIdentities msp sds idMap
              else identity # validIdentities msp sds (key # idMap)))"

definition SignatureSetToValidIdentities :: "msp_lib \<Rightarrow> SignedData list \<Rightarrow> Identity list" where
  "SignatureSetToValidIdentities msp signedData = validIdentities msp signedData []"

text \<open>
  Evaluation.  The loop of an implicit meta policy counts down and returns as soon as the count is zero.
\<close>

fun countDown :: "bool list \<Rightarrow> int \<Rightarrow> bool" where
  "countDown [] remaining \<longleftrightarrow> remaining = 0"
| "countDown (b # bs) remaining \<longleftrightarrow>
     (if b then (if remaining - 1 = 0 then True else countDown bs (remaining - 1)) else countDown bs remaining)"

fun EvaluateIdentities :: "Policy \<Rightarrow> Identity list \<Rightarrow> bool" where
  "EvaluateIdentities (SigPolicy ev env) identities = fst (ev identities (replicate (length identities) False))"
| "EvaluateIdentities (ImplicitMetaPolicy threshold subs name) identities =
     countDown (map (\<lambda>p. EvaluateIdentities p identities) subs) threshold"
| "EvaluateIdentities (rejectPolicy name) identities = False"
| "EvaluateIdentities (PolicyLogger p name) identities = EvaluateIdentities p identities"

fun EvaluateSignedData :: "msp_lib \<Rightarrow> Policy \<Rightarrow> SignedData list \<Rightarrow> bool" where
  "EvaluateSignedData msp (SigPolicy ev env) signatureSet =
     EvaluateIdentities (SigPolicy ev env) (SignatureSetToValidIdentities msp signatureSet)"
| "EvaluateSignedData msp (ImplicitMetaPolicy threshold subs name) signatureSet =
     countDown (map (\<lambda>p. EvaluateSignedData msp p signatureSet) subs) threshold"
| "EvaluateSignedData msp (rejectPolicy name) signatureSet = False"
| "EvaluateSignedData msp (PolicyLogger p name) signatureSet = EvaluateSignedData msp p signatureSet"

section \<open>Converting policies to signature policies\<close>

fun Classification_String :: "int \<Rightarrow> string" where
  "Classification_String c =
     (if c = 0 then ''ROLE'' else if c = 1 then ''ORGANIZATION_UNIT'' else if c = 2 then ''IDENTITY''
      else if c = 3 then ''ANONYMITY'' else if c = 4 then ''COMBINED'' else show_int c)"

definition principalKey :: "MSPPrincipal \<Rightarrow> string" where
  "principalKey p = Classification_String (PrincipalClassification p) @ map (\<lambda>b. char_of (unat b)) (Principal p)"

fun remap :: "SignaturePolicy \<Rightarrow> (nat \<times> nat) list \<Rightarrow> pol_err + SignaturePolicy" where
  "remap (NOutOf n rules) idRemap =
     res_bind (res_map (\<lambda>rule. remap rule idRemap) rules) (\<lambda>rules'. Inr (NOutOf n rules'))"
| "remap (SignedBy i) idRemap =
     (if i < 0 then Inl (PolPanic ''programming error'')
      else case map_of idRemap (nat i) of
             None \<Rightarrow> Inl (PolPanic ''programming error'')
           | Some j \<Rightarrow> Inr (SignedBy (to_int32 (int j))))"
| "remap UnknownRule idRemap = Inl (PolPanic ''invalid policy type'')"
| "remap NilRule idRemap = Inl (PolPanic ''invalid memory address or nil pointer dereference'')"

text \<open>
  The second loop of \<open>merge\<close>: \<open>i\<close> is the position in the identities of the policy that is merged in, \<open>ids\<close> the
  identities so far, \<open>idMap\<close> their positions by key, \<open>idRemap\<close> the positions found.
\<close>

fun mergeIdentities ::
  "MSPPrincipal list \<Rightarrow> nat \<Rightarrow> MSPPrincipal list \<Rightarrow> (string \<times> nat) list \<Rightarrow> (nat \<times> nat) list \<Rightarrow>
   MSPPrincipal list \<times> (nat \<times> nat) list"
where
  "mergeIdentities [] i ids idMap idRemap = (ids, idRemap)"
| "mergeIdentities (p # ps) i ids idMap idRemap =
     (case map_of idMap (principalKey p) of
        Some j \<Rightarrow> mergeIdentities ps (Suc i) ids idMap (AList.update i j idRemap)
      | None \<Rightarrow> mergeIdentities ps (Suc i) (ids @ [p]) (AList.update (principalKey p) (length ids) idMap)
                   (AList.update i (length ids) idRemap))"

definition identityMap :: "MSPPrincipal list \<Rightarrow> (string \<times> nat) list" where
  "identityMap ids = fold (\<lambda>(i, p). AList.update (principalKey p) i) (enumerate 0 ids) []"

definition merge :: "SignaturePolicyEnvelope \<Rightarrow> SignaturePolicyEnvelope \<Rightarrow> pol_err + SignaturePolicyEnvelope" where
  "merge this that =
     (case mergeIdentities (SpIdentities that) 0 (SpIdentities this) (identityMap (SpIdentities this)) [] of
        (ids, idRemap) \<Rightarrow>
          res_bind (remap (SpRule that) idRemap) (\<lambda>newEntry.
            case SpRule this of
              NOutOf n existingRules \<Rightarrow>
                Inr (this\<lparr>SpIdentities := ids, SpRule := NOutOf n (existingRules @ [newEntry])\<rparr>)
            | _ \<Rightarrow> Inl (PolPanic ''interface conversion'')))"

fun Convert :: "Policy \<Rightarrow> pol_err + SignaturePolicyEnvelope"
  and convertAll :: "Policy list \<Rightarrow> SignaturePolicyEnvelope \<Rightarrow> pol_err + SignaturePolicyEnvelope" where
  "Convert (SigPolicy ev env) = Inr env"
| "Convert (PolicyLogger p name) = Convert p"
| "Convert (ImplicitMetaPolicy threshold subs name) =
     convertAll subs \<lparr>SpVersion = 0, SpRule = NOutOf (to_int32 threshold) [], SpIdentities = []\<rparr>"
| "Convert (rejectPolicy name) = Inl (PolError ''policy is not convertible to SignaturePolicyEnvelope'')"
| "convertAll [] converted = Inr converted"
| "convertAll (p # ps) converted =
     res_bind (Convert p) (\<lambda>spe. res_bind (merge converted spe) (\<lambda>converted'. convertAll ps converted'))"

section \<open>Managers\<close>

datatype ManagerImpl =
  ManagerImpl (pmPath: string)
    (pmPolicies: "(string \<times> Policy) list")
    (pmManagers: "(string \<times> ManagerImpl) list")

fun Manager :: "string list \<Rightarrow> ManagerImpl \<Rightarrow> ManagerImpl option" where
  "Manager [] pm = Some pm"
| "Manager (p # path) pm =
     (case map_of (pmManagers pm) p of None \<Rightarrow> None | Some m \<Rightarrow> Manager path m)"

definition lookupPolicy :: "string \<Rightarrow> ManagerImpl \<Rightarrow> Policy \<times> bool" where
  "lookupPolicy relpath pm =
     (case map_of (pmPolicies pm) relpath of
        None \<Rightarrow> (rejectPolicy relpath, False)
      | Some policy \<Rightarrow> (PolicyLogger policy (''/'' @ pmPath pm @ ''/'' @ relpath), True))"

definition GetPolicy :: "string \<Rightarrow> ManagerImpl \<Rightarrow> pol_err + Policy \<times> bool" where
  "GetPolicy pid pm =
     (if pid = '''' then Inr (rejectPolicy pid, False)
      else if prefix ''/'' pid
      then (if \<not> prefix (''/'' @ pmPath pm) pid then Inr (rejectPolicy pid, False)
            else if length pid < 1 + length (pmPath pm) + 1 then Inl (PolPanic ''slice bounds out of range'')
            else Inr (lookupPolicy (drop (1 + length (pmPath pm) + 1) pid) pm))
      else Inr (lookupPolicy pid pm))"

section \<open>Building the managers\<close>

datatype Rule = Rule_ANY | Rule_ALL | Rule_MAJORITY | Rule_unknown int

record ImplicitMetaDef =
  ImSubPolicy :: string
  ImRule :: Rule

definition IMPLICIT_META :: int where
  "IMPLICIT_META = 3"

definition metaThreshold :: "Rule \<Rightarrow> nat \<Rightarrow> int" where
  "metaThreshold rule n =
     (let threshold = (case rule of
                         Rule_ANY \<Rightarrow> 1
                       | Rule_ALL \<Rightarrow> int n
                       | Rule_MAJORITY \<Rightarrow> int (n div 2) + 1
                       | Rule_unknown _ \<Rightarrow> 0)
      in if n = 0 then 0 else threshold)"

definition NewImplicitMetaPolicy ::
  "(bytes \<Rightarrow> ImplicitMetaDef option) \<Rightarrow> bytes \<Rightarrow> (string \<times> ManagerImpl) list \<Rightarrow> pol_err + Policy"
where
  "NewImplicitMetaPolicy unmarshal data managers =
     (case unmarshal data of
        None \<Rightarrow> Inl (PolError ''Error unmarshaling to ImplicitMetaPolicy'')
      | Some d \<Rightarrow>
          res_bind (res_map (\<lambda>(name, manager). GetPolicy (ImSubPolicy d) manager) managers) (\<lambda>subs.
            Inr (ImplicitMetaPolicy (metaThreshold (ImRule d) (length subs)) (map fst subs) (ImSubPolicy d))))"

type_synonym providers = "(int \<times> (bytes \<Rightarrow> pol_err + Policy)) list"

definition newPolicyOf ::
  "(bytes \<Rightarrow> ImplicitMetaDef option) \<Rightarrow> providers \<Rightarrow> (string \<times> ManagerImpl) list \<Rightarrow> ConfigPolicy \<Rightarrow> pol_err + Policy"
where
  "newPolicyOf unmarshal providers managers configPolicy =
     (case cpPolicy configPolicy of
        None \<Rightarrow> Inl (PolError ''policy was nil'')
      | Some policy \<Rightarrow>
          if PolicyType policy = IMPLICIT_META then NewImplicitMetaPolicy unmarshal (PolicyValue policy) managers
          else (case map_of providers (PolicyType policy) of
                  None \<Rightarrow> Inl (PolError ''unknown policy type'')
                | Some provider \<Rightarrow> provider (PolicyValue policy)))"

text \<open>
  The last loop of \<open>NewManagerImpl\<close> enters the policies of the subgroups under \<open>group/name\<close>.
\<close>

definition subPolicyEntries :: "(string \<times> ManagerImpl) list \<Rightarrow> (string \<times> Policy) list" where
  "subPolicyEntries managers =
     concat (map (\<lambda>(groupName, manager).
       map (\<lambda>(policyName, policy). (groupName @ ''/'' @ policyName, policy)) (pmPolicies manager)) managers)"

fun NewManagerImpl ::
  "(bytes \<Rightarrow> ImplicitMetaDef option) \<Rightarrow> string \<Rightarrow> providers \<Rightarrow> ConfigGroup \<Rightarrow> pol_err + ManagerImpl"
where
  "NewManagerImpl unmarshal path providers (ConfigGroup version groups values configPolicies modPolicy) =
     (if map_of providers IMPLICIT_META \<noteq> None
      then Inl (PolPanic ''ImplicitMetaPolicy type must be provider by the policy manager'')
      else res_bind (res_map (\<lambda>(groupName, group).
               res_bind (NewManagerImpl unmarshal (path @ ''/'' @ groupName) providers group) (\<lambda>m.
                 Inr (groupName, m))) groups) (\<lambda>managers.
           res_bind (res_map (\<lambda>(policyName, configPolicy).
               res_bind (newPolicyOf unmarshal providers managers configPolicy) (\<lambda>p.
                 Inr (policyName, p))) configPolicies) (\<lambda>policies.
             Inr (ManagerImpl path
                    (fold (\<lambda>(k, v). AList.update k v) (subPolicyEntries managers) policies) managers))))"

declare NewManagerImpl.simps [simp del]

section \<open>Parsing implicit meta policies\<close>

definition ImplicitMetaFromString :: "string \<Rightarrow> pol_err + ImplicitMetaDef" where
  "ImplicitMetaFromString input =
     (let args = strSplit CHR '' '' input
      in if length args \<noteq> 2 then Inl (PolError ''expected two space separated tokens'')
         else if args ! 0 = ''ANY'' then Inr \<lparr>ImSubPolicy = args ! 1, ImRule = Rule_ANY\<rparr>
         else if args ! 0 = ''ALL'' then Inr \<lparr>ImSubPolicy = args ! 1, ImRule = Rule_ALL\<rparr>
         else if args ! 0 = ''MAJORITY'' then Inr \<lparr>ImSubPolicy = args ! 1, ImRule = Rule_MAJORITY\<rparr>
         else Inl (PolError ''unknown rule type''))"

section \<open>Signature policies: the evaluator and what it consumes\<close>

text \<open>
  \<open>consumes msp ids sds r U\<close>: the identities at the positions in \<open>U\<close> satisfy the rule \<open>r\<close>, each of them for one
  signature requirement only.  \<open>consumes_some\<close> is the same for \<open>c\<close> of a list of rules.
\<close>

inductive consumes :: "msp_lib \<Rightarrow> MSPPrincipal list \<Rightarrow> Identity list \<Rightarrow> SignaturePolicy \<Rightarrow> nat set \<Rightarrow> bool"
  and consumes_some :: "msp_lib \<Rightarrow> MSPPrincipal list \<Rightarrow> Identity list \<Rightarrow> SignaturePolicy list \<Rightarrow> int \<Rightarrow> nat set \<Rightarrow> bool"
  for msp ids sds where
  c_signed: "0 \<le> i \<Longrightarrow> nat i < length ids \<Longrightarrow> k < length sds \<Longrightarrow>
    SatisfiesPrincipal msp (sds ! k) (ids ! nat i) \<Longrightarrow> consumes msp ids sds (SignedBy i) {k}"
| c_gate: "consumes_some msp ids sds rules c U \<Longrightarrow> n \<le> c \<Longrightarrow> consumes msp ids sds (NOutOf n rules) U"
| c_nil: "consumes_some msp ids sds [] 0 {}"
| c_skip: "consumes_some msp ids sds rules c U \<Longrightarrow> consumes_some msp ids sds (r # rules) c U"
| c_take: "consumes msp ids sds r V \<Longrightarrow> consumes_some msp ids sds rules c U \<Longrightarrow> V \<inter> U = {} \<Longrightarrow>
    consumes_some msp ids sds (r # rules) (c + 1) (V \<union> U)"

definition mark :: "nat set \<Rightarrow> bool list \<Rightarrow> bool list" where
  "mark U used = map (\<lambda>k. used ! k \<or> k \<in> U) [0..<length used]"

definition fresh :: "nat set \<Rightarrow> bool list \<Rightarrow> bool" where
  "fresh U used \<longleftrightarrow> (\<forall>k \<in> U. k < length used \<and> \<not> used ! k)"

lemma mark_simps [simp]:
  "length (mark U used) = length used" "k < length used \<Longrightarrow> mark U used ! k \<longleftrightarrow> used ! k \<or> k \<in> U"
  by (simp_all add: mark_def)

lemma mark_empty [simp]: "mark {} used = used"
  by (simp add: mark_def map_nth)

lemma mark_mark: "mark U (mark V used) = mark (V \<union> U) used"
  by (auto simp: mark_def intro: nth_equalityI)

lemma mark_single: "k < length used \<Longrightarrow> used[k := True] = mark {k} used"
  by (rule nth_equalityI) (auto simp: nth_list_update)

lemma fresh_mark: "fresh U (mark V used) \<longleftrightarrow> fresh U used \<and> U \<inter> V = {}"
  by (auto simp: fresh_def)

lemma fresh_Un: "fresh (U \<union> V) used \<longleftrightarrow> fresh U used \<and> fresh V used"
  by (auto simp: fresh_def)

lemma findSigner_Some:
  assumes "findSigner sat sds used i = Some k"
  shows "i \<le> k \<and> k - i < length sds \<and> k - i < length used \<and> \<not> used ! (k - i) \<and> sat (sds ! (k - i))"
  using assms
proof (induction sat sds used i rule: findSigner.induct)
  case (1 sat sd sds u us i)
  show ?case
  proof (cases "\<not> u \<and> sat sd")
    case True
    with "1.prems" show ?thesis by simp
  next
    case False
    with 1 have ih: "Suc i \<le> k \<and> k - Suc i < length sds \<and> k - Suc i < length us \<and>
        \<not> us ! (k - Suc i) \<and> sat (sds ! (k - Suc i))" by (auto split: if_splits)
    then have "k - i = Suc (k - Suc i)" by linarith
    with ih show ?thesis by simp
  qed
qed auto

text \<open>What is shown of an evaluator: when it holds, it has marked what the rule consumes.\<close>

definition ev_sound :: "(nat set \<Rightarrow> bool) \<Rightarrow> Identity list \<Rightarrow> evaluator \<Rightarrow> bool" where
  "ev_sound ok sds ev \<longleftrightarrow>
     (\<forall>used used'. length used = length sds \<longrightarrow> ev sds used = (True, used') \<longrightarrow>
        (\<exists>U. ok U \<and> fresh U used \<and> used' = mark U used))"

lemma gate_sound:
  assumes "list_all2 (\<lambda>r ev. ev_sound (consumes msp ids sds r) sds ev) rules evs"
    and "length used = length sds" and "gate evs sds v used = (v', used')"
  shows "\<exists>U. consumes_some msp ids sds rules (v' - v) U \<and> fresh U used \<and> used' = mark U used"
  using assms
proof (induction rules evs arbitrary: v used rule: list_all2_induct)
  case Nil
  then show ?case using c_nil by (intro exI [of _ "{}"]) (auto simp: fresh_def)
next
  case (Cons r rules ev evs)
  obtain ok u1 where ev: "ev sds used = (ok, u1)" by (cases "ev sds used")
  show ?case
  proof (cases ok)
    case False
    with Cons ev obtain U where "consumes_some msp ids sds rules (v' - v) U" "fresh U used" "used' = mark U used"
      by auto
    then show ?thesis using c_skip by blast
  next
    case True
    with ev Cons.hyps(1) Cons.prems(1) obtain V where
      V: "consumes msp ids sds r V" "fresh V used" "u1 = mark V used" by (auto simp: ev_sound_def)
    from Cons.IH [of u1 "v + 1"] Cons.prems ev True V(3) obtain U where
      U: "consumes_some msp ids sds rules (v' - (v + 1)) U" "fresh U u1" "used' = mark U u1" by auto
    have "V \<inter> U = {}" "fresh (V \<union> U) used" using U(2) V by (auto simp: fresh_mark fresh_Un)
    moreover have "consumes_some msp ids sds (r # rules) (v' - v) (V \<union> U)"
      using c_take [OF V(1) U(1) \<open>V \<inter> U = {}\<close>] by simp
    ultimately show ?thesis using U(3) V(3) mark_mark by blast
  qed
qed

lemma compile_sound:
  assumes "compile msp r ids = Inr ev" and "length ids < 2 ^ 31"
  shows "ev_sound (consumes msp ids sds r) sds ev"
  using assms
proof (induction r arbitrary: ev)
  case (NOutOf n rules)
  from NOutOf.prems obtain evs where evs: "list_all2 (\<lambda>r ev. compile msp r ids = Inr ev) rules evs"
    and ev: "ev = (\<lambda>sd used. case gate evs sd 0 used of (v, u) \<Rightarrow> (n \<le> v, u))"
    by (auto simp: res_map_Inr)
  have snd: "list_all2 (\<lambda>r ev. ev_sound (consumes msp ids sds r) sds ev) rules evs"
    using evs NOutOf.IH assms(2) by (auto simp: list_all2_conv_all_nth)
  show ?case
    unfolding ev_sound_def
  proof (intro allI impI)
    fix used used' assume len: "length used = length sds" and run: "ev sds used = (True, used')"
    obtain v where g: "gate evs sds 0 used = (v, used')" and n: "n \<le> v"
      using run by (auto simp: ev split: prod.splits)
    from gate_sound [OF snd len g] n c_gate
    show "\<exists>U. consumes msp ids sds (NOutOf n rules) U \<and> fresh U used \<and> used' = mark U used"
      by (metis diff_zero)
  qed
next
  case (SignedBy i)
  have i: "0 \<le> i" "nat i < length ids"
    using SignedBy.prems assms(2) by (auto simp: to_int32_id split: if_splits)
  have ev: "ev = (\<lambda>sd used. case findSigner (\<lambda>sd. SatisfiesPrincipal msp sd (ids ! nat i)) sd used 0 of
      None \<Rightarrow> (False, used) | Some k \<Rightarrow> (True, used[k := True]))"
    using SignedBy.prems by (auto simp: Let_def split: if_splits)
  show ?case
    unfolding ev_sound_def
  proof (intro allI impI)
    fix used used' assume run: "ev sds used = (True, used')"
    then obtain k where k: "findSigner (\<lambda>sd. SatisfiesPrincipal msp sd (ids ! nat i)) sds used 0 = Some k"
      and u: "used' = used[k := True]" by (auto simp: ev split: option.splits)
    from findSigner_Some [OF k] have "k < length sds" "k < length used" "\<not> used ! k"
      "SatisfiesPrincipal msp (sds ! k) (ids ! nat i)" by auto
    then show "\<exists>U. consumes msp ids sds (SignedBy i) U \<and> fresh U used \<and> used' = mark U used"
      using c_signed [OF i] u by (intro exI [of _ "{k}"]) (auto simp: fresh_def mark_single)
  qed
qed auto

section \<open>Deduplicated identities\<close>

abbreviation idKey :: "Identity \<Rightarrow> string" where
  "idKey i \<equiv> Mspid i @ IdString i"

definition validSigners :: "msp_lib \<Rightarrow> SignedData list \<Rightarrow> Identity set" where
  "validSigners msp sds =
     {i. \<exists>sd \<in> set sds. DeserializeIdentity msp (sdIdentity sd) = Some i \<and>
           VerifySignature msp i (sdData sd) (sdSignature sd)}"

lemma validSigners_Cons:
  "validSigners msp (sd # sds) =
     (case DeserializeIdentity msp (sdIdentity sd) of
        None \<Rightarrow> {}
      | Some i \<Rightarrow> if VerifySignature msp i (sdData sd) (sdSignature sd) then {i} else {}) \<union> validSigners msp sds"
  by (auto simp: validSigners_def split: option.splits)

lemma validIdentities_spec:
  "distinct (map idKey (validIdentities msp sds seen)) \<and>
   set (validIdentities msp sds seen) \<subseteq> validSigners msp sds \<and>
   idKey ` set (validIdentities msp sds seen) = idKey ` validSigners msp sds - set seen"
proof (induction msp sds seen rule: validIdentities.induct)
  case (1 msp seen)
  then show ?case by (simp add: validSigners_def)
next
  case (2 msp sd sds seen)
  show ?case
  proof (cases "DeserializeIdentity msp (sdIdentity sd)")
    case None
    with 2 show ?thesis by (auto simp: validSigners_Cons)
  next
    case (Some i)
    consider (dup) "idKey i \<in> set seen" | (bad) "idKey i \<notin> set seen" "\<not> VerifySignature msp i (sdData sd) (sdSignature sd)"
      | (new) "idKey i \<notin> set seen" "VerifySignature msp i (sdData sd) (sdSignature sd)" by blast
    then show ?thesis
    proof cases
      case dup
      with 2(2) [OF Some refl] Some show ?thesis by (auto simp: validSigners_Cons Let_def)
    next
      case bad
      with 2(3) [OF Some refl] Some show ?thesis by (auto simp: validSigners_Cons Let_def)
    next
      case new
      then have ih: "distinct (map idKey (validIdentities msp sds (idKey i # seen)))"
        "set (validIdentities msp sds (idKey i # seen)) \<subseteq> validSigners msp sds"
        "idKey ` set (validIdentities msp sds (idKey i # seen)) =
           idKey ` validSigners msp sds - set (idKey i # seen)"
        using 2(4) [OF Some refl] by simp_all
      have eq: "validIdentities msp (sd # sds) seen = i # validIdentities msp sds (idKey i # seen)"
        using Some new by (simp add: Let_def)
      have vs: "validSigners msp (sd # sds) = insert i (validSigners msp sds)"
        using Some new by (simp add: validSigners_Cons)
      have "idKey i \<notin> idKey ` set (validIdentities msp sds (idKey i # seen))" unfolding ih(3) by simp
      moreover have "idKey ` set (i # validIdentities msp sds (idKey i # seen)) =
          idKey ` insert i (validSigners msp sds) - set seen"
        using ih(3) new(1) by auto
      ultimately show ?thesis unfolding eq vs using ih(1,2) by auto
    qed
  qed
qed

section \<open>Implicit meta policies\<close>

lemma countDown_iff:
  "0 < n \<Longrightarrow> countDown bs n \<longleftrightarrow> n \<le> int (length (filter (\<lambda>b. b) bs))"
proof (induction bs arbitrary: n)
  case (Cons b bs)
  show ?case
  proof (cases "b \<and> n \<noteq> 1")
    case True
    with Cons.prems Cons.IH [of "n - 1"] show ?thesis by auto
  next
    case False
    with Cons.prems Cons.IH [of n] show ?thesis by auto
  qed
qed simp

lemma countDown_negative: "n < 0 \<Longrightarrow> \<not> countDown bs n"
  by (induction bs arbitrary: n) auto

lemma countDown_zero: "countDown bs 0 \<longleftrightarrow> True \<notin> set bs"
  by (induction bs) (auto simp: countDown_negative)

text \<open>How many of the subgroups' policies with a name hold.\<close>

definition subSatisfied :: "msp_lib \<Rightarrow> string \<Rightarrow> (string \<times> ManagerImpl) list \<Rightarrow> SignedData list \<Rightarrow> nat" where
  "subSatisfied msp name managers sigs =
     length (filter (\<lambda>(g, m). case GetPolicy name m of Inl e \<Rightarrow> False | Inr (q, found) \<Rightarrow> EvaluateSignedData msp q sigs) managers)"

lemma subSatisfied_map:
  assumes "list_all2 (\<lambda>(g, m) s. GetPolicy name m = Inr s) managers subs"
  shows "length (filter (\<lambda>b. b) (map (\<lambda>s. EvaluateSignedData msp (fst s) sigs) subs)) = subSatisfied msp name managers sigs"
  using assms by (induction rule: list_all2_induct) (auto simp: subSatisfied_def)

section \<open>Paths of policies\<close>

text \<open>Names in the tree: distinct in each map, not empty and without the path separator.\<close>

definition nameOk :: "string \<Rightarrow> bool" where
  "nameOk s \<longleftrightarrow> s \<noteq> [] \<and> CHR ''/'' \<notin> set s"

fun group_names_ok :: "ConfigGroup \<Rightarrow> bool" where
  "group_names_ok (ConfigGroup version groups values policies modPolicy) \<longleftrightarrow>
     distinct (map fst groups) \<and> distinct (map fst policies) \<and>
     list_all nameOk (map fst groups) \<and> list_all nameOk (map fst policies) \<and>
     list_all (\<lambda>(k, h). group_names_ok h) groups"

lemma group_names_okD:
  assumes "group_names_ok g"
  shows "distinct (map fst (cgGroups g))" "distinct (map fst (cgPolicies g))"
    "list_all nameOk (map fst (cgGroups g))" "list_all nameOk (map fst (cgPolicies g))"
    "list_all (\<lambda>(k, h). group_names_ok h) (cgGroups g)"
  using assms by (cases g; simp)+

lemma map_of_fold_update:
  "map_of (fold (\<lambda>(k, v). AList.update k v) es ps) = map_of ps ++ map_of (rev es)"
proof (induction es arbitrary: ps)
  case (Cons e es)
  obtain k v where e: "e = (k, v)" by (cases e)
  have "map_of (fold (\<lambda>(k, v). AList.update k v) (e # es) ps) = (map_of ps)(k \<mapsto> v) ++ map_of (rev es)"
    using Cons [of "AList.update k v ps", unfolded update_conv'] unfolding e by (simp only: fold_simps prod.case comp_def)
  also have "\<dots> = map_of ps ++ map_of (rev (e # es))"
    by (auto simp: e map_add_def fun_eq_iff split: option.splits)
  finally show ?case .
qed simp

lemma distinct_fold_update:
  "distinct (map fst ps) \<Longrightarrow> distinct (map fst (fold (\<lambda>(k, v). AList.update k v) es ps))"
  by (induction es arbitrary: ps) (auto simp: distinct_update)

lemma subPolicyEntries_keys:
  "k \<in> fst ` set (subPolicyEntries ms) \<longleftrightarrow> (\<exists>g m n. (g, m) \<in> set ms \<and> n \<in> fst ` set (pmPolicies m) \<and> k = g @ ''/'' @ n)"
  by (force simp: subPolicyEntries_def)

lemma sep_key_inj:
  assumes "g @ ''/'' @ n = g' @ ''/'' @ n'" and "nameOk g" and "nameOk g'"
  shows "g = g' \<and> n = n'"
  using append_sep_inj [of g "CHR ''/''" n g' n'] assms by (simp add: nameOk_def)

lemma map_of_prefixed: "map_of (map (\<lambda>(n, p). (g @ ''/'' @ n, p)) ps) (g @ ''/'' @ x) = map_of ps x"
  by (induction ps) auto

lemma subPolicyEntries_distinct:
  assumes "distinct (map fst ms)" and "list_all nameOk (map fst ms)"
    and "\<And>g m. (g, m) \<in> set ms \<Longrightarrow> distinct (map fst (pmPolicies m))"
  shows "distinct (map fst (subPolicyEntries ms))"
  using assms
proof (induction ms)
  case Nil
  then show ?case by (simp add: subPolicyEntries_def)
next
  case (Cons a ms)
  obtain g m where a: "a = (g, m)" by (cases a)
  have split: "subPolicyEntries (a # ms) = map (\<lambda>(n, p). (g @ ''/'' @ n, p)) (pmPolicies m) @ subPolicyEntries ms"
    by (simp add: subPolicyEntries_def a)
  have keys: "map fst (map (\<lambda>(n, p). (g @ ''/'' @ n, p)) (pmPolicies m)) = map (\<lambda>n. g @ ''/'' @ n) (map fst (pmPolicies m))"
    by (simp add: comp_def case_prod_beta)
  have "distinct (map fst (pmPolicies m))" using Cons.prems(3) [of g m] a by simp
  then have d1: "distinct (map fst (map (\<lambda>(n, p). (g @ ''/'' @ n, p)) (pmPolicies m)))"
    unfolding keys by (subst distinct_map) (simp add: inj_on_def)
  have d2: "distinct (map fst (subPolicyEntries ms))"
  proof (rule Cons.IH)
    show "distinct (map fst ms)" "list_all nameOk (map fst ms)" using Cons.prems(1,2) by simp_all
    show "distinct (map fst (pmPolicies m))" if "(g, m) \<in> set ms" for g m
      using Cons.prems(3) [of g m] that by simp
  qed
  have notin: "g @ ''/'' @ n \<notin> fst ` set (subPolicyEntries ms)" for n
  proof
    assume "g @ ''/'' @ n \<in> fst ` set (subPolicyEntries ms)"
    then obtain g' m' n' where g': "(g', m') \<in> set ms" "g @ ''/'' @ n = g' @ ''/'' @ n'"
      unfolding subPolicyEntries_keys by blast
    have "nameOk g" "nameOk g'" using Cons.prems(2) a g'(1) by (auto simp: list_all_iff)
    with sep_key_inj [OF g'(2)] have "g = g'" by blast
    with g'(1) Cons.prems(1) a show False by (auto simp: image_iff)
  qed
  have "set (map fst (map (\<lambda>(n, p). (g @ ''/'' @ n, p)) (pmPolicies m))) \<inter> set (map fst (subPolicyEntries ms)) = {}"
    unfolding keys set_map using notin by blast
  then show ?case unfolding split map_append distinct_append using d1 d2 by blast
qed

lemma map_of_subPolicyEntries:
  assumes "distinct (map fst ms)" and "list_all nameOk (map fst ms)" and "(g, m) \<in> set ms"
  shows "map_of (subPolicyEntries ms) (g @ ''/'' @ x) = map_of (pmPolicies m) x"
  using assms
proof (induction ms)
  case (Cons a ms)
  obtain h q where a: "a = (h, q)" by (cases a)
  have split: "subPolicyEntries (a # ms) = map (\<lambda>(n, p). (h @ ''/'' @ n, p)) (pmPolicies q) @ subPolicyEntries ms"
    by (simp add: subPolicyEntries_def a)
  have ok: "nameOk g" "nameOk h" using Cons.prems(2,3) a by (auto simp: list_all_iff)
  show ?case
  proof (cases "h = g")
    case True
    with Cons.prems(1,3) a have "q = m" by (force simp: image_iff)
    have "g @ ''/'' @ x \<notin> fst ` set (subPolicyEntries ms)"
    proof
      assume "g @ ''/'' @ x \<in> fst ` set (subPolicyEntries ms)"
      then obtain g' m' n' where g': "(g', m') \<in> set ms" "g @ ''/'' @ x = g' @ ''/'' @ n'"
        unfolding subPolicyEntries_keys by blast
      have "nameOk g'" using Cons.prems(2) g'(1) by (auto simp: list_all_iff)
      with sep_key_inj [OF g'(2) ok(1)] have "g = g'" by blast
      with g'(1) Cons.prems(1) a True show False by (auto simp: image_iff)
    qed
    then have "map_of (subPolicyEntries ms) (g @ ''/'' @ x) = None" by (simp add: map_of_eq_None_iff)
    then show ?thesis unfolding split map_of_append map_add_def True [symmetric] \<open>q = m\<close> [symmetric]
      using map_of_prefixed [of h "pmPolicies q" x] True by (simp split: option.splits)
  next
    case False
    have "g @ ''/'' @ x \<notin> fst ` set (map (\<lambda>(n, p). (h @ ''/'' @ n, p)) (pmPolicies q))"
      using sep_key_inj [OF _ ok] False by (auto simp: image_iff) (metis append_Cons append_Nil ok sep_key_inj)
    then have "map_of (map (\<lambda>(n, p). (h @ ''/'' @ n, p)) (pmPolicies q)) (g @ ''/'' @ x) = None"
      by (simp add: map_of_eq_None_iff)
    with Cons.IH Cons.prems a False show ?thesis
      unfolding split by (auto simp: map_add_def split: option.splits)
  qed
qed simp

text \<open>What \<open>NewManagerImpl\<close> builds at one level.\<close>

lemma NewManagerImpl_Inr:
  assumes "NewManagerImpl unm path prov root = Inr m"
  obtains ms ps where "m = ManagerImpl path (fold (\<lambda>(k, v). AList.update k v) (subPolicyEntries ms) ps) ms"
    "list_all2 (\<lambda>(g, grp) (g', m'). g = g' \<and> NewManagerImpl unm (path @ ''/'' @ g) prov grp = Inr m') (cgGroups root) ms"
    "map fst ps = map fst (cgPolicies root)" "map fst ms = map fst (cgGroups root)"
proof -
  from assms obtain ms ps where
    ms: "list_all2 (\<lambda>x y. (case x of (g, grp) \<Rightarrow> res_bind (NewManagerImpl unm (path @ ''/'' @ g) prov grp) (\<lambda>m. Inr (g, m))) = Inr y)
      (cgGroups root) ms"
    and ps: "list_all2 (\<lambda>x y. (case x of (n, cp) \<Rightarrow> res_bind (newPolicyOf unm prov ms cp) (\<lambda>p. Inr (n, p))) = Inr y)
      (cgPolicies root) ps"
    and m: "m = ManagerImpl path (fold (\<lambda>(k, v). AList.update k v) (subPolicyEntries ms) ps) ms"
    by (cases root) (auto simp: NewManagerImpl.simps res_map_Inr split: if_splits)
  have "map fst ps = map fst (cgPolicies root)"
    using ps by (induction rule: list_all2_induct) auto
  moreover have "map fst ms = map fst (cgGroups root)"
    using ms by (induction rule: list_all2_induct) auto
  moreover have "list_all2 (\<lambda>(g, grp) (g', m'). g = g' \<and> NewManagerImpl unm (path @ ''/'' @ g) prov grp = Inr m')
      (cgGroups root) ms"
    using ms by (rule list_all2_mono) auto
  ultimately show ?thesis using that m by blast
qed

lemma manager_distinct:
  assumes "NewManagerImpl unm path prov root = Inr m" and "group_names_ok root"
  shows "distinct (map fst (pmPolicies m))"
proof -
  obtain ms ps where "m = ManagerImpl path (fold (\<lambda>(k, v). AList.update k v) (subPolicyEntries ms) ps) ms"
    "map fst ps = map fst (cgPolicies root)"
    by (rule NewManagerImpl_Inr [OF assms(1)])
  with assms(2) show ?thesis by (simp add: distinct_fold_update group_names_okD(2))
qed

lemma manager_child:
  assumes new: "NewManagerImpl unm path prov root = Inr m" and ok: "group_names_ok root"
    and g: "map_of (pmManagers m) g = Some m1"
  shows "\<exists>grp. NewManagerImpl unm (path @ ''/'' @ g) prov grp = Inr m1 \<and> group_names_ok grp \<and> nameOk g"
    and "map_of (pmPolicies m) (g @ ''/'' @ x) = map_of (pmPolicies m1) x"
proof -
  obtain ms ps where m: "m = ManagerImpl path (fold (\<lambda>(k, v). AList.update k v) (subPolicyEntries ms) ps) ms"
    and all: "list_all2 (\<lambda>(g, grp) (g', m'). g = g' \<and> NewManagerImpl unm (path @ ''/'' @ g) prov grp = Inr m')
      (cgGroups root) ms"
    and ps: "map fst ps = map fst (cgPolicies root)" and ms: "map fst ms = map fst (cgGroups root)"
    by (rule NewManagerImpl_Inr [OF new])
  note ok' = group_names_okD [OF ok]
  have d: "distinct (map fst ms)" and n: "list_all nameOk (map fst ms)" using ok' ms by simp_all
  have in_ms: "(g, m1) \<in> set ms" using g by (simp add: m map_of_SomeD)
  have child: "\<exists>grp. (g', grp) \<in> set (cgGroups root) \<and> NewManagerImpl unm (path @ ''/'' @ g') prov grp = Inr m'"
    if "(g', m') \<in> set ms" for g' m'
    using all that by (fastforce simp: list_all2_conv_all_nth in_set_conv_nth)
  from child [OF in_ms] obtain grp where grp: "(g, grp) \<in> set (cgGroups root)"
    "NewManagerImpl unm (path @ ''/'' @ g) prov grp = Inr m1" by blast
  have "nameOk g" using n in_ms by (force simp: list_all_iff)
  with grp ok' show "\<exists>grp. NewManagerImpl unm (path @ ''/'' @ g) prov grp = Inr m1 \<and> group_names_ok grp \<and> nameOk g"
    by (auto simp: list_all_iff)
  have dist: "distinct (map fst (subPolicyEntries ms))"
  proof (rule subPolicyEntries_distinct [OF d n])
    fix g' m' assume "(g', m') \<in> set ms"
    from child [OF this] obtain grp' where "(g', grp') \<in> set (cgGroups root)"
      "NewManagerImpl unm (path @ ''/'' @ g') prov grp' = Inr m'" by blast
    with ok' show "distinct (map fst (pmPolicies m'))" by (auto simp: list_all_iff intro: manager_distinct)
  qed
  have "g @ ''/'' @ x \<notin> fst ` set ps"
  proof
    assume "g @ ''/'' @ x \<in> fst ` set ps"
    then have "g @ ''/'' @ x \<in> set (map fst (cgPolicies root))" by (simp flip: ps)
    then have "nameOk (g @ ''/'' @ x)" using ok' unfolding list_all_iff by blast
    then show False by (simp add: nameOk_def)
  qed
  then have none: "map_of ps (g @ ''/'' @ x) = None" by (simp add: map_of_eq_None_iff)
  have rev: "map_of (rev (subPolicyEntries ms)) = map_of (subPolicyEntries ms)"
    using dist by (metis map_of_inject_set distinct_rev rev_map set_rev)
  have "map_of (pmPolicies m) (g @ ''/'' @ x) = map_of (subPolicyEntries ms) (g @ ''/'' @ x)"
    unfolding m ManagerImpl.sel map_of_fold_update rev by (simp only: map_add_def none option.case_eq_if) simp
  also have "\<dots> = map_of (pmPolicies m1) x" by (rule map_of_subPolicyEntries [OF d n in_ms])
  finally show "map_of (pmPolicies m) (g @ ''/'' @ x) = map_of (pmPolicies m1) x" .
qed

lemma manager_path: "NewManagerImpl unm path prov root = Inr m \<Longrightarrow> pmPath m = path"
  by (erule NewManagerImpl_Inr) simp

lemma manager_descend:
  assumes "NewManagerImpl unm path prov root = Inr m" and "group_names_ok root" and "Manager gs m = Some m'"
  shows "map_of (pmPolicies m) (strJoin CHR ''/'' (gs @ [x])) = map_of (pmPolicies m') x \<and>
         pmPath m' = strJoin CHR ''/'' (path # gs)"
  using assms
proof (induction gs arbitrary: path root m)
  case Nil
  then show ?case by (simp add: manager_path)
next
  case (Cons g gs)
  obtain m1 where m1: "map_of (pmManagers m) g = Some m1" "Manager gs m1 = Some m'"
    using Cons.prems(3) by (auto split: option.splits)
  obtain grp where grp: "NewManagerImpl unm (path @ ''/'' @ g) prov grp = Inr m1" "group_names_ok grp"
    using manager_child(1) [OF Cons.prems(1,2) m1(1)] by blast
  note ih = Cons.IH [OF grp m1(2)]
  have j: "strJoin CHR ''/'' ((g # gs) @ [x]) = g @ ''/'' @ strJoin CHR ''/'' (gs @ [x])"
    by (cases gs) simp_all
  have "strJoin CHR ''/'' ((path @ ''/'' @ g) # gs) = strJoin CHR ''/'' (path # g # gs)"
    by (cases gs) simp_all
  with ih show ?case unfolding j manager_child(2) [OF Cons.prems(1,2) m1(1)] by simp
qed

section \<open>Merging signature policies\<close>

text \<open>Principals of the known classifications have distinct keys.\<close>

definition known :: "MSPPrincipal \<Rightarrow> bool" where
  "known p \<longleftrightarrow> PrincipalClassification p \<in> {0, 1, 2, 3, 4}"

lemma bytes_char_inj:
  assumes "map (\<lambda>b. char_of (unat b)) xs = map (\<lambda>b. char_of (unat b)) (ys :: bytes)"
  shows "xs = ys"
proof -
  have "inj (\<lambda>b :: byte. char_of (unat b) :: char)"
  proof (rule injI)
    fix a b :: byte assume "(char_of (unat a) :: char) = char_of (unat b)"
    then have "(of_char (char_of (unat a) :: char) :: nat) = of_char (char_of (unat b) :: char)" by simp
    moreover have "unat a < 256" "unat b < 256" by (rule unat_byte_less)+
    ultimately show "a = b" by (simp add: word_unat_eq_iff)
  qed
  then show ?thesis using assms by (simp add: inj_map_eq_map)
qed

lemma principalKey_inj:
  assumes "known p" and "known q" and "principalKey p = principalKey q"
  shows "p = q"
proof -
  have "PrincipalClassification p = PrincipalClassification q \<and>
      map (\<lambda>b. char_of (unat b) :: char) (Principal p) = map (\<lambda>b. char_of (unat b)) (Principal q)"
    using assms by (auto simp: known_def principalKey_def)
  then show ?thesis using bytes_char_inj by (metis MSPPrincipal.equality old.unit.exhaust)
qed

definition positions_ok :: "(string \<times> nat) list \<Rightarrow> MSPPrincipal list \<Rightarrow> bool" where
  "positions_ok idMap ids \<longleftrightarrow>
     (\<forall>k j. map_of idMap k = Some j \<longrightarrow> j < length ids \<and> principalKey (ids ! j) = k)"

definition remap_ok :: "nat \<Rightarrow> (nat \<times> nat) list \<Rightarrow> MSPPrincipal list \<Rightarrow> MSPPrincipal list \<Rightarrow> bool" where
  "remap_ok i idRemap ids from \<longleftrightarrow>
     dom (map_of idRemap) = {..<i} \<and>
     (\<forall>a b. map_of idRemap a = Some b \<longrightarrow> b < length ids \<and> principalKey (ids ! b) = principalKey (from ! a))"

lemma positions_ok_snoc:
  "positions_ok idMap ids \<Longrightarrow> positions_ok (AList.update (principalKey p) (length ids) idMap) (ids @ [p])"
  by (auto simp: positions_ok_def update_conv' nth_append less_Suc_eq split: if_splits)

lemma remap_ok_update:
  assumes "remap_ok i r ids from" and "b < length ids" and "principalKey (ids ! b) = principalKey (from ! i)"
  shows "remap_ok (Suc i) (AList.update i b r) ids from"
proof -
  have "dom (map_of (AList.update i b r)) = {..<Suc i}"
    using assms(1) by (auto simp: remap_ok_def update_conv' lessThan_Suc)
  with assms show ?thesis by (auto simp: remap_ok_def update_conv' split: if_splits)
qed

lemma remap_ok_append: "remap_ok i r ids from \<Longrightarrow> remap_ok i r (ids @ xs) from"
  by (simp add: remap_ok_def nth_append trans_less_add1)

lemma mergeIdentities_spec:
  assumes "mergeIdentities ps i ids idMap r = (ids', r')" and "ps = drop i from" and "i \<le> length from"
    and "positions_ok idMap ids" and "remap_ok i r ids from"
  shows "prefix ids ids' \<and> length ids' \<le> length ids + length ps \<and> set ids' \<subseteq> set ids \<union> set ps \<and>
         remap_ok (length from) r' ids' from"
  using assms
proof (induction ps i ids idMap r arbitrary: ids' r' rule: mergeIdentities.induct)
  case (1 i ids idMap r)
  then have "i = length from" by simp
  with 1 show ?case by simp
next
  case (2 p ps i ids idMap r)
  have i: "i < length from" and p: "from ! i = p" and ps: "ps = drop (Suc i) from"
    using "2.prems"(2) by (metis drop_all linorder_not_le list.distinct(1)) (use "2.prems"(2) in \<open>metis Cons_nth_drop_Suc list.inject drop_all linorder_not_le list.distinct(1)\<close>)+
  show ?case
  proof (cases "map_of idMap (principalKey p)")
    case (Some j)
    then have "remap_ok (Suc i) (AList.update i j r) ids from"
      using "2.prems"(4,5) p by (intro remap_ok_update) (auto simp: positions_ok_def)
    with "2.IH"(2) [OF Some _ ps _ "2.prems"(4)] "2.prems"(1) Some i show ?thesis by fastforce
  next
    case None
    have "remap_ok (Suc i) (AList.update i (length ids) r) (ids @ [p]) from"
      using "2.prems"(5) p by (intro remap_ok_update remap_ok_append) auto
    with "2.IH"(1) [OF None _ ps _ positions_ok_snoc [OF "2.prems"(4)]] "2.prems"(1) None i
    have "prefix (ids @ [p]) ids' \<and> length ids' \<le> length (ids @ [p]) + length ps \<and>
        set ids' \<subseteq> set (ids @ [p]) \<union> set ps \<and> remap_ok (length from) r' ids' from" by fastforce
    then show ?thesis by (auto dest: append_prefixD)
  qed
qed

lemma identityMap_positions: "positions_ok (identityMap ids) ids"
proof -
  have "positions_ok (fold (\<lambda>(i, p). AList.update (principalKey p) i) (enumerate (length ids - length xs) xs) m) ids"
    if "positions_ok m ids" and "length xs \<le> length ids" and "xs = drop (length ids - length xs) ids" for m xs
    using that
  proof (induction xs arbitrary: m)
    case (Cons x xs)
    let ?n = "length ids - length (x # xs)"
    have n: "length ids - length xs = Suc ?n" "?n < length ids" using Cons.prems(2) by auto
    have x: "ids ! ?n = x" "xs = drop (Suc ?n) ids"
      using Cons.prems(3) n(2) by (metis Cons_nth_drop_Suc list.inject)+
    have "positions_ok (AList.update (principalKey x) ?n m) ids"
      using Cons.prems(1) x(1) n(2) by (auto simp: positions_ok_def update_conv' split: if_splits)
    from Cons.IH [OF this] Cons.prems(2) x(2) n(1) show ?case by simp
  qed simp
  from this [of "[]" ids] show ?thesis by (simp add: identityMap_def positions_ok_def)
qed

lemma compile_prefix:
  assumes "compile msp r ids = Inr ev" and "prefix ids ids'" and "length ids' < 2 ^ 31"
  shows "compile msp r ids' = Inr ev"
  using assms
proof (induction r arbitrary: ev)
  case (NOutOf n rules)
  from NOutOf.prems(1) obtain evs where evs: "list_all2 (\<lambda>r ev. compile msp r ids = Inr ev) rules evs"
    and ev: "ev = (\<lambda>sd used. case gate evs sd 0 used of (v, u) \<Rightarrow> (n \<le> v, u))"
    by (auto simp: res_map_Inr)
  have "list_all2 (\<lambda>r ev. compile msp r ids' = Inr ev) rules evs"
    using evs NOutOf.IH assms(2,3) by (auto simp: list_all2_conv_all_nth)
  then show ?case by (simp add: ev flip: res_map_Inr)
next
  case (SignedBy i)
  have len: "length ids \<le> length ids'" using assms(2) by (rule prefix_length_le)
  have i: "0 \<le> i" "nat i < length ids"
    using SignedBy.prems len by (auto simp: to_int32_id split: if_splits)
  then have "ids' ! nat i = ids ! nat i" using assms(2) by (auto simp: prefix_def nth_append)
  with SignedBy.prems i len show ?case by (auto simp: to_int32_id Let_def split: if_splits)
qed auto

lemma compile_remap:
  assumes "remap r f = Inr r'" and "compile msp r ids = Inr ev"
    and f: "\<And>a b. map_of f a = Some b \<Longrightarrow> a < length ids \<and> b < length ids' \<and> ids' ! b = ids ! a"
    and "length ids < 2 ^ 31" and "length ids' < 2 ^ 31"
  shows "compile msp r' ids' = Inr ev"
  using assms(1,2)
proof (induction r arbitrary: ev r')
  case (NOutOf n rules)
  from NOutOf.prems(2) obtain evs where evs: "list_all2 (\<lambda>r ev. compile msp r ids = Inr ev) rules evs"
    and ev: "ev = (\<lambda>sd used. case gate evs sd 0 used of (v, u) \<Rightarrow> (n \<le> v, u))"
    by (auto simp: res_map_Inr)
  from NOutOf.prems(1) obtain rules' where rules': "list_all2 (\<lambda>r r'. remap r f = Inr r') rules rules'"
    and r': "r' = NOutOf n rules'" by (auto simp: res_map_Inr)
  have "list_all2 (\<lambda>r ev. compile msp r ids' = Inr ev) rules' evs"
    using evs rules' by (auto simp: list_all2_conv_all_nth intro: NOutOf.IH [OF nth_mem])
  then show ?case by (simp add: ev r' flip: res_map_Inr)
next
  case (SignedBy i)
  then obtain b where b: "map_of f (nat i) = Some b" "0 \<le> i" "r' = SignedBy (to_int32 (int b))"
    by (auto split: if_splits option.splits)
  note fb = f [OF b(1)]
  have "to_int32 (int b) = int b" using fb assms(5) by (simp add: to_int32_id)
  with SignedBy.prems b fb assms(4,5) show ?case by (auto simp: to_int32_id Let_def split: if_splits)
qed auto

section \<open>Properties\<close>

text \<open>
  C32. A signature policy that accepts a signature set does so on distinct signers: there is a set of positions in the
  list of deduplicated, verified identities that satisfies the policy's rule when each identity counts for one
  signature requirement only.
\<close>

theorem signature_policy_counts_once:
  assumes new: "NewPolicy msp unmarshal data = Inr p" and env: "unmarshal data = Some env"
    and len: "length (SpIdentities env) < 2 ^ 31" and ok: "EvaluateSignedData msp p sigs"
  shows "\<exists>U. U \<subseteq> {..<length (SignatureSetToValidIdentities msp sigs)} \<and>
           consumes msp (SpIdentities env) (SignatureSetToValidIdentities msp sigs) (SpRule env) U"
proof -
  obtain ev where ev: "compile msp (SpRule env) (SpIdentities env) = Inr ev" and p: "p = SigPolicy ev env"
    using new env by (auto simp: NewPolicy_def split: if_splits)
  let ?sds = "SignatureSetToValidIdentities msp sigs" and ?used = "replicate (length (SignatureSetToValidIdentities msp sigs)) False"
  obtain used' where "ev ?sds ?used = (True, used')" using ok p by (cases "ev ?sds ?used") auto
  with compile_sound [OF ev len, of ?sds] obtain U where
    "consumes msp (SpIdentities env) ?sds (SpRule env) U" "fresh U ?used"
    unfolding ev_sound_def by (metis length_replicate)
  then show ?thesis by (auto simp: fresh_def)
qed

definition sample_msp :: msp_lib where
  "sample_msp =
     \<lparr>DeserializeIdentity = (\<lambda>b. if b = [1] \<or> b = [2] then Some \<lparr>Mspid = ''Org'', IdString = (if b = [1] then ''1'' else ''2''), IdBytes = b\<rparr> else None),
      VerifySignature = (\<lambda>i d s. s = [9]),
      SatisfiesPrincipal = (\<lambda>i p. Principal p = IdBytes i)\<rparr>"

definition sample_policy :: SignaturePolicyEnvelope where
  "sample_policy =
     \<lparr>SpVersion = 0, SpRule = NOutOf 2 [SignedBy 0, SignedBy 1],
      SpIdentities = [\<lparr>PrincipalClassification = 2, Principal = [1]\<rparr>, \<lparr>PrincipalClassification = 2, Principal = [2]\<rparr>]\<rparr>"

definition sample_sigs :: "SignedData list" where
  "sample_sigs =
     [\<lparr>sdData = [7], sdIdentity = [1], sdSignature = [9]\<rparr>, \<lparr>sdData = [7], sdIdentity = [1], sdSignature = [9]\<rparr>,
      \<lparr>sdData = [7], sdIdentity = [2], sdSignature = [9]\<rparr>]"

lemma sample_NewPolicy:
  "\<exists>p. NewPolicy sample_msp (\<lambda>b. Some sample_policy) [] = Inr p \<and> EvaluateSignedData sample_msp p sample_sigs"
proof -
  have "case NewPolicy sample_msp (\<lambda>b. Some sample_policy) [] of Inl e \<Rightarrow> False | Inr p \<Rightarrow> EvaluateSignedData sample_msp p sample_sigs"
    by code_simp
  then show ?thesis by (auto split: sum.splits)
qed

theorem signature_policy_counts_once_witness:
  "\<exists>U. U \<subseteq> {..<2} \<and> consumes sample_msp (SpIdentities sample_policy)
     (SignatureSetToValidIdentities sample_msp sample_sigs) (SpRule sample_policy) U"
proof -
  have l: "length (SignatureSetToValidIdentities sample_msp sample_sigs) = 2" by code_simp
  have n: "length (SpIdentities sample_policy) < 2 ^ 31" by (simp add: sample_policy_def)
  obtain p where "NewPolicy sample_msp (\<lambda>b. Some sample_policy) [] = Inr p" "EvaluateSignedData sample_msp p sample_sigs"
    using sample_NewPolicy by blast
  from signature_policy_counts_once [OF this(1) refl n this(2)] show ?thesis unfolding l .
qed

text \<open>
  C33. The identities taken from a signature set have pairwise different keys, each comes with a valid signature, and every
  valid signer is represented by an identity with its key.
\<close>

theorem signature_set_deduplicated:
  "distinct (map idKey (SignatureSetToValidIdentities msp sigs)) \<and>
   set (SignatureSetToValidIdentities msp sigs) \<subseteq> validSigners msp sigs \<and>
   idKey ` set (SignatureSetToValidIdentities msp sigs) = idKey ` validSigners msp sigs"
  using validIdentities_spec [of msp sigs "[]"] by (simp add: SignatureSetToValidIdentities_def)

text \<open>
  C34. What an implicit meta policy demands of the policies of the subgroups with its name: ANY demands one, ALL all of
  them, MAJORITY more than half; without subgroups each of these holds.  A rule outside the enumeration
  gets the threshold 0 and holds exactly when no subgroup's policy holds.
\<close>

theorem implicit_meta_threshold:
  assumes "NewImplicitMetaPolicy unmarshal data managers = Inr p" and "unmarshal data = Some d"
  shows "EvaluateSignedData msp p sigs \<longleftrightarrow>
     (let n = length managers; c = subSatisfied msp (ImSubPolicy d) managers sigs
      in case ImRule d of
           Rule_ANY \<Rightarrow> n = 0 \<or> 1 \<le> c
         | Rule_ALL \<Rightarrow> c = n
         | Rule_MAJORITY \<Rightarrow> n = 0 \<or> n < 2 * c
         | Rule_unknown _ \<Rightarrow> c = 0)"
proof -
  obtain subs where subs: "list_all2 (\<lambda>(g, m) s. GetPolicy (ImSubPolicy d) m = Inr s) managers subs"
    and p: "p = ImplicitMetaPolicy (metaThreshold (ImRule d) (length subs)) (map fst subs) (ImSubPolicy d)"
    using assms by (auto simp: NewImplicitMetaPolicy_def res_map_Inr case_prod_beta')
  let ?bs = "map (\<lambda>s. EvaluateSignedData msp (fst s) sigs) subs"
  have len: "length subs = length managers" using subs by (simp add: list_all2_lengthD)
  have cnt: "length (filter (\<lambda>b. b) ?bs) = subSatisfied msp (ImSubPolicy d) managers sigs"
    by (rule subSatisfied_map [OF subs])
  have le: "subSatisfied msp (ImSubPolicy d) managers sigs \<le> length managers"
    unfolding subSatisfied_def by (rule length_filter_le)
  have zero: "countDown ?bs 0 \<longleftrightarrow> subSatisfied msp (ImSubPolicy d) managers sigs = 0"
    unfolding countDown_zero cnt [symmetric] by (auto simp: filter_empty_conv)
  have ev: "EvaluateSignedData msp p sigs \<longleftrightarrow> countDown ?bs (metaThreshold (ImRule d) (length managers))"
    by (simp add: p len comp_def)
  show ?thesis
  proof (cases "length managers = 0")
    case True
    then have "metaThreshold (ImRule d) (length managers) = 0" by (simp add: metaThreshold_def)
    with ev zero le True show ?thesis by (cases "ImRule d") (simp_all add: Let_def)
  next
    case False
    have pos: "countDown ?bs k \<longleftrightarrow> k \<le> int (subSatisfied msp (ImSubPolicy d) managers sigs)" if "0 < k" for k
      using countDown_iff [OF that, of ?bs] unfolding cnt .
    show ?thesis
    proof (cases "ImRule d")
      case Rule_ANY
      with ev pos [of 1] False show ?thesis by (simp add: metaThreshold_def Let_def)
    next
      case Rule_ALL
      with ev pos [of "int (length managers)"] False le show ?thesis by (auto simp: metaThreshold_def Let_def)
    next
      case Rule_MAJORITY
      have "int (length managers div 2) + 1 \<le> int (subSatisfied msp (ImSubPolicy d) managers sigs) \<longleftrightarrow>
          length managers < 2 * subSatisfied msp (ImSubPolicy d) managers sigs" by linarith
      with Rule_MAJORITY ev pos [of "int (length managers div 2) + 1"] False show ?thesis
        by (simp add: metaThreshold_def Let_def)
    next
      case (Rule_unknown x)
      with ev zero False show ?thesis by (simp add: metaThreshold_def Let_def)
    qed
  qed
qed

theorem implicit_meta_threshold_witness:
  "\<exists>p. NewImplicitMetaPolicy (\<lambda>b. Some \<lparr>ImSubPolicy = ''Admins'', ImRule = Rule_unknown 7\<rparr>) [] [(''Org1'', ManagerImpl ''Channel/Org1'' [] [])] = Inr p \<and>
     EvaluateSignedData sample_msp p []"
proof -
  let ?d = "\<lparr>ImSubPolicy = ''Admins'', ImRule = Rule_unknown 7\<rparr>"
  let ?ms = "[(''Org1'', ManagerImpl ''Channel/Org1'' [] [])]"
  have "case NewImplicitMetaPolicy (\<lambda>b. Some ?d) [] ?ms of Inl e \<Rightarrow> False | Inr p \<Rightarrow> True" by code_simp
  then obtain p where p: "NewImplicitMetaPolicy (\<lambda>b. Some ?d) [] ?ms = Inr p" by (auto split: sum.splits)
  have "subSatisfied sample_msp ''Admins'' ?ms [] = 0" by code_simp
  with implicit_meta_threshold [OF p refl, of sample_msp "[]"] p show ?thesis by (simp add: Let_def)
qed

text \<open>
  C35. Absolute policy paths resolve to the policies of the subgroups.  In the managers built from a configuration whose
  names are proper, the policy that the root manager finds under \<open>/path/g1/.../gn/name\<close> is exactly the one the manager
  of the group \<open>g1/.../gn\<close> finds under \<open>name\<close>.
\<close>

theorem manager_resolves_paths:
  assumes new: "NewManagerImpl unmarshal path providers root = Inr m" and ok: "group_names_ok root"
    and sub: "Manager gs m = Some m'" and name: "nameOk name"
  shows "GetPolicy (''/'' @ path @ ''/'' @ strJoin CHR ''/'' (gs @ [name])) m = Inr (p, True) \<longleftrightarrow>
         GetPolicy name m' = Inr (p, True)"
proof -
  note d = manager_descend [OF new ok sub, of name]
  let ?rel = "strJoin CHR ''/'' (gs @ [name])"
  have path: "pmPath m = path" by (rule manager_path [OF new])
  have "GetPolicy (''/'' @ path @ ''/'' @ ?rel) m = Inr (lookupPolicy ?rel m)"
    by (simp add: GetPolicy_def path prefix_def)
  moreover have "\<not> prefix ''/'' name" using name by (auto simp: nameOk_def prefix_def)
  then have "GetPolicy name m' = Inr (lookupPolicy name m')" using name by (simp add: GetPolicy_def nameOk_def)
  moreover have "strJoin CHR ''/'' (path # gs) @ ''/'' @ name = path @ ''/'' @ ?rel"
  proof (induction gs arbitrary: path)
    case (Cons g gs)
    from Cons [of g] show ?case by (cases gs) simp_all
  qed simp
  ultimately show ?thesis using d path by (auto simp: lookupPolicy_def split: option.splits)
qed

definition sample_root :: ConfigGroup where
  "sample_root = ConfigGroup 0
     [(''Orderer'', ConfigGroup 0 [] [] [(''Admins'', \<lparr>cpVersion = 0, cpPolicy = Some \<lparr>PolicyType = 1, PolicyValue = []\<rparr>, cpModPolicy = ''Admins''\<rparr>)] ''Admins'')]
     [] [(''Admins'', \<lparr>cpVersion = 0, cpPolicy = Some \<lparr>PolicyType = 3, PolicyValue = []\<rparr>, cpModPolicy = ''Admins''\<rparr>)] ''Admins''"

definition sample_providers :: providers where
  "sample_providers = [(1, NewPolicy sample_msp (\<lambda>b. Some sample_policy))]"

definition sample_manager :: ManagerImpl where
  "sample_manager = (case NewManagerImpl (\<lambda>b. Some \<lparr>ImSubPolicy = ''Admins'', ImRule = Rule_MAJORITY\<rparr>) ''Channel'' sample_providers sample_root of
     Inr m \<Rightarrow> m | Inl e \<Rightarrow> ManagerImpl '''' [] [])"

lemma sample_manager_new:
  "NewManagerImpl (\<lambda>b. Some \<lparr>ImSubPolicy = ''Admins'', ImRule = Rule_MAJORITY\<rparr>) ''Channel'' sample_providers sample_root = Inr sample_manager"
proof -
  have "case NewManagerImpl (\<lambda>b. Some \<lparr>ImSubPolicy = ''Admins'', ImRule = Rule_MAJORITY\<rparr>) ''Channel'' sample_providers sample_root of
      Inr m \<Rightarrow> True | Inl e \<Rightarrow> False" by code_simp
  then show ?thesis by (auto simp: sample_manager_def split: sum.splits)
qed

theorem manager_resolves_paths_witness:
  "\<exists>m' p. Manager [''Orderer''] sample_manager = Some m' \<and>
     GetPolicy ''/Channel/Orderer/Admins'' sample_manager = Inr (p, True) \<and> GetPolicy ''Admins'' m' = Inr (p, True)"
proof -
  have ok: "group_names_ok sample_root" by code_simp
  have "case Manager [''Orderer''] sample_manager of None \<Rightarrow> False | Some m' \<Rightarrow>
      (case GetPolicy ''Admins'' m' of Inl e \<Rightarrow> False | Inr (p, b) \<Rightarrow> b)" by code_simp
  then obtain m' p where m': "Manager [''Orderer''] sample_manager = Some m'" and p: "GetPolicy ''Admins'' m' = Inr (p, True)"
    by (auto split: option.splits sum.splits)
  have "nameOk ''Admins''" by code_simp
  from manager_resolves_paths [OF sample_manager_new ok m' this, of p] m' p show ?thesis by simp
qed

text \<open>
  C36. Merging a signature policy into a gate keeps the meaning of both: the merged policy compiles to the gate over the
  evaluators of the old rules followed by the evaluator of the policy merged in, although the references to
  principals have been renumbered and equal principals share a position.
\<close>

theorem merge_keeps_evaluators:
  assumes merge: "merge this that = Inr m" and rule: "SpRule this = NOutOf n rules"
    and evs: "res_map (\<lambda>r. compile msp r (SpIdentities this)) rules = Inr evs"
    and ev: "compile msp (SpRule that) (SpIdentities that) = Inr ev"
    and kn: "list_all known (SpIdentities this @ SpIdentities that)"
    and len: "length (SpIdentities this) + length (SpIdentities that) < 2 ^ 31"
  shows "compile msp (SpRule m) (SpIdentities m) =
         Inr (\<lambda>sd used. case gate (evs @ [ev]) sd 0 used of (v, u) \<Rightarrow> (n \<le> v, u))"
proof -
  let ?I = "SpIdentities this" and ?J = "SpIdentities that"
  obtain ids f new where mi: "mergeIdentities ?J 0 ?I (identityMap ?I) [] = (ids, f)"
    and new: "remap (SpRule that) f = Inr new" and m: "SpIdentities m = ids" "SpRule m = NOutOf n (rules @ [new])"
    using merge rule by (auto simp: merge_def split: prod.splits)
  have sp: "prefix ?I ids" "length ids \<le> length ?I + length ?J" "set ids \<subseteq> set ?I \<union> set ?J"
    "remap_ok (length ?J) f ids ?J"
    using mergeIdentities_spec [OF mi _ _ identityMap_positions, of ?J] by (auto simp: remap_ok_def)
  have ids: "length ids < 2 ^ 31" using sp(2) len by linarith
  have kn': "known p" if "p \<in> set ids \<union> set ?J" for p using that sp(3) kn by (auto simp: list_all_iff)
  have f: "a < length ?J \<and> b < length ids \<and> ids ! b = ?J ! a" if "map_of f a = Some b" for a b
  proof -
    have "a < length ?J" "b < length ids" "principalKey (ids ! b) = principalKey (?J ! a)"
      using sp(4) that unfolding remap_ok_def by blast+
    then show ?thesis using principalKey_inj kn' by simp
  qed
  have "length ?J < 2 ^ 31" using len by linarith
  from compile_remap [OF new ev _ this ids] f have "compile msp new ids = Inr ev" by blast
  moreover have "list_all2 (\<lambda>r ev. compile msp r ids = Inr ev) rules evs"
    using evs unfolding res_map_Inr by (rule list_all2_mono) (rule compile_prefix [OF _ sp(1) ids])
  ultimately have "res_map (\<lambda>r. compile msp r ids) (rules @ [new]) = Inr (evs @ [ev])"
    unfolding res_map_Inr by (simp add: list_all2_appendI)
  then show ?thesis by (simp add: m)
qed

theorem merge_keeps_evaluators_witness:
  "\<exists>m evs ev. merge sample_policy (sample_policy\<lparr>SpRule := SignedBy 1\<rparr>) = Inr m \<and>
     SpIdentities m = SpIdentities sample_policy \<and>
     compile sample_msp (SpRule m) (SpIdentities m) =
       Inr (\<lambda>sd used. case gate (evs @ [ev]) sd 0 used of (v, u) \<Rightarrow> (2 \<le> v, u))"
proof -
  let ?that = "sample_policy\<lparr>SpRule := SignedBy 1\<rparr>"
  have "case merge sample_policy ?that of Inl e \<Rightarrow> False | Inr m \<Rightarrow> SpIdentities m = SpIdentities sample_policy" by code_simp
  then obtain m where m: "merge sample_policy ?that = Inr m" "SpIdentities m = SpIdentities sample_policy"
    by (auto split: sum.splits)
  have "case res_map (\<lambda>r. compile sample_msp r (SpIdentities sample_policy)) [SignedBy 0, SignedBy 1] of Inl e \<Rightarrow> False | Inr x \<Rightarrow> True"
    by code_simp
  then obtain evs where
    evs: "res_map (\<lambda>r. compile sample_msp r (SpIdentities sample_policy)) [SignedBy 0, SignedBy 1] = Inr evs"
    by (cases "res_map (\<lambda>r. compile sample_msp r (SpIdentities sample_policy)) [SignedBy 0, SignedBy 1]") (simp_all only: sum.case)
  have "case compile sample_msp (SpRule ?that) (SpIdentities ?that) of Inl e \<Rightarrow> False | Inr x \<Rightarrow> True" by code_simp
  then obtain ev where ev: "compile sample_msp (SpRule ?that) (SpIdentities ?that) = Inr ev"
    by (cases "compile sample_msp (SpRule ?that) (SpIdentities ?that)") (simp_all only: sum.case)
  have r: "SpRule sample_policy = NOutOf 2 [SignedBy 0, SignedBy 1]" by (simp add: sample_policy_def)
  have k: "list_all known (SpIdentities sample_policy @ SpIdentities ?that)"
    "length (SpIdentities sample_policy) + length (SpIdentities ?that) < 2 ^ 31"
    by (simp_all add: sample_policy_def known_def)
  show ?thesis
    by (rule exI [of _ m], rule exI [of _ evs], rule exI [of _ ev], intro conjI m
        merge_keeps_evaluators [OF m(1) r evs ev k])
qed

lemma strSplit_one: "strSplit c s = [b] \<longleftrightarrow> s = b \<and> c \<notin> set b"
proof (induction s arbitrary: b)
  case (Cons x s)
  show ?case
  proof (cases "x = c")
    case True
    then show ?thesis using strSplit_nonempty [of c s] by auto
  next
    case False
    show ?thesis using Cons [of "tl b"] False strSplit_nonempty [of c s]
      by (cases b; cases "strSplit c s") auto
  qed
qed auto

lemma strSplit_two: "strSplit c s = [a, b] \<longleftrightarrow> s = a @ c # b \<and> c \<notin> set a \<and> c \<notin> set b"
proof (induction s arbitrary: a)
  case (Cons x s)
  show ?case
  proof (cases "x = c")
    case True
    then show ?thesis by (cases a) (auto simp: strSplit_one)
  next
    case False
    show ?thesis using Cons [of "tl a"] False strSplit_nonempty [of c s]
      by (cases a; cases "strSplit c s") auto
  qed
qed auto

fun Rule_String :: "Rule \<Rightarrow> string" where
  "Rule_String Rule_ANY = ''ANY''"
| "Rule_String Rule_ALL = ''ALL''"
| "Rule_String Rule_MAJORITY = ''MAJORITY''"
| "Rule_String (Rule_unknown n) = show_int n"

definition rule_known :: "Rule \<Rightarrow> bool" where
  "rule_known r \<longleftrightarrow> (case r of Rule_unknown _ \<Rightarrow> False | _ \<Rightarrow> True)"

lemma Rule_String_known: "rule_known r \<Longrightarrow> CHR '' '' \<notin> set (Rule_String r)"
  by (cases r) (simp_all add: rule_known_def)

lemma ImplicitMetaFromString_tokens:
  assumes "strSplit CHR '' '' s = [a, b]"
  shows "ImplicitMetaFromString s = Inr d \<longleftrightarrow> rule_known (ImRule d) \<and> a = Rule_String (ImRule d) \<and> b = ImSubPolicy d"
  unfolding ImplicitMetaFromString_def assms Let_def
  by (cases d; cases "ImRule d") (auto simp: rule_known_def)

text \<open>
  C37. The parser of implicit meta policies accepts exactly one of the three rule names, one space, and a policy name without
  spaces, and returns what it has read.
\<close>

theorem ImplicitMetaFromString_iff:
  "ImplicitMetaFromString s = Inr d \<longleftrightarrow>
   rule_known (ImRule d) \<and> CHR '' '' \<notin> set (ImSubPolicy d) \<and> s = Rule_String (ImRule d) @ '' '' @ ImSubPolicy d"
proof (cases "length (strSplit CHR '' '' s) = 2")
  case True
  then obtain a b where ab: "strSplit CHR '' '' s = [a, b]"
    by (auto simp: length_Suc_conv numeral_2_eq_2)
  then have s: "s = a @ CHR '' '' # b" "CHR '' '' \<notin> set a" "CHR '' '' \<notin> set b" by (simp_all add: strSplit_two)
  show ?thesis
    unfolding ImplicitMetaFromString_tokens [OF ab]
    using append_sep_inj [of a "CHR '' ''" b "Rule_String (ImRule d)" "ImSubPolicy d"] s Rule_String_known [of "ImRule d"]
    by auto
next
  case False
  then have "ImplicitMetaFromString s \<noteq> Inr d" by (simp add: ImplicitMetaFromString_def Let_def)
  moreover have "strSplit CHR '' '' s \<noteq> [Rule_String (ImRule d), ImSubPolicy d]" using False by auto
  then have "\<not> (rule_known (ImRule d) \<and> CHR '' '' \<notin> set (ImSubPolicy d) \<and> s = Rule_String (ImRule d) @ '' '' @ ImSubPolicy d)"
    unfolding strSplit_two using Rule_String_known [of "ImRule d"] by auto
  ultimately show ?thesis by blast
qed

end
