(* ===== verification/ConfigMap.thy ===== *)
theory ConfigMap
  imports ProtoUtil Policies
begin

text \<open>
  The flat view of a configuration (\<open>common/configtx/configmap.go\<close> and \<open>compare.go\<close>): \<open>mapConfig\<close> turns the
  tree of groups into a map from paths to elements, \<open>configMapToConfig\<close> builds a tree from such a map, starting at the
  root and following the keys each group lists.  The names of elements are checked by \<open>validateConfigID\<close>.

  A Go map is an association list; its iteration order, which Go leaves open, is the order of the list, so that only
  which of several errors is reported first depends on it.
\<close>

section \<open>Identifiers\<close>

definition MaxLength :: nat where
  "MaxLength = 249"

definition lowerAlpha :: "char \<Rightarrow> bool" where
  "lowerAlpha c \<longleftrightarrow> c \<in> set ''abcdefghijklmnopqrstuvwxyz''"

definition upperAlpha :: "char \<Rightarrow> bool" where
  "upperAlpha c \<longleftrightarrow> c \<in> set ''ABCDEFGHIJKLMNOPQRSTUVWXYZ''"

definition configAllowedChar :: "char \<Rightarrow> bool" where
  "configAllowedChar c \<longleftrightarrow> lowerAlpha c \<or> upperAlpha c \<or> digitchar c \<or> c = CHR ''.'' \<or> c = CHR ''-''"

definition channelAllowedChar :: "char \<Rightarrow> bool" where
  "channelAllowedChar c \<longleftrightarrow> lowerAlpha c \<or> digitchar c \<or> c = CHR ''.'' \<or> c = CHR ''-''"

datatype id_err = IdEmpty | IdTooLong | IdNotAllowed | IdIllegalChars

text \<open>\<open>FindString\<close> gives the leftmost match, and the longest one at that place for these two expressions.\<close>

definition findConfigID :: "string \<Rightarrow> string" where
  "findConfigID s = takeWhile configAllowedChar (dropWhile (\<lambda>c. \<not> configAllowedChar c) s)"

definition findChannelID :: "string \<Rightarrow> string" where
  "findChannelID s =
     (case dropWhile (\<lambda>c. \<not> lowerAlpha c) s of [] \<Rightarrow> [] | c # cs \<Rightarrow> c # takeWhile channelAllowedChar cs)"

definition validateConfigID :: "string \<Rightarrow> id_err option" where
  "validateConfigID configID =
     (if length configID \<le> 0 then Some IdEmpty
      else if MaxLength < length configID then Some IdTooLong
      else if configID \<in> {''.'', ''..''} then Some IdNotAllowed
      else if length (findConfigID configID) \<noteq> length configID then Some IdIllegalChars
      else None)"

definition ValidateChannelID :: "string \<Rightarrow> id_err option" where
  "ValidateChannelID channelID =
     (if length channelID \<le> 0 then Some IdEmpty
      else if MaxLength < length channelID then Some IdTooLong
      else if length (findChannelID channelID) \<noteq> length channelID then Some IdIllegalChars
      else None)"

section \<open>Elements\<close>

text \<open>
  A \<open>comparable\<close> embeds one pointer that is not nil: the elements of a decoded configuration are never nil.
\<close>

datatype cfg_item = CGroup ConfigGroup | CValue ConfigValue | CPolicy ConfigPolicy

record comparable =
  cmpItem :: cfg_item
  cmpKey :: string
  cmpPath :: "string list"

definition version :: "comparable \<Rightarrow> u64" where
  "version cg = (case cmpItem cg of CGroup g \<Rightarrow> cgVersion g | CValue v \<Rightarrow> cvVersion v | CPolicy p \<Rightarrow> cpVersion p)"

definition modPolicy :: "comparable \<Rightarrow> string" where
  "modPolicy cg = (case cmpItem cg of CGroup g \<Rightarrow> cgModPolicy g | CValue v \<Rightarrow> cvModPolicy v | CPolicy p \<Rightarrow> cpModPolicy p)"

definition equalConfigValues :: "ConfigValue \<Rightarrow> ConfigValue \<Rightarrow> bool" where
  "equalConfigValues lhs rhs \<longleftrightarrow>
     cvVersion lhs = cvVersion rhs \<and> cvModPolicy lhs = cvModPolicy rhs \<and> cvValue lhs = cvValue rhs"

definition equalConfigPolicies :: "ConfigPolicy \<Rightarrow> ConfigPolicy \<Rightarrow> bool" where
  "equalConfigPolicies lhs rhs =
     (if cpVersion lhs \<noteq> cpVersion rhs \<or> cpModPolicy lhs \<noteq> cpModPolicy rhs then False
      else case (cpPolicy lhs, cpPolicy rhs) of
             (Some l, Some r) \<Rightarrow> PolicyType l = PolicyType r \<and> PolicyValue l = PolicyValue r
           | (None, None) \<Rightarrow> True
           | _ \<Rightarrow> False)"

text \<open>The three functions \<open>subsetOfGroups\<close>, \<open>subsetOfPolicies\<close> and \<open>subsetOfValues\<close> have the same body.\<close>

definition subsetOfKeys :: "(string \<times> 'a) list \<Rightarrow> (string \<times> 'a) list \<Rightarrow> bool" where
  "subsetOfKeys inner outer =
     (if length inner = 0 then True
      else if length inner > length outer then False
      else list_all (\<lambda>(key, _). map_of outer key \<noteq> None) inner)"

definition subsetOfGroups :: "(string \<times> ConfigGroup) list \<Rightarrow> (string \<times> ConfigGroup) list \<Rightarrow> bool" where
  "subsetOfGroups inner outer = subsetOfKeys inner outer"

definition subsetOfPolicies :: "(string \<times> ConfigPolicy) list \<Rightarrow> (string \<times> ConfigPolicy) list \<Rightarrow> bool" where
  "subsetOfPolicies inner outer = subsetOfKeys inner outer"

definition subsetOfValues :: "(string \<times> ConfigValue) list \<Rightarrow> (string \<times> ConfigValue) list \<Rightarrow> bool" where
  "subsetOfValues inner outer = subsetOfKeys inner outer"

definition equalConfigGroup :: "ConfigGroup \<Rightarrow> ConfigGroup \<Rightarrow> bool" where
  "equalConfigGroup lhs rhs =
     (if cgVersion lhs \<noteq> cgVersion rhs \<or> cgModPolicy lhs \<noteq> cgModPolicy rhs then False
      else if \<not> subsetOfGroups (cgGroups lhs) (cgGroups rhs) \<or> \<not> subsetOfGroups (cgGroups rhs) (cgGroups lhs)
              \<or> \<not> subsetOfPolicies (cgPolicies lhs) (cgPolicies rhs) \<or> \<not> subsetOfPolicies (cgPolicies rhs) (cgPolicies lhs)
              \<or> \<not> subsetOfValues (cgValues lhs) (cgValues rhs) \<or> \<not> subsetOfValues (cgValues rhs) (cgValues lhs) then False
      else True)"

definition equals :: "comparable \<Rightarrow> comparable \<Rightarrow> bool" where
  "equals cg other =
     (case cmpItem cg of
        CGroup g \<Rightarrow> (case cmpItem other of CGroup h \<Rightarrow> equalConfigGroup g h | _ \<Rightarrow> False)
      | CValue v \<Rightarrow> (case cmpItem other of CValue w \<Rightarrow> equalConfigValues v w | _ \<Rightarrow> False)
      | CPolicy p \<Rightarrow> (case cmpItem other of CPolicy q \<Rightarrow> equalConfigPolicies p q | _ \<Rightarrow> False))"

section \<open>From the tree to the map\<close>

definition groupPrefix :: string where
  "groupPrefix = ''[Group]  ''"

definition valuePrefix :: string where
  "valuePrefix = ''[Value]  ''"

definition policyPrefix :: string where
  "policyPrefix = ''[Policy] ''"

definition pathSeparator :: string where
  "pathSeparator = ''/''"

type_synonym config_map = "(string \<times> comparable) list"

datatype map_err =
    IllegalKey string id_err
  | MissingGroup string
  | NotAGroup string
  | MissingValue string
  | NotAValue string
  | MissingPolicy string
  | NotAPolicy string

fun item_prefix :: "cfg_item \<Rightarrow> string" where
  "item_prefix (CGroup _) = groupPrefix"
| "item_prefix (CValue _) = valuePrefix"
| "item_prefix (CPolicy _) = policyPrefix"

definition fqPath :: "comparable \<Rightarrow> string" where
  "fqPath cg =
     (if length (cmpPath cg) = 0 then item_prefix (cmpItem cg) @ pathSeparator @ cmpKey cg
      else item_prefix (cmpItem cg) @ pathSeparator @ strJoin CHR ''/'' (cmpPath cg) @ pathSeparator @ cmpKey cg)"

definition addToMap :: "comparable \<Rightarrow> config_map \<Rightarrow> map_err + config_map" where
  "addToMap cg result =
     (case validateConfigID (cmpKey cg) of
        Some e \<Rightarrow> Inl (IllegalKey (item_prefix (cmpItem cg)) e)
      | None \<Rightarrow> Inr (AList.update (fqPath cg) cg result))"

fun addAll :: "comparable list \<Rightarrow> config_map \<Rightarrow> map_err + config_map" where
  "addAll [] result = Inr result"
| "addAll (cg # cgs) result = res_bind (addToMap cg result) (addAll cgs)"

fun recurseConfig :: "config_map \<Rightarrow> string list \<Rightarrow> ConfigGroup \<Rightarrow> map_err + config_map"
and recurseGroups :: "config_map \<Rightarrow> string list \<Rightarrow> (string \<times> ConfigGroup) list \<Rightarrow> map_err + config_map"
where
  "recurseConfig result path (ConfigGroup ver groups values policies mp) =
     res_bind (addToMap \<lparr>cmpItem = CGroup (ConfigGroup ver groups values policies mp), cmpKey = last path,
                         cmpPath = butlast path\<rparr> result) (\<lambda>result.
     res_bind (recurseGroups result path groups) (\<lambda>result.
     res_bind (addAll (map (\<lambda>(key, value). \<lparr>cmpItem = CValue value, cmpKey = key, cmpPath = path\<rparr>) values) result) (\<lambda>result.
     addAll (map (\<lambda>(key, policy). \<lparr>cmpItem = CPolicy policy, cmpKey = key, cmpPath = path\<rparr>) policies) result)))"
| "recurseGroups result path [] = Inr result"
| "recurseGroups result path ((key, g) # groups) =
     res_bind (recurseConfig result (path @ [key]) g) (\<lambda>result. recurseGroups result path groups)"

definition mapConfig :: "ConfigGroup option \<Rightarrow> string \<Rightarrow> map_err + config_map" where
  "mapConfig channelGroup rootGroupKey =
     (case channelGroup of
        None \<Rightarrow> Inr []
      | Some g \<Rightarrow> recurseConfig [] [rootGroupKey] g)"

section \<open>From the map to the tree\<close>

definition hackyFixOrdererCapabilities :: string where
  "hackyFixOrdererCapabilities = ''[Value]  /Channel/Orderer/Capabilities''"

definition hackyFixNewModPolicy :: string where
  "hackyFixNewModPolicy = ''Admins''"

definition fixModPolicy :: "string \<Rightarrow> string" where
  "fixModPolicy mp = (if mp = [] then hackyFixNewModPolicy else mp)"

definition hackyFix :: "ConfigGroup \<Rightarrow> ConfigGroup" where
  "hackyFix g =
     ConfigGroup (cgVersion g) (cgGroups g)
       (map (\<lambda>(key, value). (key, value\<lparr>cvModPolicy := fixModPolicy (cvModPolicy value)\<rparr>)) (cgValues g))
       (map (\<lambda>(key, policy). (key, policy\<lparr>cpModPolicy := fixModPolicy (cpModPolicy policy)\<rparr>)) (cgPolicies g))
       (fixModPolicy (cgModPolicy g))"

definition valueAt :: "config_map \<Rightarrow> string \<Rightarrow> string \<Rightarrow> map_err + string \<times> ConfigValue" where
  "valueAt configMap path key =
     (let valuePath = valuePrefix @ path @ pathSeparator @ key
      in case map_of configMap valuePath of
           None \<Rightarrow> Inl (MissingValue valuePath)
         | Some cg \<Rightarrow> (case cmpItem cg of CValue value \<Rightarrow> Inr (key, value) | _ \<Rightarrow> Inl (NotAValue valuePath)))"

definition policyAt :: "config_map \<Rightarrow> string \<Rightarrow> string \<Rightarrow> map_err + string \<times> ConfigPolicy" where
  "policyAt configMap path key =
     (let policyPath = policyPrefix @ path @ pathSeparator @ key
      in case map_of configMap policyPath of
           None \<Rightarrow> Inl (MissingPolicy policyPath)
         | Some cg \<Rightarrow> (case cmpItem cg of CPolicy policy \<Rightarrow> Inr (key, policy) | _ \<Rightarrow> Inl (NotAPolicy policyPath)))"

text \<open>
  The recursion ends because a path grows at every step and no key of the map is longer than the longest one: a
  group that is found has a path shorter than \<open>maxKey\<close>.
\<close>

definition maxKey :: "config_map \<Rightarrow> nat" where
  "maxKey configMap = fold (\<lambda>(key, _) n. max (length key) n) configMap 0"

lemma maxKey_fold_ge: "n \<le> fold (\<lambda>(key, _) n. max (length key) n) m n"
proof (induction m arbitrary: n)
  case Nil
  then show ?case by simp
next
  case (Cons a m)
  obtain k v where a: "a = (k, v)" by (cases a)
  have "n \<le> max (length k) n" by simp
  also have "\<dots> \<le> fold (\<lambda>(key, _) n. max (length key) n) m (max (length k) n)" by (rule Cons.IH)
  finally show ?case by (simp add: a)
qed

lemma maxKey_fold: "(k, v) \<in> set m \<Longrightarrow> length k \<le> fold (\<lambda>(key, _) n. max (length key) n) m n"
proof (induction m arbitrary: n)
  case Nil
  then show ?case by simp
next
  case (Cons a m)
  show ?case
  proof (cases "a = (k, v)")
    case True
    have "length k \<le> max (length k) n" by simp
    also have "\<dots> \<le> fold (\<lambda>(key, _) n. max (length key) n) m (max (length k) n)" by (rule maxKey_fold_ge)
    finally show ?thesis using True by simp
  next
    case False
    with Cons show ?thesis by simp
  qed
qed

lemma maxKey_ge: "map_of m k = Some v \<Longrightarrow> length k \<le> maxKey m"
  unfolding maxKey_def by (rule maxKey_fold [OF map_of_SomeD])

definition room :: "string \<Rightarrow> config_map \<Rightarrow> nat" where
  "room path configMap = Suc (maxKey configMap) - length path"

lemma room_found: "map_of m (groupPrefix @ path) = Some v \<Longrightarrow> 0 < room path m"
  by (drule maxKey_ge) (simp add: room_def)

lemma room_deeper: "room (path @ pathSeparator @ key) m \<le> room path m - 1"
  by (simp add: room_def pathSeparator_def)

function (sequential) recurseConfigMap :: "string \<Rightarrow> config_map \<Rightarrow> map_err + ConfigGroup"
and subGroups :: "string \<Rightarrow> config_map \<Rightarrow> string list \<Rightarrow> map_err + (string \<times> ConfigGroup) list"
where
  "recurseConfigMap path configMap =
     (case map_of configMap (groupPrefix @ path) of
        None \<Rightarrow> Inl (MissingGroup (groupPrefix @ path))
      | Some cg \<Rightarrow>
          (case cmpItem cg of
             CGroup g \<Rightarrow>
               res_bind (subGroups path configMap (map fst (cgGroups g))) (\<lambda>groups.
               res_bind (res_map (valueAt configMap path) (map fst (cgValues g))) (\<lambda>values.
               res_bind (res_map (policyAt configMap path) (map fst (cgPolicies g))) (\<lambda>policies.
               let newConfigGroup = ConfigGroup (cgVersion g) groups values policies (cgModPolicy g)
               in Inr (if map_of configMap hackyFixOrdererCapabilities \<noteq> None then hackyFix newConfigGroup
                       else newConfigGroup))))
           | _ \<Rightarrow> Inl (NotAGroup (groupPrefix @ path))))"
| "subGroups path configMap [] = Inr []"
| "subGroups path configMap (key # keys) =
     res_bind (recurseConfigMap (path @ pathSeparator @ key) configMap) (\<lambda>updatedGroup.
     res_bind (subGroups path configMap keys) (\<lambda>groups. Inr ((key, updatedGroup) # groups)))"
  by pat_completeness auto

termination
proof (relation "measures [case_sum (\<lambda>(path, m). 2 * room path m) (\<lambda>(path, m, _). 2 * room path m - 1),
    case_sum (\<lambda>_. 0) (\<lambda>(_, _, keys). Suc (length keys))]", goal_cases)
  case 1
  then show ?case by simp
next
  case (2 path m cg g)
  then show ?case by (auto dest: room_found)
next
  case (3 path m key keys)
  have "2 * room (path @ pathSeparator @ key) m < 2 * room path m - 1
      \<or> 2 * room (path @ pathSeparator @ key) m = 2 * room path m - 1 \<and> room path m = 0"
    using room_deeper [of path key m] by auto
  then show ?case by auto
next
  case (4 path m key keys x)
  then show ?case by simp
qed

definition configMapToConfig :: "config_map \<Rightarrow> string \<Rightarrow> map_err + ConfigGroup" where
  "configMapToConfig configMap rootGroupKey = recurseConfigMap (pathSeparator @ rootGroupKey) configMap"

declare recurseConfigMap.simps [simp del]

section \<open>Names\<close>

lemma length_takeWhile_dropWhile:
  assumes "length (takeWhile P (dropWhile Q s)) = length s"
  shows "list_all P s"
proof -
  have a: "length (takeWhile P (dropWhile Q s)) \<le> length (dropWhile Q s)" by (rule length_takeWhile_le)
  have b: "length (dropWhile Q s) \<le> length s" by (rule length_dropWhile_le)
  have "length (dropWhile Q s) = length s" using a b assms by linarith
  then have d: "dropWhile Q s = s"
    using takeWhile_dropWhile_id [of Q s] by (metis append_Nil length_0_conv length_append add_diff_cancel_right' diff_self_eq_0)
  have "takeWhile P s = s"
    using assms unfolding d by (metis append_eq_conv_conj takeWhile_dropWhile_id take_all order_refl)
  then show ?thesis by (metis list_all_iff set_takeWhileD)
qed

lemma takeWhile_dropWhile_all: "list_all P s \<Longrightarrow> takeWhile P (dropWhile (\<lambda>c. \<not> P c) s) = s"
  by (induction s) (auto simp: list_all_iff)

lemma findConfigID_full: "length (findConfigID s) = length s \<longleftrightarrow> list_all configAllowedChar s"
proof
  assume "length (findConfigID s) = length s"
  then show "list_all configAllowedChar s" unfolding findConfigID_def by (rule length_takeWhile_dropWhile)
next
  assume "list_all configAllowedChar s"
  then have "findConfigID s = s" unfolding findConfigID_def by (rule takeWhile_dropWhile_all)
  then show "length (findConfigID s) = length s" by simp
qed

lemma slash_not_allowed: "\<not> configAllowedChar CHR ''/''"
  by (simp add: configAllowedChar_def lowerAlpha_def upperAlpha_def digitchar_def)

lemma validateConfigID_iff:
  "validateConfigID s = None \<longleftrightarrow>
     s \<noteq> [] \<and> length s \<le> 249 \<and> s \<noteq> ''.'' \<and> s \<noteq> ''..'' \<and> list_all configAllowedChar s"
  by (auto simp: validateConfigID_def MaxLength_def findConfigID_full)

lemma validateConfigID_nameOk: "validateConfigID s = None \<Longrightarrow> nameOk s"
  using slash_not_allowed by (auto simp: validateConfigID_iff nameOk_def list_all_iff)

lemma strSplit_strJoin:
  assumes "ws \<noteq> []" and "\<forall>w \<in> set ws. c \<notin> set w"
  shows "strSplit c (strJoin c ws) = ws"
  using assms
proof (induction c ws rule: strJoin.induct)
  case (1 c)
  then show ?case by simp
next
  case (2 c s)
  then show ?case by (simp add: strSplit_no_sep)
next
  case (3 c s t ts)
  then show ?case by (simp add: strSplit_append)
qed

lemma strJoin_inj:
  assumes "strJoin c ws = strJoin c ws'" and "ws \<noteq> []" "ws' \<noteq> []"
    and "\<forall>w \<in> set ws. c \<notin> set w" "\<forall>w \<in> set ws'. c \<notin> set w"
  shows "ws = ws'"
  using strSplit_strJoin [OF assms(2,4)] strSplit_strJoin [OF assms(3,5)] assms(1) by metis

lemma strJoin_snoc: "ws \<noteq> [] \<Longrightarrow> strJoin c (ws @ [w]) = strJoin c ws @ c # w"
  by (induction c ws rule: strJoin.induct) simp_all

section \<open>The elements of a tree\<close>

definition position :: "comparable \<Rightarrow> string list" where
  "position cg = cmpPath cg @ [cmpKey cg]"

definition pathString :: "string list \<Rightarrow> string" where
  "pathString path = pathSeparator @ strJoin CHR ''/'' path"

lemma pathString_snoc: "path \<noteq> [] \<Longrightarrow> pathString (path @ [k]) = pathString path @ pathSeparator @ k"
  by (simp add: pathString_def strJoin_snoc pathSeparator_def)

lemma fqPath_position: "fqPath cg = item_prefix (cmpItem cg) @ pathString (position cg)"
  by (cases "cmpPath cg = []") (simp_all add: fqPath_def position_def pathString_def pathSeparator_def strJoin_snoc)

lemma item_prefix_length: "length (item_prefix i) = 9"
  by (cases i) (simp_all add: groupPrefix_def valuePrefix_def policyPrefix_def)

lemma item_prefix_append_inj:
  "item_prefix i @ s = item_prefix j @ t \<longleftrightarrow> item_prefix i = item_prefix j \<and> s = t"
  using item_prefix_length [of i] item_prefix_length [of j] append_eq_append_conv by metis

lemma fqPath_inj:
  assumes "fqPath a = fqPath b" and "\<forall>w \<in> set (position a) \<union> set (position b). nameOk w"
  shows "item_prefix (cmpItem a) = item_prefix (cmpItem b) \<and> position a = position b"
proof -
  from assms(1) have "item_prefix (cmpItem a) = item_prefix (cmpItem b)" and "pathString (position a) = pathString (position b)"
    by (simp_all add: fqPath_position item_prefix_append_inj)
  moreover from this(2) have "position a = position b"
    using strJoin_inj [of "CHR ''/''" "position a" "position b"] assms(2)
    by (simp add: pathString_def position_def nameOk_def)
  ultimately show ?thesis by simp
qed

text \<open>
  \<open>elements\<close> lists the elements of a tree in the order in which \<open>recurseConfig\<close> visits them; the given path ends
  with the name of the group itself.
\<close>

definition valueElements :: "string list \<Rightarrow> (string \<times> ConfigValue) list \<Rightarrow> comparable list" where
  "valueElements path values = map (\<lambda>(key, value). \<lparr>cmpItem = CValue value, cmpKey = key, cmpPath = path\<rparr>) values"

definition policyElements :: "string list \<Rightarrow> (string \<times> ConfigPolicy) list \<Rightarrow> comparable list" where
  "policyElements path policies = map (\<lambda>(key, policy). \<lparr>cmpItem = CPolicy policy, cmpKey = key, cmpPath = path\<rparr>) policies"

fun elements :: "string list \<Rightarrow> ConfigGroup \<Rightarrow> comparable list"
and groupElements :: "string list \<Rightarrow> (string \<times> ConfigGroup) list \<Rightarrow> comparable list"
where
  "elements path (ConfigGroup ver groups values policies mp) =
     \<lparr>cmpItem = CGroup (ConfigGroup ver groups values policies mp), cmpKey = last path, cmpPath = butlast path\<rparr>
     # groupElements path groups @ valueElements path values @ policyElements path policies"
| "groupElements path [] = []"
| "groupElements path ((key, g) # groups) = elements (path @ [key]) g @ groupElements path groups"

lemma groupElements_set: "set (groupElements path groups) = (\<Union>(k, h) \<in> set groups. set (elements (path @ [k]) h))"
  by (induction groups) auto

definition addEntries :: "comparable list \<Rightarrow> config_map \<Rightarrow> config_map" where
  "addEntries cgs result = fold (\<lambda>(k, v). AList.update k v) (map (\<lambda>cg. (fqPath cg, cg)) cgs) result"

lemma addEntries_append: "addEntries (xs @ ys) r = addEntries ys (addEntries xs r)"
  by (simp add: addEntries_def)

lemma addEntries_simps: "addEntries [] r = r" "addEntries (x # xs) r = addEntries xs (AList.update (fqPath x) x r)"
  by (simp_all add: addEntries_def)

definition keys_valid :: "comparable list \<Rightarrow> bool" where
  "keys_valid cgs \<longleftrightarrow> (\<forall>cg \<in> set cgs. validateConfigID (cmpKey cg) = None)"

lemma keys_valid_simps: "keys_valid []" "keys_valid (x # xs) \<longleftrightarrow> validateConfigID (cmpKey x) = None \<and> keys_valid xs"
  "keys_valid (xs @ ys) \<longleftrightarrow> keys_valid xs \<and> keys_valid ys"
  by (auto simp: keys_valid_def)

lemma addToMap_iff: "addToMap cg r = Inr r' \<longleftrightarrow> validateConfigID (cmpKey cg) = None \<and> r' = AList.update (fqPath cg) cg r"
  by (auto simp: addToMap_def split: option.splits)

lemma addAll_iff: "addAll cgs r = Inr r' \<longleftrightarrow> keys_valid cgs \<and> r' = addEntries cgs r"
  by (induction cgs r rule: addAll.induct) (auto simp: addEntries_simps keys_valid_simps addToMap_iff)

lemma recurseConfig_iff:
  "recurseConfig r path g = Inr r' \<longleftrightarrow> keys_valid (elements path g) \<and> r' = addEntries (elements path g) r"
  "recurseGroups r path groups = Inr r' \<longleftrightarrow> keys_valid (groupElements path groups) \<and> r' = addEntries (groupElements path groups) r"
proof (induction path g and path groups arbitrary: r r' and r r' rule: elements_groupElements.induct)
  case (1 path ver groups vs ps mp)
  show ?case
    using 1 by (auto simp: addToMap_iff addAll_iff addEntries_simps addEntries_append keys_valid_simps
        valueElements_def policyElements_def)
next
  case (2 path)
  then show ?case by (auto simp: addEntries_simps keys_valid_simps)
next
  case (3 path key g groups)
  then show ?case by (auto simp: addEntries_append keys_valid_simps)
qed

fun group_distinct :: "ConfigGroup \<Rightarrow> bool" where
  "group_distinct (ConfigGroup ver groups values policies mp) \<longleftrightarrow>
     distinct (map fst groups) \<and> distinct (map fst values) \<and> distinct (map fst policies)
     \<and> list_all (\<lambda>(k, h). group_distinct h) groups"

lemma elements_cases:
  assumes "cg \<in> set (elements path (ConfigGroup ver groups vs ps mp))"
  obtains (root) "cg = \<lparr>cmpItem = CGroup (ConfigGroup ver groups vs ps mp), cmpKey = last path, cmpPath = butlast path\<rparr>"
  | (group) k h where "(k, h) \<in> set groups" "cg \<in> set (elements (path @ [k]) h)"
  | (val) k v where "(k, v) \<in> set vs" "cg = \<lparr>cmpItem = CValue v, cmpKey = k, cmpPath = path\<rparr>"
  | (pol) k p where "(k, p) \<in> set ps" "cg = \<lparr>cmpItem = CPolicy p, cmpKey = k, cmpPath = path\<rparr>"
  using assms by (auto simp: groupElements_set valueElements_def policyElements_def)

lemma position_simp [simp]: "position \<lparr>cmpItem = i, cmpKey = k, cmpPath = p\<rparr> = p @ [k]"
  by (simp add: position_def)

lemma elements_position:
  assumes "cg \<in> set (elements path g)" and "path \<noteq> []"
  shows "\<exists>rest. position cg = path @ rest"
  using assms
proof (induction g arbitrary: path cg rule: measure_induct_rule [of size])
  case (less g)
  obtain ver groups vs ps mp where g: "g = ConfigGroup ver groups vs ps mp" by (cases g)
  from less.prems(1) [unfolded g] show ?case
  proof (cases rule: elements_cases)
    case (group k h)
    then have "size h < size g" using size_subgroup [of k h g] g by simp
    from less.IH [OF this group(2)] show ?thesis by auto
  qed (use less.prems(2) in auto)
qed

lemma elements_root:
  assumes "cg \<in> set (elements path g)" and "path \<noteq> []" and "position cg = path"
  shows "cg = \<lparr>cmpItem = CGroup g, cmpKey = last path, cmpPath = butlast path\<rparr>"
proof -
  obtain ver groups vs ps mp where g: "g = ConfigGroup ver groups vs ps mp" by (cases g)
  from assms(1) [unfolded g] show ?thesis
  proof (cases rule: elements_cases)
    case root
    then show ?thesis by (simp add: g)
  next
    case (group k h)
    from elements_position [OF group(2)] assms(3) show ?thesis by auto
  qed (use assms(3) in auto)
qed

lemma root_in_elements: "\<lparr>cmpItem = CGroup g, cmpKey = last path, cmpPath = butlast path\<rparr> \<in> set (elements path g)"
  by (cases g) simp

lemma prefix_distinct [simp]:
  "groupPrefix \<noteq> valuePrefix" "groupPrefix \<noteq> policyPrefix" "valuePrefix \<noteq> policyPrefix"
  "valuePrefix \<noteq> groupPrefix" "policyPrefix \<noteq> groupPrefix" "policyPrefix \<noteq> valuePrefix"
  by (simp_all add: groupPrefix_def valuePrefix_def policyPrefix_def)

lemma subgroup_position:
  assumes "cg \<in> set (elements (path @ [k]) h)" and "position cg = path @ [k']"
  shows "k = k' \<and> item_prefix (cmpItem cg) = groupPrefix"
proof -
  from elements_position [OF assms(1)] assms(2) have p: "position cg = path @ [k]" by auto
  from elements_root [OF assms(1) _ p] have "item_prefix (cmpItem cg) = groupPrefix" by simp
  with p assms(2) show ?thesis by simp
qed

lemma subgroups_position:
  assumes "a \<in> set (elements (path @ [k]) h)" and "b \<in> set (elements (path @ [k']) h')" and "position a = position b"
  shows "k = k'"
  using elements_position [OF assms(1)] elements_position [OF assms(2)] assms(3) by auto

lemma elements_functional:
  assumes "a \<in> set (elements path g)" and "b \<in> set (elements path g)" and "path \<noteq> []" and "group_distinct g"
    and "item_prefix (cmpItem a) = item_prefix (cmpItem b)" and "position a = position b"
  shows "a = b"
  using assms
proof (induction g arbitrary: path rule: measure_induct_rule [of size])
  case (less g)
  obtain ver groups vs ps mp where g: "g = ConfigGroup ver groups vs ps mp" by (cases g)
  have d: "distinct (map fst groups)" "distinct (map fst vs)" "distinct (map fst ps)"
    and sub: "\<And>k h. (k, h) \<in> set groups \<Longrightarrow> group_distinct h"
    using less.prems(4) by (auto simp: g list_all_iff)
  note pos = less.prems(6) and pre = less.prems(5)
  from less.prems(1) [unfolded g] show ?case
  proof (cases rule: elements_cases)
    case root
    then have "position b = path" using pos less.prems(3) by simp
    from elements_root [OF less.prems(2,3) this] root g show ?thesis by simp
  next
    case (group k h)
    note ag = this
    from less.prems(2) [unfolded g] show ?thesis
    proof (cases rule: elements_cases)
      case root
      then have "position a = path" using pos less.prems(3) by simp
      from elements_root [OF less.prems(1,3) this] root g show ?thesis by simp
    next
      case (group k' h')
      then have "k = k'" using subgroups_position [OF ag(2) group(2) pos] by simp
      then have "h = h'" using ag(1) group(1) d(1) by (metis eq_key_imp_eq_value)
      have "size h < size g" using size_subgroup [of k h g] g ag(1) by simp
      from less.IH [OF this ag(2) _ _ sub [OF ag(1)] pre pos] group(2) \<open>k = k'\<close> \<open>h = h'\<close>
      show ?thesis by simp
    next
      case (val k' v)
      then show ?thesis using subgroup_position [OF ag(2), of k'] pos pre by simp
    next
      case (pol k' v)
      then show ?thesis using subgroup_position [OF ag(2), of k'] pos pre by simp
    qed
  next
    case (val k v)
    note av = this
    from less.prems(2) [unfolded g] show ?thesis
    proof (cases rule: elements_cases)
      case (group k' h')
      then show ?thesis using subgroup_position [OF group(2), of k] av pos pre by simp
    next
      case (val k' v')
      then have "k = k'" using av pos by simp
      then have "v = v'" using av(1) val(1) d(2) by (metis eq_key_imp_eq_value)
      with \<open>k = k'\<close> av val show ?thesis by simp
    qed (use av pre in simp_all)
  next
    case (pol k p)
    note ap = this
    from less.prems(2) [unfolded g] show ?thesis
    proof (cases rule: elements_cases)
      case (group k' h')
      then show ?thesis using subgroup_position [OF group(2), of k] ap pos pre by simp
    next
      case (pol k' p')
      then have "k = k'" using ap pos by simp
      then have "p = p'" using ap(1) pol(1) d(3) by (metis eq_key_imp_eq_value)
      with \<open>k = k'\<close> ap pol show ?thesis by simp
    qed (use ap pre in simp_all)
  qed
qed

lemma position_names_ok:
  assumes "cg \<in> set (elements path g)" and "keys_valid (elements path g)" and "\<forall>w \<in> set (butlast path). nameOk w"
    and "path \<noteq> []"
  shows "\<forall>w \<in> set (position cg). nameOk w"
  using assms
proof (induction g arbitrary: path rule: measure_induct_rule [of size])
  case (less g)
  obtain ver groups vs ps mp where g: "g = ConfigGroup ver groups vs ps mp" by (cases g)
  have key: "nameOk (cmpKey c)" if "c \<in> set (elements path g)" for c
    using that less.prems(2) validateConfigID_nameOk by (auto simp: keys_valid_def)
  have "nameOk (last path)" using key [OF root_in_elements] by simp
  with less.prems(3) have "\<forall>w \<in> set (butlast path @ [last path]). nameOk w" by simp
  with less.prems(4) have path: "\<forall>w \<in> set path. nameOk w" by simp
  from less.prems(1) [unfolded g] show ?case
  proof (cases rule: elements_cases)
    case (group k h)
    have "size h < size g" using size_subgroup [of k h g] g group(1) by simp
    moreover have "set (elements (path @ [k]) h) \<subseteq> set (elements path g)"
      using group(1) by (auto simp: g groupElements_set)
    then have "keys_valid (elements (path @ [k]) h)" using less.prems(2) by (auto simp: keys_valid_def)
    ultimately show ?thesis using less.IH [OF _ group(2)] path by simp
  qed (use path key [OF less.prems(1)] less.prems(4) in \<open>simp_all\<close>)
qed

section \<open>Lookups\<close>

lemma map_of_mapConfig:
  assumes m: "mapConfig (Some g) root = Inr m" and d: "group_distinct g"
  shows "map_of m key = Some cg \<longleftrightarrow> cg \<in> set (elements [root] g) \<and> key = fqPath cg"
proof -
  let ?els = "elements [root] g" and ?kv = "\<lambda>cg. (fqPath cg, cg)"
  from m have kv: "keys_valid ?els" and m': "m = addEntries ?els []"
    by (simp_all add: mapConfig_def recurseConfig_iff)
  have look: "map_of m = map_of (rev (map ?kv ?els))"
    unfolding m' addEntries_def map_of_fold_update by simp
  have only: "cg \<in> set ?els \<and> key = fqPath cg" if "map_of m key = Some cg" for key cg
    using map_of_SomeD [OF that [unfolded look]] by auto
  have "map_of m (fqPath cg) = Some cg" if cg: "cg \<in> set ?els" for cg
  proof -
    from cg have "map_of m (fqPath cg) \<noteq> None" unfolding look by (simp add: map_of_eq_None_iff image_image)
    then obtain cg' where cg': "map_of m (fqPath cg) = Some cg'" by blast
    from only [OF this] have e: "cg' \<in> set ?els" "fqPath cg = fqPath cg'" by auto
    have names: "\<forall>w \<in> set (position c). nameOk w" if "c \<in> set ?els" for c
      using position_names_ok [OF that kv] by simp
    have "\<forall>w \<in> set (position cg) \<union> set (position cg'). nameOk w" using names [OF cg] names [OF e(1)] by blast
    from fqPath_inj [OF e(2) this] have "cg = cg'"
      using elements_functional [OF cg e(1) _ d] by simp
    with cg' show ?thesis by simp
  qed
  with only show ?thesis by blast
qed

definition hasCapabilities :: "config_map \<Rightarrow> bool" where
  "hasCapabilities m \<longleftrightarrow> map_of m hackyFixOrdererCapabilities \<noteq> None"

fun fixAll :: "ConfigGroup \<Rightarrow> ConfigGroup" where
  "fixAll (ConfigGroup ver groups values policies mp) =
     hackyFix (ConfigGroup ver (map (\<lambda>(k, h). (k, fixAll h)) groups) values policies mp)"

definition upgraded :: "bool \<Rightarrow> ConfigGroup \<Rightarrow> ConfigGroup" where
  "upgraded b g = (if b then fixAll g else g)"

lemma subGroups_Inr:
  "subGroups path m keys = Inr gs \<longleftrightarrow>
     list_all2 (\<lambda>k kh. fst kh = k \<and> recurseConfigMap (path @ pathSeparator @ k) m = Inr (snd kh)) keys gs"
proof (induction keys arbitrary: gs)
  case Nil
  then show ?case by auto
next
  case (Cons k keys)
  then show ?case by (cases gs) auto
qed

lemma valueAt_Inr: "valueAt m path k = Inr kv \<longleftrightarrow>
    fst kv = k \<and> (\<exists>cg. map_of m (valuePrefix @ path @ pathSeparator @ k) = Some cg \<and> cmpItem cg = CValue (snd kv))"
  by (cases kv) (auto simp: valueAt_def Let_def split: option.splits cfg_item.splits)

lemma policyAt_Inr: "policyAt m path k = Inr kp \<longleftrightarrow>
    fst kp = k \<and> (\<exists>cg. map_of m (policyPrefix @ path @ pathSeparator @ k) = Some cg \<and> cmpItem cg = CPolicy (snd kp))"
  by (cases kp) (auto simp: policyAt_def Let_def split: option.splits cfg_item.splits)

lemma res_map_valueAt: "res_map (valueAt m path) ks = Inr kvs \<longleftrightarrow>
    map fst kvs = ks \<and> (\<forall>(k, v) \<in> set kvs. \<exists>cg. map_of m (valuePrefix @ path @ pathSeparator @ k) = Some cg \<and> cmpItem cg = CValue v)"
proof (induction ks arbitrary: kvs)
  case Nil
  then show ?case by auto
next
  case (Cons k ks)
  then show ?case by (cases kvs) (auto simp: valueAt_Inr)
qed

lemma res_map_policyAt: "res_map (policyAt m path) ks = Inr kps \<longleftrightarrow>
    map fst kps = ks \<and> (\<forall>(k, p) \<in> set kps. \<exists>cg. map_of m (policyPrefix @ path @ pathSeparator @ k) = Some cg \<and> cmpItem cg = CPolicy p)"
proof (induction ks arbitrary: kps)
  case Nil
  then show ?case by auto
next
  case (Cons k ks)
  then show ?case by (cases kps) (auto simp: policyAt_Inr)
qed

definition fixIf :: "bool \<Rightarrow> ConfigGroup \<Rightarrow> ConfigGroup" where
  "fixIf b g = (if b then hackyFix g else g)"

lemma recurseConfigMap_Inr:
  "recurseConfigMap path m = Inr g' \<longleftrightarrow>
     (\<exists>cg g groups vs ps. map_of m (groupPrefix @ path) = Some cg \<and> cmpItem cg = CGroup g
        \<and> subGroups path m (map fst (cgGroups g)) = Inr groups
        \<and> res_map (valueAt m path) (map fst (cgValues g)) = Inr vs
        \<and> res_map (policyAt m path) (map fst (cgPolicies g)) = Inr ps
        \<and> g' = fixIf (hasCapabilities m) (ConfigGroup (cgVersion g) groups vs ps (cgModPolicy g)))"
  by (subst recurseConfigMap.simps)
    (auto simp: Let_def fixIf_def hasCapabilities_def split: option.splits cfg_item.splits)

text \<open>A tree all of whose elements are in the map is rebuilt from it, with empty modification policies replaced.\<close>

lemma rebuild:
  assumes "\<forall>cg \<in> set (elements path g). map_of m (fqPath cg) = Some cg" and "path \<noteq> []"
  shows "recurseConfigMap (pathString path) m = Inr (upgraded (hasCapabilities m) g)"
  using assms
proof (induction g arbitrary: path rule: measure_induct_rule [of size])
  case (less g)
  obtain ver groups vs ps mp where g: "g = ConfigGroup ver groups vs ps mp" by (cases g)
  have root: "map_of m (groupPrefix @ pathString path) = Some \<lparr>cmpItem = CGroup g, cmpKey = last path, cmpPath = butlast path\<rparr>"
    using bspec [OF less.prems(1) root_in_elements] less.prems(2) by (simp add: fqPath_position)
  have sub: "recurseConfigMap (pathString path @ pathSeparator @ k) m = Inr (upgraded (hasCapabilities m) h)"
    if kh: "(k, h) \<in> set groups" for k h
  proof -
    have "size h < size g" using size_subgroup [of k h g] g kh by simp
    moreover have "\<forall>cg \<in> set (elements (path @ [k]) h). map_of m (fqPath cg) = Some cg"
      using less.prems(1) kh by (auto simp: g groupElements_set)
    ultimately show ?thesis
      using less.IH [of h "path @ [k]"] pathString_snoc [OF less.prems(2)] by simp
  qed
  have "subGroups (pathString path) m (map fst groups) = Inr (map (\<lambda>(k, h). (k, upgraded (hasCapabilities m) h)) groups)"
    unfolding subGroups_Inr using sub by (auto simp: list_all2_conv_all_nth case_prod_beta)
  moreover have "res_map (valueAt m (pathString path)) (map fst vs) = Inr vs"
    unfolding res_map_valueAt
  proof (clarsimp)
    fix k v assume "(k, v) \<in> set vs"
    then have "\<lparr>cmpItem = CValue v, cmpKey = k, cmpPath = path\<rparr> \<in> set (elements path g)"
      by (auto simp: g valueElements_def)
    from bspec [OF less.prems(1) this]
    show "\<exists>cg. map_of m (valuePrefix @ pathString path @ pathSeparator @ k) = Some cg \<and> cmpItem cg = CValue v"
      by (simp add: fqPath_position pathString_snoc [OF less.prems(2)])
  qed
  moreover have "res_map (policyAt m (pathString path)) (map fst ps) = Inr ps"
    unfolding res_map_policyAt
  proof (clarsimp)
    fix k p assume "(k, p) \<in> set ps"
    then have "\<lparr>cmpItem = CPolicy p, cmpKey = k, cmpPath = path\<rparr> \<in> set (elements path g)"
      by (auto simp: g policyElements_def)
    from bspec [OF less.prems(1) this]
    show "\<exists>cg. map_of m (policyPrefix @ pathString path @ pathSeparator @ k) = Some cg \<and> cmpItem cg = CPolicy p"
      by (simp add: fqPath_position pathString_snoc [OF less.prems(2)])
  qed
  ultimately show ?case
    unfolding recurseConfigMap_Inr
    using root by (auto simp: g upgraded_def fixIf_def)
qed

lemma mapConfig_rebuild:
  assumes "mapConfig (Some g) root = Inr m" and "group_distinct g"
  shows "configMapToConfig m root = Inr (upgraded (hasCapabilities m) g)"
  using rebuild [of "[root]" g m] map_of_mapConfig [OF assms]
  by (simp add: configMapToConfig_def pathString_def)

section \<open>What a rebuilt tree holds\<close>

text \<open>
  \<open>shallow\<close> compares two elements without the contents of the elements below: a group's version, modification
  policy and the names of its members, and all of a value or a policy.
\<close>

fun shallow :: "cfg_item \<Rightarrow> cfg_item \<Rightarrow> bool" where
  "shallow (CGroup g) (CGroup h) \<longleftrightarrow>
     cgVersion g = cgVersion h \<and> cgModPolicy g = cgModPolicy h \<and> map fst (cgGroups g) = map fst (cgGroups h)
     \<and> map fst (cgValues g) = map fst (cgValues h) \<and> map fst (cgPolicies g) = map fst (cgPolicies h)"
| "shallow (CValue v) (CValue w) \<longleftrightarrow> v = w"
| "shallow (CPolicy p) (CPolicy q) \<longleftrightarrow> p = q"
| "shallow _ _ \<longleftrightarrow> False"

fun fixItem :: "bool \<Rightarrow> cfg_item \<Rightarrow> cfg_item" where
  "fixItem b (CGroup g) = CGroup (fixIf b g)"
| "fixItem b (CValue v) = CValue (if b then v\<lparr>cvModPolicy := fixModPolicy (cvModPolicy v)\<rparr> else v)"
| "fixItem b (CPolicy p) = CPolicy (if b then p\<lparr>cpModPolicy := fixModPolicy (cpModPolicy p)\<rparr> else p)"

lemma map_fst_fix:
  "map fst (map (\<lambda>(key, v). (key, f v)) kvs) = map fst kvs"
  by (induction kvs) auto

lemma fixIf_sel:
  "cgVersion (fixIf b g) = cgVersion g" "cgGroups (fixIf b g) = cgGroups g"
  "map fst (cgValues (fixIf b g)) = map fst (cgValues g)" "map fst (cgPolicies (fixIf b g)) = map fst (cgPolicies g)"
  "cgModPolicy (fixIf b g) = (if b then fixModPolicy (cgModPolicy g) else cgModPolicy g)"
  by (simp_all add: fixIf_def hackyFix_def map_fst_fix del: map_map)

lemma in_fixIf_values:
  "(k, v) \<in> set (cgValues (fixIf b g)) \<Longrightarrow> \<exists>w. (k, w) \<in> set (cgValues g) \<and> CValue v = fixItem b (CValue w)"
  by (auto simp: fixIf_def hackyFix_def split: if_splits)

lemma in_fixIf_policies:
  "(k, p) \<in> set (cgPolicies (fixIf b g)) \<Longrightarrow> \<exists>q. (k, q) \<in> set (cgPolicies g) \<and> CPolicy p = fixItem b (CPolicy q)"
  by (auto simp: fixIf_def hackyFix_def split: if_splits)

lemma list_all2_fst: "list_all2 (\<lambda>k kh. fst kh = k \<and> P k (snd kh)) ks khs \<Longrightarrow> map fst khs = ks"
  by (induction ks khs rule: list_all2_induct) auto

lemma list_all2_in: "list_all2 (\<lambda>k kh. fst kh = k \<and> P k (snd kh)) ks khs \<Longrightarrow> (k, h) \<in> set khs \<Longrightarrow> P k h"
  by (induction ks khs rule: list_all2_induct) auto

lemma elements_sel_cases:
  assumes "cg \<in> set (elements path g)"
  obtains (root) "cg = \<lparr>cmpItem = CGroup g, cmpKey = last path, cmpPath = butlast path\<rparr>"
  | (group) k h where "(k, h) \<in> set (cgGroups g)" "cg \<in> set (elements (path @ [k]) h)"
  | (val) k v where "(k, v) \<in> set (cgValues g)" "cg = \<lparr>cmpItem = CValue v, cmpKey = k, cmpPath = path\<rparr>"
  | (pol) k p where "(k, p) \<in> set (cgPolicies g)" "cg = \<lparr>cmpItem = CPolicy p, cmpKey = k, cmpPath = path\<rparr>"
  using assms by (cases g) (auto simp: groupElements_set valueElements_def policyElements_def)

lemma rebuilt_element:
  assumes "recurseConfigMap (pathString path) m = Inr g'" and "path \<noteq> []" and "cg' \<in> set (elements path g')"
  shows "\<exists>cg. map_of m (fqPath cg') = Some cg \<and> shallow (fixItem (hasCapabilities m) (cmpItem cg)) (cmpItem cg')"
  using assms
proof (induction g' arbitrary: path rule: measure_induct_rule [of size])
  case (less g')
  let ?b = "hasCapabilities m"
  note snoc = pathString_snoc [OF less.prems(2)]
  from less.prems(1) obtain rg g groups vs ps where
    rg: "map_of m (groupPrefix @ pathString path) = Some rg" "cmpItem rg = CGroup g"
    and gs: "subGroups (pathString path) m (map fst (cgGroups g)) = Inr groups"
    and vs: "res_map (valueAt m (pathString path)) (map fst (cgValues g)) = Inr vs"
    and ps: "res_map (policyAt m (pathString path)) (map fst (cgPolicies g)) = Inr ps"
    and g': "g' = fixIf ?b (ConfigGroup (cgVersion g) groups vs ps (cgModPolicy g))"
    unfolding recurseConfigMap_Inr by blast
  note gs' = gs [unfolded subGroups_Inr] and vs' = vs [unfolded res_map_valueAt] and ps' = ps [unfolded res_map_policyAt]
  from less.prems(3) show ?case
  proof (cases rule: elements_sel_cases)
    case root
    have "shallow (fixItem ?b (CGroup g)) (CGroup g')"
      using list_all2_fst [OF gs'] vs' ps' by (simp add: g' fixIf_sel)
    then show ?thesis using root rg less.prems(2) by (simp add: fqPath_position)
  next
    case (group k h)
    then have "(k, h) \<in> set groups" by (simp add: g' fixIf_sel)
    from list_all2_in [OF gs' this] have "recurseConfigMap (pathString (path @ [k])) m = Inr h" by (simp add: snoc)
    moreover have "size h < size g'" by (rule size_subgroup [OF group(1)])
    ultimately show ?thesis using less.IH group(2) by simp
  next
    case (val k v)
    from in_fixIf_values [OF val(1) [unfolded g']] obtain w where w: "(k, w) \<in> set vs" "CValue v = fixItem ?b (CValue w)"
      by auto
    from w(1) vs' obtain cg where "map_of m (valuePrefix @ pathString path @ pathSeparator @ k) = Some cg" "cmpItem cg = CValue w"
      by blast
    with w(2) show ?thesis by (auto simp: val(2) fqPath_position snoc)
  next
    case (pol k p)
    from in_fixIf_policies [OF pol(1) [unfolded g']] obtain q where q: "(k, q) \<in> set ps" "CPolicy p = fixItem ?b (CPolicy q)"
      by auto
    from q(1) ps' obtain cg where "map_of m (policyPrefix @ pathString path @ pathSeparator @ k) = Some cg" "cmpItem cg = CPolicy q"
      by blast
    with q(2) show ?thesis by (auto simp: pol(2) fqPath_position snoc)
  qed
qed

section \<open>Properties\<close>

definition sample_tree :: ConfigGroup where
  "sample_tree =
     ConfigGroup 1
       [(''Orderer'', ConfigGroup 0 [] [(''Capabilities'', \<lparr>cvVersion = 2, cvValue = [7], cvModPolicy = []\<rparr>)] [] ''Admins'')]
       [(''Capacity'', \<lparr>cvVersion = 0, cvValue = [1, 2], cvModPolicy = ''Admins''\<rparr>)]
       [(''Admins'', \<lparr>cpVersion = 3, cpPolicy = None, cpModPolicy = []\<rparr>)] ''Admins''"

text \<open>
  C25. Round trip between the tree and the map of a configuration: when \<open>mapConfig\<close> accepts a tree (whose maps
  have distinct keys, as Go maps have), \<open>configMapToConfig\<close> rebuilds it from the map.  The only change is the
  documented upgrade: when the orderer capabilities are in the map, every empty modification policy becomes
  \<open>Admins\<close>.  In particular no two elements of an accepted tree share a path, so none is lost.
\<close>

theorem config_map_roundtrip:
  assumes "mapConfig (Some g) root = Inr m" and "group_distinct g"
  shows "configMapToConfig m root =
    Inr (if map_of m hackyFixOrdererCapabilities = None then g else fixAll g)"
  using mapConfig_rebuild [OF assms] by (simp add: upgraded_def hasCapabilities_def)

theorem config_map_roundtrip_witness:
  "\<exists>m. mapConfig (Some sample_tree) ''Channel'' = Inr m \<and> group_distinct sample_tree
     \<and> configMapToConfig m ''Channel'' =
         Inr (if map_of m hackyFixOrdererCapabilities = None then sample_tree else fixAll sample_tree)
     \<and> map_of m hackyFixOrdererCapabilities \<noteq> None \<and> fixAll sample_tree \<noteq> sample_tree"
proof -
  have "\<not> isl (mapConfig (Some sample_tree) ''Channel'')" by code_simp
  then obtain m where m: "mapConfig (Some sample_tree) ''Channel'' = Inr m"
    by (cases "mapConfig (Some sample_tree) ''Channel''") auto
  have d: "group_distinct sample_tree" by code_simp
  have c: "case mapConfig (Some sample_tree) ''Channel'' of Inl _ \<Rightarrow> False
      | Inr m \<Rightarrow> map_of m hackyFixOrdererCapabilities \<noteq> None" by code_simp
  have n: "fixAll sample_tree \<noteq> sample_tree" by code_simp
  show ?thesis using config_map_roundtrip [OF m d] m d c n by auto
qed

end
