(* ===== verification/ConfigTx.thy ===== *)
theory ConfigTx
  imports ConfigMap
begin

text \<open>
  Configuration updates (\<open>common/configtx/validator.go\<close> and \<open>update.go\<close>).  A \<open>ValidatorImpl\<close> holds the current
  configuration of a channel, as a map.  An update carries a read set, which must be at the current versions, and a
  write set; the elements of the write set that are not in the read set at the same version form the delta set.  Each
  of them must be new, with version 0, or exactly one version ahead, with the modification policy of the current element
  satisfied by the signatures of the update.

  A Go panic is the error \<open>UpdPanic\<close>, as in the theory of policies.
\<close>

section \<open>The validator\<close>

record ValidatorImpl =
  viChannelID :: string
  viSequence :: u64
  viConfigMap :: config_map
  viConfigProto :: Config
  viNamespace :: string
  viPm :: ManagerImpl

datatype update_err =
    UpdPanic string
  | NilUpdateEnvelope
  | UpdProto proto_err
  | WrongChannel string string
  | UpdMap map_err
  | NotInConfig string
  | StaleRead string u64 u64
  | EmptyDelta
  | BadModPolicy string
  | NewKeyVersion string u64
  | VersionNotNext string u64 u64
  | NoPolicy string
  | PolicyNotSatisfied string
  | NotInFullConfig string
  | NilConfig
  | NilChannelGroup
  | BadChannelID id_err
  | NilConfigEnvelope
  | WrongSequence u64 u64
  | DifferentResult

definition wrap :: "('e \<Rightarrow> update_err) \<Rightarrow> 'e + 'a \<Rightarrow> update_err + 'a" where
  "wrap f r = (case r of Inl e \<Rightarrow> Inl (f e) | Inr x \<Rightarrow> Inr x)"

definition check :: "update_err option \<Rightarrow> update_err + 'a \<Rightarrow> update_err + 'a" where
  "check e r = (case e of Some x \<Rightarrow> Inl x | None \<Rightarrow> r)"

lemma wrap_Inr [simp]: "wrap f r = Inr x \<longleftrightarrow> r = Inr x"
  by (simp add: wrap_def split: sum.splits)

lemma check_Inr [simp]: "check e r = Inr x \<longleftrightarrow> e = None \<and> r = Inr x"
  by (simp add: check_def split: option.splits)

definition NewValidatorImpl :: "string \<Rightarrow> Config option \<Rightarrow> string \<Rightarrow> ManagerImpl \<Rightarrow> update_err + ValidatorImpl" where
  "NewValidatorImpl channelID config namespace pm =
     (case config of
        None \<Rightarrow> Inl NilConfig
      | Some cfg \<Rightarrow>
          if cfgChannelGroup cfg = None then Inl NilChannelGroup
          else check (map_option BadChannelID (ValidateChannelID channelID))
                 (res_bind (wrap UpdMap (mapConfig (cfgChannelGroup cfg) namespace)) (\<lambda>configMap.
                  Inr \<lparr>viChannelID = channelID, viSequence = cfgSequence cfg, viConfigMap = configMap,
                       viConfigProto = cfg, viNamespace = namespace, viPm = pm\<rparr>)))"

section \<open>Authorising an update\<close>

definition verifyRead :: "ValidatorImpl \<Rightarrow> string \<times> comparable \<Rightarrow> update_err option" where
  "verifyRead vi kv =
     (case kv of (key, value) \<Rightarrow>
        (case map_of (viConfigMap vi) key of
           None \<Rightarrow> Some (NotInConfig key)
         | Some existing \<Rightarrow>
             if version existing \<noteq> version value then Some (StaleRead key (version value) (version existing)) else None))"

definition verifyReadSet :: "ValidatorImpl \<Rightarrow> config_map \<Rightarrow> update_err option" where
  "verifyReadSet vi readSet = res_all (verifyRead vi) readSet"

definition computeDeltaSet :: "config_map \<Rightarrow> config_map \<Rightarrow> config_map" where
  "computeDeltaSet readSet writeSet =
     filter (\<lambda>(key, value). case map_of readSet key of
                              None \<Rightarrow> True
                            | Some readVal \<Rightarrow> version readVal \<noteq> version value) writeSet"

definition validateModPolicy :: "string \<Rightarrow> id_err option" where
  "validateModPolicy mp =
     (if mp = [] then Some IdEmpty
      else res_all validateConfigID (strSplit CHR ''/'' (if hd mp = CHR ''/'' then tl mp else mp)))"

definition policyForItem :: "ValidatorImpl \<Rightarrow> comparable \<Rightarrow> update_err + Policy option" where
  "policyForItem vi item =
     (let mp = modPolicy item;
          manager =
            (if length mp > 0 \<and> hd mp \<noteq> CHR ''/'' \<and> length (cmpPath item) \<noteq> 0
             then (case Manager (tl (cmpPath item)) (viPm vi) of
                     None \<Rightarrow> None
                   | Some m \<Rightarrow>
                       (case cmpItem item of CGroup _ \<Rightarrow> Manager [cmpKey item] m | _ \<Rightarrow> Some m))
             else Some (viPm vi))
      in case manager of
           None \<Rightarrow> Inr None
         | Some m \<Rightarrow>
             (case GetPolicy mp m of
                Inl _ \<Rightarrow> Inl (UpdPanic ''slice bounds out of range'')
              | Inr (policy, ok) \<Rightarrow> Inr (if ok then Some policy else None)))"

definition verifyDelta :: "msp_lib \<Rightarrow> ValidatorImpl \<Rightarrow> SignedData list \<Rightarrow> string \<times> comparable \<Rightarrow> update_err option" where
  "verifyDelta msp vi signedData kv =
     (case kv of (key, value) \<Rightarrow>
        (case validateModPolicy (modPolicy value) of
           Some _ \<Rightarrow> Some (BadModPolicy key)
         | None \<Rightarrow>
             (case map_of (viConfigMap vi) key of
                None \<Rightarrow> if version value \<noteq> 0 then Some (NewKeyVersion key (version value)) else None
              | Some existing \<Rightarrow>
                  if version value \<noteq> version existing + 1
                  then Some (VersionNotNext key (version value) (version existing))
                  else (case policyForItem vi existing of
                          Inl e \<Rightarrow> Some e
                        | Inr None \<Rightarrow> Some (NoPolicy key)
                        | Inr (Some policy) \<Rightarrow>
                            if EvaluateSignedData msp policy signedData then None else Some (PolicyNotSatisfied key)))))"

definition verifyDeltaSet :: "msp_lib \<Rightarrow> ValidatorImpl \<Rightarrow> config_map \<Rightarrow> SignedData list \<Rightarrow> update_err option" where
  "verifyDeltaSet msp vi deltaSet signedData =
     (if length deltaSet = 0 then Some EmptyDelta else res_all (verifyDelta msp vi signedData) deltaSet)"

definition verifyFullProposedConfig :: "config_map \<Rightarrow> config_map \<Rightarrow> update_err option" where
  "verifyFullProposedConfig writeSet fullProposedConfig =
     res_all (\<lambda>(key, _). case map_of fullProposedConfig key of None \<Rightarrow> Some (NotInFullConfig key) | Some _ \<Rightarrow> None) writeSet"

definition computeUpdateResult :: "ValidatorImpl \<Rightarrow> config_map \<Rightarrow> config_map" where
  "computeUpdateResult vi updatedConfig = fold (\<lambda>(key, value). AList.update key value) updatedConfig (viConfigMap vi)"

definition authorizeUpdate ::
  "codec \<Rightarrow> msp_lib \<Rightarrow> ValidatorImpl \<Rightarrow> ConfigUpdateEnvelope option \<Rightarrow> update_err + config_map"
where
  "authorizeUpdate c msp vi configUpdateEnv =
     (case configUpdateEnv of
        None \<Rightarrow> Inl NilUpdateEnvelope
      | Some env \<Rightarrow>
          res_bind (wrap UpdProto (UnmarshalConfigUpdate c (cueConfigUpdate env))) (\<lambda>configUpdate.
          if cuChannelId configUpdate \<noteq> viChannelID vi
          then Inl (WrongChannel (cuChannelId configUpdate) (viChannelID vi))
          else
          res_bind (wrap UpdMap (mapConfig (cuReadSet configUpdate) (viNamespace vi))) (\<lambda>readSet.
          check (verifyReadSet vi readSet) (
          res_bind (wrap UpdMap (mapConfig (cuWriteSet configUpdate) (viNamespace vi))) (\<lambda>writeSet.
          let deltaSet = computeDeltaSet readSet writeSet in
          res_bind (wrap UpdProto (ConfigUpdateEnvelopeAsSignedData c (Some env))) (\<lambda>signedData.
          check (verifyDeltaSet msp vi deltaSet signedData) (
          let fullProposedConfig = computeUpdateResult vi deltaSet in
          check (verifyFullProposedConfig writeSet fullProposedConfig) (
          Inr fullProposedConfig))))))))"

section \<open>Proposing and validating\<close>

definition proposeConfigUpdate :: "codec \<Rightarrow> msp_lib \<Rightarrow> ValidatorImpl \<Rightarrow> Envelope \<Rightarrow> update_err + ConfigEnvelope" where
  "proposeConfigUpdate c msp vi configtx =
     res_bind (wrap UpdProto (EnvelopeToConfigUpdate c configtx)) (\<lambda>configUpdateEnv.
     res_bind (authorizeUpdate c msp vi (Some configUpdateEnv)) (\<lambda>configMap.
     res_bind (wrap UpdMap (configMapToConfig configMap (viNamespace vi))) (\<lambda>channelGroup.
     Inr \<lparr>ceConfig = Some \<lparr>cfgSequence = viSequence vi + 1, cfgChannelGroup = Some channelGroup\<rparr>,
          ceLastUpdate = Some configtx\<rparr>)))"

text \<open>\<open>proto.Equal\<close> on groups: maps are compared as maps.\<close>

definition mapEqual :: "(string \<times> 'a) list \<Rightarrow> (string \<times> 'a) list \<Rightarrow> bool" where
  "mapEqual xs ys \<longleftrightarrow> length xs = length ys \<and> list_all (\<lambda>(k, x). map_of ys k = Some x) xs"

fun protoEqual :: "ConfigGroup \<Rightarrow> ConfigGroup \<Rightarrow> bool"
and protoEquals :: "(string \<times> ConfigGroup) list \<Rightarrow> (string \<times> ConfigGroup) list \<Rightarrow> bool"
where
  "protoEqual (ConfigGroup ver groups values policies mp) h \<longleftrightarrow>
     ver = cgVersion h \<and> mp = cgModPolicy h \<and> mapEqual values (cgValues h) \<and> mapEqual policies (cgPolicies h)
     \<and> length groups = length (cgGroups h) \<and> protoEquals groups (cgGroups h)"
| "protoEquals [] hs \<longleftrightarrow> True"
| "protoEquals ((k, g) # gs) hs \<longleftrightarrow>
     (case map_of hs k of None \<Rightarrow> False | Some h \<Rightarrow> protoEqual g h) \<and> protoEquals gs hs"

definition Validate :: "codec \<Rightarrow> msp_lib \<Rightarrow> ValidatorImpl \<Rightarrow> ConfigEnvelope option \<Rightarrow> update_err option" where
  "Validate c msp vi configEnv =
     (case configEnv of
        None \<Rightarrow> Some NilConfigEnvelope
      | Some env \<Rightarrow>
          (case ceConfig env of
             None \<Rightarrow> Some NilConfig
           | Some cfg \<Rightarrow>
               if cfgSequence cfg \<noteq> viSequence vi + 1 then Some (WrongSequence (viSequence vi) (cfgSequence cfg))
               else
                 (case ceLastUpdate env of
                    None \<Rightarrow> Some (UpdPanic ''nil pointer dereference'')
                  | Some lastUpdate \<Rightarrow>
                      (case res_bind (wrap UpdProto (EnvelopeToConfigUpdate c lastUpdate)) (\<lambda>configUpdateEnv.
                            res_bind (authorizeUpdate c msp vi (Some configUpdateEnv)) (\<lambda>configMap.
                            wrap UpdMap (configMapToConfig configMap (viNamespace vi)))) of
                         Inl e \<Rightarrow> Some e
                       | Inr channelGroup \<Rightarrow>
                           (case cfgChannelGroup cfg of
                              None \<Rightarrow> Some DifferentResult
                            | Some g \<Rightarrow> if protoEqual channelGroup g then None else Some DifferentResult)))))"

section \<open>Lemmas\<close>

lemma authorizeUpdate_Inr:
  assumes "authorizeUpdate c msp vi (Some env) = Inr full"
  obtains cu readSet writeSet sds where
    "unConfigUpdate c (cueConfigUpdate env) = Some cu"
    "cuChannelId cu = viChannelID vi"
    "mapConfig (cuReadSet cu) (viNamespace vi) = Inr readSet"
    "mapConfig (cuWriteSet cu) (viNamespace vi) = Inr writeSet"
    "ConfigUpdateEnvelopeAsSignedData c (Some env) = Inr sds"
    "verifyReadSet vi readSet = None"
    "verifyDeltaSet msp vi (computeDeltaSet readSet writeSet) sds = None"
    "full = computeUpdateResult vi (computeDeltaSet readSet writeSet)"
  using assms by (auto simp: authorizeUpdate_def Let_def UnmarshalConfigUpdate_def split: if_splits)

lemma proposeConfigUpdate_Inr:
  assumes "proposeConfigUpdate c msp vi tx = Inr env"
  obtains cue full g where
    "EnvelopeToConfigUpdate c tx = Inr cue" "authorizeUpdate c msp vi (Some cue) = Inr full"
    "configMapToConfig full (viNamespace vi) = Inr g"
    "env = \<lparr>ceConfig = Some \<lparr>cfgSequence = viSequence vi + 1, cfgChannelGroup = Some g\<rparr>, ceLastUpdate = Some tx\<rparr>"
  using assms by (auto simp: proposeConfigUpdate_def)

lemma computeUpdateResult_lookup:
  assumes "map_of (computeUpdateResult vi delta) key = Some cg"
  shows "(key, cg) \<in> set delta \<or> map_of (viConfigMap vi) key = Some cg \<and> key \<notin> fst ` set delta"
proof -
  have "(map_of (viConfigMap vi) ++ map_of (rev delta)) key = Some cg"
    using assms by (simp add: computeUpdateResult_def map_of_fold_update)
  then consider "map_of (rev delta) key = Some cg" | "map_of (rev delta) key = None" "map_of (viConfigMap vi) key = Some cg"
    by (auto simp: map_add_Some_iff)
  then show ?thesis
  proof cases
    case 1
    then show ?thesis by (auto dest: map_of_SomeD)
  next
    case 2
    then show ?thesis by (auto simp: map_of_eq_None_iff)
  qed
qed

lemma computeUpdateResult_delta:
  assumes "key \<in> fst ` set delta"
  shows "\<exists>cg. map_of (computeUpdateResult vi delta) key = Some cg \<and> (key, cg) \<in> set delta"
proof -
  from assms have "map_of (rev delta) key \<noteq> None" by (simp add: map_of_eq_None_iff)
  then obtain cg where cg: "map_of (rev delta) key = Some cg" by blast
  then have "(map_of (viConfigMap vi) ++ map_of (rev delta)) key = Some cg" by (simp add: map_add_Some_iff)
  then show ?thesis using map_of_SomeD [OF cg] by (auto simp: computeUpdateResult_def map_of_fold_update)
qed

lemma verifyDelta_None:
  "verifyDelta msp vi sds (key, value) = None \<longleftrightarrow>
     validateModPolicy (modPolicy value) = None \<and>
     (case map_of (viConfigMap vi) key of
        None \<Rightarrow> version value = 0
      | Some existing \<Rightarrow>
          version value = version existing + 1 \<and>
          (\<exists>policy. policyForItem vi existing = Inr (Some policy) \<and> EvaluateSignedData msp policy sds))"
  by (auto simp: verifyDelta_def split: option.splits sum.splits if_splits)

lemma verifyDeltaSet_None:
  "verifyDeltaSet msp vi delta sds = None \<longleftrightarrow>
     delta \<noteq> [] \<and> (\<forall>kv \<in> set delta. verifyDelta msp vi sds kv = None)"
  by (simp add: verifyDeltaSet_def)

lemma fixItem_version: "version (cg\<lparr>cmpItem := fixItem b (cmpItem cg)\<rparr>) = version cg"
  by (cases "cmpItem cg") (simp_all add: version_def fixIf_sel)

lemma shallow_version: "shallow (cmpItem a) (cmpItem b) \<Longrightarrow> version a = version b"
  by (cases "cmpItem a"; cases "cmpItem b") (simp_all add: version_def)

lemma rebuilt_version:
  assumes "shallow (fixItem b (cmpItem cg)) (cmpItem cg')"
  shows "version cg' = version cg"
  using shallow_version [of "cg\<lparr>cmpItem := fixItem b (cmpItem cg)\<rparr>" cg'] assms fixItem_version [where cg = cg and b = b] by simp

text \<open>What an accepted update may have done to one element of the new configuration.\<close>

definition unchanged :: "comparable \<Rightarrow> comparable \<Rightarrow> bool" where
  "unchanged old cg \<longleftrightarrow> shallow (cmpItem old) (cmpItem cg) \<or> shallow (fixItem True (cmpItem old)) (cmpItem cg)"

definition authorised :: "msp_lib \<Rightarrow> ValidatorImpl \<Rightarrow> SignedData list \<Rightarrow> comparable \<Rightarrow> bool" where
  "authorised msp vi sds old \<longleftrightarrow>
     (case policyForItem vi old of
        Inr (Some policy) \<Rightarrow> EvaluateSignedData msp policy sds
      | _ \<Rightarrow> False)"

lemma fixItem_False [simp]: "fixItem False i = i"
  by (cases i) (simp_all add: fixIf_def)

lemma fixItem_unchanged: "shallow (fixItem b (cmpItem old)) (cmpItem cg) \<Longrightarrow> unchanged old cg"
  by (cases b) (simp_all add: unchanged_def)

lemma accepted_element:
  assumes a: "authorizeUpdate c msp vi (Some cue) = Inr full"
    and g: "configMapToConfig full (viNamespace vi) = Inr g"
    and sds: "ConfigUpdateEnvelopeAsSignedData c (Some cue) = Inr sds"
    and cg': "cg' \<in> set (elements [viNamespace vi] g)"
  shows "case map_of (viConfigMap vi) (fqPath cg') of
           None \<Rightarrow> version cg' = 0
         | Some old \<Rightarrow> unchanged old cg' \<or> version cg' = version old + 1 \<and> authorised msp vi sds old"
proof -
  from authorizeUpdate_Inr [OF a] sds obtain delta where
    v: "verifyDeltaSet msp vi delta sds = None" and full: "full = computeUpdateResult vi delta"
    by (metis Inr_inject)
  from g have "recurseConfigMap (pathString [viNamespace vi]) full = Inr g"
    by (simp add: configMapToConfig_def pathString_def)
  from rebuilt_element [OF this _ cg'] obtain cg where
    cg: "map_of full (fqPath cg') = Some cg" and sh: "shallow (fixItem (hasCapabilities full) (cmpItem cg)) (cmpItem cg')"
    by auto
  note ver = rebuilt_version [OF sh]
  from computeUpdateResult_lookup [OF cg [unfolded full]] show ?thesis
  proof
    assume "(fqPath cg', cg) \<in> set delta"
    with v have "verifyDelta msp vi sds (fqPath cg', cg) = None" by (auto simp: verifyDeltaSet_None)
    then show ?thesis by (auto simp: verifyDelta_None ver authorised_def split: option.splits)
  next
    assume "map_of (viConfigMap vi) (fqPath cg') = Some cg \<and> fqPath cg' \<notin> fst ` set delta"
    then show ?thesis using fixItem_unchanged [OF sh] by simp
  qed
qed

text \<open>Groups of the map have distinct members, as the maps of a decoded configuration have.\<close>

definition item_distinct :: "cfg_item \<Rightarrow> bool" where
  "item_distinct i = (case i of
      CGroup g \<Rightarrow> distinct (map fst (cgGroups g)) \<and> distinct (map fst (cgValues g)) \<and> distinct (map fst (cgPolicies g))
    | _ \<Rightarrow> True)"

definition map_distinct :: "config_map \<Rightarrow> bool" where
  "map_distinct m \<longleftrightarrow> (\<forall>(k, cg) \<in> set m. item_distinct (cmpItem cg))"

lemma group_distinct_sel:
  "group_distinct g \<longleftrightarrow> item_distinct (CGroup g) \<and> (\<forall>(k, h) \<in> set (cgGroups g). group_distinct h)"
  by (cases g) (auto simp: item_distinct_def list_all_iff)

lemma elements_distinct:
  assumes "group_distinct g" and "cg \<in> set (elements path g)"
  shows "item_distinct (cmpItem cg)"
  using assms
proof (induction g arbitrary: path rule: measure_induct_rule [of size])
  case (less g)
  from less.prems(2) show ?case
  proof (cases rule: elements_sel_cases)
    case root
    then show ?thesis using less.prems(1) group_distinct_sel [of g] by simp
  next
    case (group k h)
    moreover from group(1) less.prems(1) have "group_distinct h" by (auto simp: group_distinct_sel [of g])
    ultimately show ?thesis using less.IH [OF size_subgroup [OF group(1)]] by simp
  qed (simp_all add: item_distinct_def)
qed

lemma recurseConfigMap_distinct:
  assumes "recurseConfigMap path m = Inr g'" and "map_distinct m"
  shows "group_distinct g'"
  using assms(1)
proof (induction g' arbitrary: path rule: measure_induct_rule [of size])
  case (less g')
  from less.prems obtain rg g groups vs ps where
    rg: "map_of m (groupPrefix @ path) = Some rg" "cmpItem rg = CGroup g"
    and gs: "subGroups path m (map fst (cgGroups g)) = Inr groups"
    and vs: "res_map (valueAt m path) (map fst (cgValues g)) = Inr vs"
    and ps: "res_map (policyAt m path) (map fst (cgPolicies g)) = Inr ps"
    and g': "g' = fixIf (hasCapabilities m) (ConfigGroup (cgVersion g) groups vs ps (cgModPolicy g))"
    unfolding recurseConfigMap_Inr by blast
  note gs' = gs [unfolded subGroups_Inr]
  have "item_distinct (CGroup g)" using assms(2) map_of_SomeD [OF rg(1)] rg(2) by (force simp: map_distinct_def)
  then have "item_distinct (CGroup g')"
    using list_all2_fst [OF gs'] vs ps by (simp add: item_distinct_def g' fixIf_sel res_map_valueAt res_map_policyAt)
  moreover have "group_distinct h" if kh: "(k, h) \<in> set (cgGroups g')" for k h
  proof -
    from kh have "(k, h) \<in> set groups" by (simp add: g' fixIf_sel)
    from list_all2_in [OF gs' this] less.IH [OF size_subgroup [OF kh]] show ?thesis by simp
  qed
  ultimately show ?case by (auto simp: group_distinct_sel [of g'])
qed

lemma addEntries_set: "set (addEntries cgs r) \<subseteq> set r \<union> (\<lambda>cg. (fqPath cg, cg)) ` set cgs"
proof (induction cgs arbitrary: r)
  case Nil
  then show ?case by (simp add: addEntries_simps)
next
  case (Cons x cgs)
  have "set (AList.update (fqPath x) x r) \<subseteq> insert (fqPath x, x) (set r)"
    by (induction r) auto
  with Cons.IH [of "AList.update (fqPath x) x r"] show ?case by (auto simp: addEntries_simps)
qed

lemma mapConfig_distinct:
  assumes "mapConfig og root = Inr m" and "\<forall>g. og = Some g \<longrightarrow> group_distinct g"
  shows "map_distinct m"
proof (cases og)
  case None
  with assms show ?thesis by (simp add: mapConfig_def map_distinct_def)
next
  case (Some g)
  with assms(1) have m: "m = addEntries (elements [root] g) []" by (simp add: mapConfig_def recurseConfig_iff)
  have "item_distinct (cmpItem cg)" if "(k, cg) \<in> set m" for k cg
    using that addEntries_set [of "elements [root] g" "[]"] elements_distinct [of g cg "[root]"] assms(2) Some
    by (auto simp: m)
  then show ?thesis by (auto simp: map_distinct_def)
qed

lemma computeUpdateResult_distinct:
  assumes "map_distinct (viConfigMap vi)" and "map_distinct delta"
  shows "map_distinct (computeUpdateResult vi delta)"
proof -
  have "map_distinct (fold (\<lambda>(key, value). AList.update key value) d m)" if "map_distinct m" "map_distinct d" for d m
    using that
  proof (induction d arbitrary: m)
    case Nil
    then show ?case by simp
  next
    case (Cons kv d)
    obtain k v where kv: "kv = (k, v)" by (cases kv)
    have "set (AList.update k v m) \<subseteq> insert (k, v) (set m)" by (induction m) auto
    then have "map_distinct (AList.update k v m)" using Cons.prems kv by (auto simp: map_distinct_def)
    with Cons kv show ?case by (simp add: map_distinct_def)
  qed
  with assms show ?thesis by (simp add: computeUpdateResult_def)
qed

lemma computeDeltaSet_subset: "set (computeDeltaSet r w) \<subseteq> set w"
  by (auto simp: computeDeltaSet_def)

section \<open>A sample channel\<close>

definition null_codec :: codec where
  "null_codec =
     \<lparr>unEnvelope = (\<lambda>_. None), unPayload = (\<lambda>_. None), unHeader = (\<lambda>_. None), unChannelHeader = (\<lambda>_. None),
      unSignatureHeader = (\<lambda>_. None), unBlock = (\<lambda>_. None), unMetadata = (\<lambda>_. None),
      unOrdererBlockMetadata = (\<lambda>_. None), unLastConfig = (\<lambda>_. None), unConfig = (\<lambda>_. None),
      unConfigEnvelope = (\<lambda>_. None), unConfigUpdate = (\<lambda>_. None), unConfigUpdateEnvelope = (\<lambda>_. None),
      maEnvelope = (\<lambda>_. None), maPayload = (\<lambda>_. None), maHeader = (\<lambda>_. None), maChannelHeader = (\<lambda>_. None),
      maSignatureHeader = (\<lambda>_. None), maMetadata = (\<lambda>_. None), maOrdererBlockMetadata = (\<lambda>_. None),
      maLastConfig = (\<lambda>_. None), maConfigEnvelope = (\<lambda>_. None)\<rparr>"

text \<open>A codec that decodes one update with the given read set, write set and signers.\<close>

definition update_codec :: "ConfigGroup \<Rightarrow> ConfigGroup \<Rightarrow> bytes list \<Rightarrow> codec" where
  "update_codec readSet writeSet signers =
     null_codec\<lparr>
       unPayload := (\<lambda>b. if b = [1] then Some \<lparr>plHeader = Some \<lparr>hdrChannelHeader = Some [2], hdrSignatureHeader = Some [3]\<rparr>, plData = [4]\<rparr> else None),
       unChannelHeader := (\<lambda>b. if b = [2] then Some (MakeChannelHeader 0 HeaderType_CONFIG_UPDATE 0 ''mychannel'' 0) else None),
       unConfigUpdateEnvelope := (\<lambda>b. if b = [4] then Some \<lparr>cueConfigUpdate = [5],
          cueSignatures = map (\<lambda>s. \<lparr>csSignatureHeader = s, csSignature = [9]\<rparr>) signers\<rparr> else None),
       unSignatureHeader := (\<lambda>b. Some \<lparr>shCreator = b, shNonce = []\<rparr>),
       unConfigUpdate := (\<lambda>b. if b = [5] then Some \<lparr>cuChannelId = ''mychannel'', cuReadSet = Some readSet, cuWriteSet = Some writeSet\<rparr> else None)\<rparr>"

definition update_tx :: Envelope where
  "update_tx = \<lparr>Payload = Some [1], Signature = []\<rparr>"

definition sample_read :: ConfigGroup where
  "sample_read = ConfigGroup 0 [(''Orderer'', ConfigGroup 0 [] [] [] '''')] [] [] ''''"

definition sample_write :: ConfigGroup where
  "sample_write = ConfigGroup 0
     [(''Orderer'', ConfigGroup 1 [] [(''BatchSize'', \<lparr>cvVersion = 0, cvValue = [10], cvModPolicy = ''Admins''\<rparr>)] [] ''Admins'')] [] [] ''''"

definition sample_vi :: ValidatorImpl where
  "sample_vi = (case NewValidatorImpl ''mychannel'' (Some \<lparr>cfgSequence = 6, cfgChannelGroup = Some sample_root\<rparr>) ''Channel'' sample_manager of
     Inr vi \<Rightarrow> vi
   | Inl _ \<Rightarrow> \<lparr>viChannelID = [], viSequence = 0, viConfigMap = [], viConfigProto = \<lparr>cfgSequence = 0, cfgChannelGroup = None\<rparr>,
               viNamespace = [], viPm = ManagerImpl [] [] []\<rparr>)"

definition sample_uc :: codec where
  "sample_uc = update_codec sample_read sample_write [[1], [2]]"

definition sample_result :: ConfigGroup where
  "sample_result = ConfigGroup 0
     [(''Orderer'', ConfigGroup 1 [] [(''BatchSize'', \<lparr>cvVersion = 0, cvValue = [10], cvModPolicy = ''Admins''\<rparr>)] [] ''Admins'')]
     [] [(''Admins'', \<lparr>cpVersion = 0, cpPolicy = Some \<lparr>PolicyType = 3, PolicyValue = []\<rparr>, cpModPolicy = ''Admins''\<rparr>)] ''Admins''"

definition sample_env :: ConfigEnvelope where
  "sample_env = \<lparr>ceConfig = Some \<lparr>cfgSequence = 7, cfgChannelGroup = Some sample_result\<rparr>, ceLastUpdate = Some update_tx\<rparr>"

lemma sample_propose: "proposeConfigUpdate sample_uc sample_msp sample_vi update_tx = Inr sample_env"
  by code_simp

section \<open>Properties\<close>

text \<open>
  C21. Every change an accepted configuration update makes is authorised.  For every element of the proposed
  configuration tree: an element the current configuration does not have is at version 0; an element it has is either
  unchanged (its version, its modification policy, its value and the names of its members; an empty
  modification policy may have been replaced by \<open>Admins\<close>), or it is exactly one version ahead and the
  modification policy of the current element, resolved in the current policy managers, is satisfied by the signatures of
  the update.
\<close>

theorem config_update_authorised:
  assumes "proposeConfigUpdate c msp vi tx = Inr env"
    and "EnvelopeToConfigUpdate c tx = Inr cue" and "ConfigUpdateEnvelopeAsSignedData c (Some cue) = Inr sds"
    and "ceConfig env = Some cfg" and "cfgChannelGroup cfg = Some g"
    and "cg \<in> set (elements [viNamespace vi] g)"
  shows "case map_of (viConfigMap vi) (fqPath cg) of
           None \<Rightarrow> version cg = 0
         | Some old \<Rightarrow> unchanged old cg \<or> version cg = version old + 1 \<and> authorised msp vi sds old"
proof -
  from proposeConfigUpdate_Inr [OF assms(1)] assms(2,4,5) obtain full where
    "authorizeUpdate c msp vi (Some cue) = Inr full" "configMapToConfig full (viNamespace vi) = Inr g"
    by (metis ConfigEnvelope.select_convs(1) Config.select_convs(2) Inr_inject option.inject)
  from accepted_element [OF this assms(3,6)] show ?thesis .
qed

lemma sample_parts:
  "EnvelopeToConfigUpdate sample_uc update_tx = Inr \<lparr>cueConfigUpdate = [5],
     cueSignatures = [\<lparr>csSignatureHeader = [1], csSignature = [9]\<rparr>, \<lparr>csSignatureHeader = [2], csSignature = [9]\<rparr>]\<rparr>"
  "ConfigUpdateEnvelopeAsSignedData sample_uc (Some \<lparr>cueConfigUpdate = [5],
     cueSignatures = [\<lparr>csSignatureHeader = [1], csSignature = [9]\<rparr>, \<lparr>csSignatureHeader = [2], csSignature = [9]\<rparr>]\<rparr>)
   = Inr [\<lparr>sdData = [1, 5], sdIdentity = [1], sdSignature = [9]\<rparr>, \<lparr>sdData = [2, 5], sdIdentity = [2], sdSignature = [9]\<rparr>]"
  by code_simp+

theorem config_update_authorised_witness:
  "\<exists>cg old. cg \<in> set (elements [''Channel''] sample_result) \<and> map_of (viConfigMap sample_vi) (fqPath cg) = Some old
     \<and> version cg = 1 \<and> version old = 0
     \<and> (unchanged old cg \<or> version cg = version old + 1 \<and> authorised sample_msp sample_vi
          [\<lparr>sdData = [1, 5], sdIdentity = [1], sdSignature = [9]\<rparr>, \<lparr>sdData = [2, 5], sdIdentity = [2], sdSignature = [9]\<rparr>] old)"
proof -
  let ?cg = "elements [''Channel''] sample_result ! 1"
  have ns: "viNamespace sample_vi = ''Channel''" by code_simp
  have l: "length (elements [''Channel''] sample_result) = 4" by code_simp
  then have el: "?cg \<in> set (elements [viNamespace sample_vi] sample_result)"
    using nth_mem [of 1 "elements [''Channel''] sample_result"] by (simp only: ns)
  have v: "version ?cg = 1" by code_simp
  have "case map_of (viConfigMap sample_vi) (fqPath ?cg) of None \<Rightarrow> False | Some old \<Rightarrow> version old = 0" by code_simp
  then obtain old where o: "map_of (viConfigMap sample_vi) (fqPath ?cg) = Some old" "version old = 0"
    by (auto split: option.splits)
  from config_update_authorised [OF sample_propose sample_parts _ _ el] o have
    "unchanged old ?cg \<or> version ?cg = version old + 1 \<and> authorised sample_msp sample_vi
       [\<lparr>sdData = [1, 5], sdIdentity = [1], sdSignature = [9]\<rparr>, \<lparr>sdData = [2, 5], sdIdentity = [2], sdSignature = [9]\<rparr>] old"
    by (simp add: sample_env_def)
  with o v el ns show ?thesis by auto
qed

text \<open>
  C24. Validating a configuration and proposing one agree: \<open>Validate\<close> accepts a configuration envelope exactly when
  its last update, proposed to the same validator, gives a configuration with the sequence number of the envelope
  and a channel group that \<open>proto.Equal\<close> cannot tell from the one in the envelope.  So an orderer accepts
  in a block exactly the configurations it would itself have produced from the signed update.
\<close>

theorem Validate_iff_propose:
  "Validate c msp vi (Some env) = None \<longleftrightarrow>
     (\<exists>cfg tx g g'. ceConfig env = Some cfg \<and> ceLastUpdate env = Some tx \<and> cfgChannelGroup cfg = Some g
        \<and> proposeConfigUpdate c msp vi tx =
            Inr \<lparr>ceConfig = Some \<lparr>cfgSequence = cfgSequence cfg, cfgChannelGroup = Some g'\<rparr>, ceLastUpdate = Some tx\<rparr>
        \<and> protoEqual g' g)"
proof (cases "ceConfig env")
  case None
  then show ?thesis by (simp add: Validate_def)
next
  case (Some cfg)
  note cfg = this
  show ?thesis
  proof (cases "ceLastUpdate env")
    case None
    with cfg show ?thesis by (auto simp: Validate_def)
  next
    case (Some tx)
    define r where "r = res_bind (wrap UpdProto (EnvelopeToConfigUpdate c tx)) (\<lambda>configUpdateEnv.
        res_bind (authorizeUpdate c msp vi (Some configUpdateEnv)) (\<lambda>configMap.
        wrap UpdMap (configMapToConfig configMap (viNamespace vi))))"
    have p: "proposeConfigUpdate c msp vi tx = Inr \<lparr>ceConfig = Some \<lparr>cfgSequence = s, cfgChannelGroup = Some g'\<rparr>, ceLastUpdate = Some tx\<rparr>
        \<longleftrightarrow> r = Inr g' \<and> s = viSequence vi + 1" for s g'
      by (auto simp: proposeConfigUpdate_def r_def)
    have "Validate c msp vi (Some env) = None \<longleftrightarrow> cfgSequence cfg = viSequence vi + 1 \<and>
        (\<exists>g g'. r = Inr g' \<and> cfgChannelGroup cfg = Some g \<and> protoEqual g' g)"
      by (simp add: Validate_def cfg Some flip: r_def) (auto split: option.splits sum.splits)
    then show ?thesis by (auto simp: p cfg Some)
  qed
qed

lemma protoEquals_iff:
  "protoEquals gs hs \<longleftrightarrow> (\<forall>(k, g) \<in> set gs. \<exists>h. map_of hs k = Some h \<and> protoEqual g h)"
  by (induction gs) (auto split: option.splits)

lemma mapEqual_refl: "distinct (map fst xs) \<Longrightarrow> mapEqual xs xs"
  by (auto simp: mapEqual_def list_all_iff)

lemma protoEqual_refl: "group_distinct g \<Longrightarrow> protoEqual g g"
proof (induction g rule: measure_induct_rule [of size])
  case (less g)
  obtain ver groups vs ps mp where g: "g = ConfigGroup ver groups vs ps mp" by (cases g)
  have "\<exists>h'. map_of groups k = Some h' \<and> protoEqual h h'" if kh: "(k, h) \<in> set groups" for k h
  proof -
    have "size h < size g" using size_subgroup [of k h g] g kh by simp
    moreover have "group_distinct h" using less.prems kh by (auto simp: g list_all_iff)
    ultimately show ?thesis using less.IH less.prems kh by (auto simp: g)
  qed
  with less.prems show ?case by (auto simp: g mapEqual_refl protoEquals_iff)
qed

text \<open>A validator, and the updates it decodes, whose maps have distinct keys; Go maps have.\<close>

definition updates_distinct :: "codec \<Rightarrow> bool" where
  "updates_distinct c \<longleftrightarrow>
     (\<forall>b cu g. unConfigUpdate c b = Some cu \<longrightarrow> cuReadSet cu = Some g \<or> cuWriteSet cu = Some g \<longrightarrow> group_distinct g)"

lemma authorizeUpdate_distinct:
  assumes "authorizeUpdate c msp vi (Some cue) = Inr full" and "updates_distinct c" and "map_distinct (viConfigMap vi)"
  shows "map_distinct full"
proof -
  from authorizeUpdate_Inr [OF assms(1)] obtain cu readSet writeSet where
    cu: "unConfigUpdate c (cueConfigUpdate cue) = Some cu" and w: "mapConfig (cuWriteSet cu) (viNamespace vi) = Inr writeSet"
    and full: "full = computeUpdateResult vi (computeDeltaSet readSet writeSet)" by metis
  have "map_distinct writeSet"
    using mapConfig_distinct [OF w] assms(2) cu by (auto simp: updates_distinct_def)
  then have "map_distinct (computeDeltaSet readSet writeSet)"
    using computeDeltaSet_subset [of readSet writeSet] by (auto simp: map_distinct_def)
  with assms(3) show ?thesis unfolding full by (rule computeUpdateResult_distinct)
qed

lemma NewValidatorImpl_Inr:
  assumes "NewValidatorImpl cid cfg ns pm = Inr vi"
  obtains cf g where "cfg = Some cf" "cfgChannelGroup cf = Some g" "mapConfig (Some g) ns = Inr (viConfigMap vi)"
    "viChannelID vi = cid" "viNamespace vi = ns" "viSequence vi = cfgSequence cf" "viPm vi = pm"
  using assms by (auto simp: NewValidatorImpl_def split: option.splits if_splits)

text \<open>
  C22. An update cannot be applied twice.  When an accepted update gives a configuration with an element that is
  new or has another version than before, the validator built from that configuration (with any policy managers) rejects
  the same update: the element's version is not one ahead any more, whatever the versions, also when
  they wrap around.
\<close>

theorem config_update_not_replayed:
  assumes "proposeConfigUpdate c msp vi tx = Inr env" and "ceConfig env = Some cfg" and "cfgChannelGroup cfg = Some g"
    and "cg \<in> set (elements [viNamespace vi] g)"
    and "\<forall>old. map_of (viConfigMap vi) (fqPath cg) = Some old \<longrightarrow> version old \<noteq> version cg"
    and "NewValidatorImpl (viChannelID vi) (Some cfg) (viNamespace vi) pm = Inr vi'"
    and "updates_distinct c" and "map_distinct (viConfigMap vi)"
  shows "\<exists>e. proposeConfigUpdate c msp vi' tx = Inl e"
proof (rule ccontr)
  assume "\<nexists>e. proposeConfigUpdate c msp vi' tx = Inl e"
  then obtain env' where env': "proposeConfigUpdate c msp vi' tx = Inr env'"
    by (cases "proposeConfigUpdate c msp vi' tx") auto
  from proposeConfigUpdate_Inr [OF assms(1)] assms(2,3) obtain cue full where
    cue: "EnvelopeToConfigUpdate c tx = Inr cue" and full: "authorizeUpdate c msp vi (Some cue) = Inr full"
    and g: "configMapToConfig full (viNamespace vi) = Inr g"
    by (metis ConfigEnvelope.select_convs(1) Config.select_convs(2) option.inject)
  from proposeConfigUpdate_Inr [OF env'] cue obtain full' where
    full': "authorizeUpdate c msp vi' (Some cue) = Inr full'" by (metis Inr_inject)
  have rec: "recurseConfigMap (pathString [viNamespace vi]) full = Inr g"
    using g by (simp add: configMapToConfig_def pathString_def)
  from assms(6) assms(3) have m': "mapConfig (Some g) (viNamespace vi) = Inr (viConfigMap vi')" and ns: "viNamespace vi' = viNamespace vi"
    by (auto elim!: NewValidatorImpl_Inr)
  have "group_distinct g"
    by (rule recurseConfigMap_distinct [OF rec authorizeUpdate_distinct [OF full assms(7,8)]])
  from map_of_mapConfig [OF m' this] assms(4) have at: "map_of (viConfigMap vi') (fqPath cg) = Some cg" by simp
  obtain cu readSet writeSet where
    cu: "unConfigUpdate c (cueConfigUpdate cue) = Some cu"
    and rs: "mapConfig (cuReadSet cu) (viNamespace vi) = Inr readSet" "mapConfig (cuWriteSet cu) (viNamespace vi) = Inr writeSet"
    and fu: "full = computeUpdateResult vi (computeDeltaSet readSet writeSet)"
    using authorizeUpdate_Inr [OF full] by metis
  obtain sds where v: "verifyDeltaSet msp vi' (computeDeltaSet readSet writeSet) sds = None"
    using authorizeUpdate_Inr [OF full'] cu rs unfolding ns by (metis Inr_inject option.inject)
  from rebuilt_element [OF rec _ assms(4)] obtain e where
    e: "map_of full (fqPath cg) = Some e" "shallow (fixItem (hasCapabilities full) (cmpItem e)) (cmpItem cg)" by auto
  have "(fqPath cg, e) \<in> set (computeDeltaSet readSet writeSet)"
    using computeUpdateResult_lookup [OF e(1) [unfolded fu]] assms(5) rebuilt_version [OF e(2)] by auto
  with v have "verifyDelta msp vi' sds (fqPath cg, e) = None" by (auto simp: verifyDeltaSet_None)
  then show False using at rebuilt_version [OF e(2)] by (simp add: verifyDelta_None)
qed

definition sample_vi2 :: ValidatorImpl where
  "sample_vi2 = (case NewValidatorImpl ''mychannel'' (Some \<lparr>cfgSequence = 7, cfgChannelGroup = Some sample_result\<rparr>) ''Channel'' sample_manager of
     Inr vi \<Rightarrow> vi | Inl _ \<Rightarrow> sample_vi)"

lemma sample_vi2_new:
  "NewValidatorImpl ''mychannel'' (Some \<lparr>cfgSequence = 7, cfgChannelGroup = Some sample_result\<rparr>) ''Channel'' sample_manager = Inr sample_vi2"
proof -
  have "case NewValidatorImpl ''mychannel'' (Some \<lparr>cfgSequence = 7, cfgChannelGroup = Some sample_result\<rparr>) ''Channel'' sample_manager of
      Inr vi \<Rightarrow> True | Inl _ \<Rightarrow> False" by code_simp
  then show ?thesis by (auto simp: sample_vi2_def split: sum.splits)
qed

theorem config_update_not_replayed_witness:
  "proposeConfigUpdate sample_uc sample_msp sample_vi update_tx = Inr sample_env
   \<and> (\<exists>e. proposeConfigUpdate sample_uc sample_msp sample_vi2 update_tx = Inl e)"
proof -
  let ?cg = "elements [''Channel''] sample_result ! 1"
  have id: "viNamespace sample_vi = ''Channel''" "viChannelID sample_vi = ''mychannel''" by code_simp+
  have "length (elements [''Channel''] sample_result) = 4" by code_simp
  then have el: "?cg \<in> set (elements [viNamespace sample_vi] sample_result)"
    using nth_mem [of 1 "elements [''Channel''] sample_result"] by (simp only: id)
  have "case map_of (viConfigMap sample_vi) (fqPath ?cg) of None \<Rightarrow> False | Some old \<Rightarrow> version old \<noteq> version ?cg" by code_simp
  then have ch: "\<forall>old. map_of (viConfigMap sample_vi) (fqPath ?cg) = Some old \<longrightarrow> version old \<noteq> version ?cg"
    by auto
  have "group_distinct sample_read" "group_distinct sample_write" by code_simp+
  then have ud: "updates_distinct sample_uc"
    by (auto simp: updates_distinct_def sample_uc_def update_codec_def split: if_splits)
  have "list_all (\<lambda>(k, cg). item_distinct (cmpItem cg)) (viConfigMap sample_vi)" by code_simp
  then have md: "map_distinct (viConfigMap sample_vi)" by (simp add: map_distinct_def list_all_iff)
  have cfg: "ceConfig sample_env = Some \<lparr>cfgSequence = 7, cfgChannelGroup = Some sample_result\<rparr>"
    and gr: "cfgChannelGroup \<lparr>cfgSequence = 7, cfgChannelGroup = Some sample_result\<rparr> = Some sample_result"
    by (simp_all add: sample_env_def)
  note new = sample_vi2_new [folded id]
  have "\<exists>e. proposeConfigUpdate sample_uc sample_msp sample_vi2 update_tx = Inl e"
    by (rule config_update_not_replayed [OF sample_propose cfg gr el ch new ud md])
  with sample_propose show ?thesis by simp
qed

text \<open>An update whose write set only adds a subgroup under the root, at the root's current version.\<close>

definition orphanUpdate :: "string \<Rightarrow> u64 \<Rightarrow> string \<Rightarrow> string \<Rightarrow> ConfigUpdate" where
  "orphanUpdate cid ver k mp =
     \<lparr>cuChannelId = cid, cuReadSet = Some (ConfigGroup ver [] [] [] []),
      cuWriteSet = Some (ConfigGroup ver [(k, ConfigGroup 0 [] [] [] mp)] [] [] [])\<rparr>"

definition orphanElement :: "string \<Rightarrow> string \<Rightarrow> string \<Rightarrow> comparable" where
  "orphanElement ns k mp = \<lparr>cmpItem = CGroup (ConfigGroup 0 [] [] [] mp), cmpKey = k, cmpPath = [ns]\<rparr>"

lemma fqPath_group: "fqPath \<lparr>cmpItem = CGroup g, cmpKey = k, cmpPath = p\<rparr> = groupPrefix @ pathString (p @ [k])"
  by (simp add: fqPath_position)

lemma orphan_sets:
  assumes "validateConfigID ns = None" and "validateConfigID k = None"
  shows "mapConfig (cuReadSet (orphanUpdate cid ver k mp)) ns =
      Inr [(groupPrefix @ pathString [ns], \<lparr>cmpItem = CGroup (ConfigGroup ver [] [] [] []), cmpKey = ns, cmpPath = []\<rparr>)]"
    and "\<exists>r. mapConfig (cuWriteSet (orphanUpdate cid ver k mp)) ns =
      Inr [(groupPrefix @ pathString [ns], r), (groupPrefix @ pathString [ns, k], orphanElement ns k mp)] \<and> version r = ver"
  using assms
  by (simp_all add: orphanUpdate_def mapConfig_def addToMap_def fqPath_group orphanElement_def version_def pathString_def pathSeparator_def)

lemma orphan_delta:
  assumes "version r = ver" and "pathString [ns] \<noteq> pathString [ns, k]"
  shows "computeDeltaSet [(groupPrefix @ pathString [ns], \<lparr>cmpItem = CGroup (ConfigGroup ver [] [] [] []), cmpKey = ns, cmpPath = []\<rparr>)]
     [(groupPrefix @ pathString [ns], r), (groupPrefix @ pathString [ns, k], orphanElement ns k mp)]
   = [(groupPrefix @ pathString [ns, k], orphanElement ns k mp)]"
  using assms by (simp add: computeDeltaSet_def version_def)

text \<open>
  C27. The other side of the authorisation rule: an update that adds a group under the root without raising the root's
  version is accepted with no signature at all.  No modification policy is evaluated, because the new element does not exist and
  the root is not in the delta set; the group is not in the resulting tree either, because the root does not list it.
  The result is the current tree (with empty modification policies replaced when the capabilities are on)
  under the next sequence number, and the update can be submitted again.
\<close>

theorem orphan_update_unsigned:
  assumes "NewValidatorImpl cid (Some cfg) ns pm = Inr vi" and "cfgChannelGroup cfg = Some root" and "group_distinct root"
    and "EnvelopeToConfigUpdate c tx = Inr \<lparr>cueConfigUpdate = b, cueSignatures = []\<rparr>"
    and "unConfigUpdate c b = Some (orphanUpdate cid (cgVersion root) k mp)"
    and "k \<notin> fst ` set (cgGroups root)" and "validateConfigID k = None" and "validateModPolicy mp = None"
  shows "proposeConfigUpdate c msp vi tx =
    Inr \<lparr>ceConfig = Some \<lparr>cfgSequence = cfgSequence cfg + 1, cfgChannelGroup = Some (upgraded (hasCapabilities (viConfigMap vi)) root)\<rparr>,
         ceLastUpdate = Some tx\<rparr>"
proof -
  let ?key = "groupPrefix @ pathString [ns, k]" and ?o = "orphanElement ns k mp"
  let ?cue = "\<lparr>cueConfigUpdate = b, cueSignatures = []\<rparr>"
  from NewValidatorImpl_Inr [OF assms(1)] assms(2) have m: "mapConfig (Some root) ns = Inr (viConfigMap vi)"
    and vi: "viChannelID vi = cid" "viNamespace vi = ns" "viSequence vi = cfgSequence cfg"
    by (metis option.inject)+
  note look = map_of_mapConfig [OF m assms(3)]
  have valid: "keys_valid (elements [ns] root)" using m by (simp add: mapConfig_def recurseConfig_iff)
  then have ns: "validateConfigID ns = None" using root_in_elements [of root "[ns]"] by (auto simp: keys_valid_def)
  have rootAt: "map_of (viConfigMap vi) (groupPrefix @ pathString [ns]) = Some \<lparr>cmpItem = CGroup root, cmpKey = ns, cmpPath = []\<rparr>"
    using look root_in_elements [of root "[ns]"] by (simp add: fqPath_group)
  have new: "fqPath cg \<noteq> ?key" if cg: "cg \<in> set (elements [ns] root)" for cg
  proof
    assume e: "fqPath cg = ?key"
    have "\<forall>w \<in> set (position cg) \<union> set (position ?o). nameOk w"
      using position_names_ok [OF cg valid] validateConfigID_nameOk [OF ns] validateConfigID_nameOk [OF assms(7)]
      by (simp add: orphanElement_def)
    from fqPath_inj [OF _ this] e have p: "position cg = [ns] @ [k]" and i: "item_prefix (cmpItem cg) = groupPrefix"
      by (simp_all add: orphanElement_def fqPath_group)
    from cg show False
    proof (cases rule: elements_sel_cases)
      case (group k' h)
      from subgroup_position [OF group(2) p] group(1) assms(6) show ?thesis by force
    qed (use p i in auto)
  qed
  then have absent: "map_of (viConfigMap vi) ?key = None" using look by (metis not_None_eq)
  have "pathString [ns] \<noteq> pathString [ns, k]" by (simp add: pathString_def pathSeparator_def)
  moreover obtain r where w: "mapConfig (cuWriteSet (orphanUpdate cid (cgVersion root) k mp)) ns =
      Inr [(groupPrefix @ pathString [ns], r), (?key, ?o)]" "version r = cgVersion root"
    using orphan_sets(2) [OF ns assms(7)] by blast
  ultimately have auth: "authorizeUpdate c msp vi (Some ?cue) = Inr (computeUpdateResult vi [(?key, ?o)])"
    using orphan_sets(1) [OF ns assms(7), of cid "cgVersion root" mp] w assms(5,8) vi rootAt absent
      orphan_delta [of r "cgVersion root" ns k mp]
    by (auto simp: authorizeUpdate_def UnmarshalConfigUpdate_def ConfigUpdateEnvelopeAsSignedData_def wrap_def check_def
        verifyReadSet_def verifyRead_def verifyDeltaSet_def verifyDelta_def verifyFullProposedConfig_def
        computeUpdateResult_def version_def modPolicy_def orphanElement_def update_conv' orphanUpdate_def)
  have full: "map_of (computeUpdateResult vi [(?key, ?o)]) = (map_of (viConfigMap vi))(?key \<mapsto> ?o)"
    by (simp add: computeUpdateResult_def update_conv')
  have "\<forall>cg \<in> set (elements [ns] root). map_of (computeUpdateResult vi [(?key, ?o)]) (fqPath cg) = Some cg"
    using look new by (simp add: full)
  from rebuild [OF this] have "configMapToConfig (computeUpdateResult vi [(?key, ?o)]) ns =
      Inr (upgraded (hasCapabilities (computeUpdateResult vi [(?key, ?o)])) root)"
    by (simp add: configMapToConfig_def pathString_def)
  moreover have "hasCapabilities (computeUpdateResult vi [(?key, ?o)]) = hasCapabilities (viConfigMap vi)"
    unfolding hasCapabilities_def full by (simp add: hackyFixOrdererCapabilities_def groupPrefix_def)
  ultimately show ?thesis using assms(4) auth vi by (simp add: proposeConfigUpdate_def wrap_def)
qed

definition orphan_codec :: codec where
  "orphan_codec = update_codec (ConfigGroup 0 [] [] [] []) (ConfigGroup 0 [(''New'', ConfigGroup 0 [] [] [] ''Admins'')] [] [] []) []"

theorem orphan_update_unsigned_witness:
  "proposeConfigUpdate orphan_codec sample_msp sample_vi update_tx =
     Inr \<lparr>ceConfig = Some \<lparr>cfgSequence = 7, cfgChannelGroup = Some sample_root\<rparr>, ceLastUpdate = Some update_tx\<rparr>"
proof -
  let ?cfg = "\<lparr>cfgSequence = 6, cfgChannelGroup = Some sample_root\<rparr>"
  have "case NewValidatorImpl ''mychannel'' (Some ?cfg) ''Channel'' sample_manager of Inr vi \<Rightarrow> True | Inl _ \<Rightarrow> False" by code_simp
  then have n: "NewValidatorImpl ''mychannel'' (Some ?cfg) ''Channel'' sample_manager = Inr sample_vi"
    by (auto simp: sample_vi_def split: sum.splits)
  have d: "group_distinct sample_root" and nc: "\<not> hasCapabilities (viConfigMap sample_vi)"
    and e: "EnvelopeToConfigUpdate orphan_codec update_tx = Inr \<lparr>cueConfigUpdate = [5], cueSignatures = []\<rparr>"
    and k: "''New'' \<notin> fst ` set (cgGroups sample_root)" and v: "validateConfigID ''New'' = None" "validateModPolicy ''Admins'' = None"
    by code_simp+
  have u: "unConfigUpdate orphan_codec [5] = Some (orphanUpdate ''mychannel'' (cgVersion sample_root) ''New'' ''Admins'')"
    by (simp add: orphan_codec_def update_codec_def orphanUpdate_def sample_root_def)
  have g: "cfgChannelGroup ?cfg = Some sample_root" by simp
  from orphan_update_unsigned [OF n g d e u k v, of sample_msp] nc show ?thesis by (simp add: upgraded_def)
qed

end
