(* ===== verification/ChannelConfig.thy ===== *)
theory ChannelConfig
  imports ConfigTx
begin

text \<open>
  The resources of a channel: capabilities (\<open>common/capabilities\<close>), the orderer, application and consortiums
  sections of a configuration with their checks, and the bundle that holds them together with the policy managers and
  the validator of updates (\<open>common/channelconfig\<close>).

  The bytes of a configuration value are decoded by the protobuf library, a record of functions here.  Setting up a
  membership service provider from its certificates is a parameter: \<open>SetupMSP\<close> gives the identifier of the provider,
  and \<open>SetupManager\<close> the functions the policies use.  \<open>time.ParseDuration\<close> is written out; it computes the fraction
  of a unit exactly, where Go uses a 64-bit float.
\<close>

section \<open>Parsing durations and ports\<close>

definition digit_val :: "char \<Rightarrow> int" where
  "digit_val ch = of_char ch - 48"

fun leadingInt :: "string \<Rightarrow> int \<Rightarrow> (int \<times> string) option" where
  "leadingInt [] x = Some (x, [])"
| "leadingInt (ch # s) x =
     (if \<not> digitchar ch then Some (x, ch # s)
      else if x > (2 ^ 63 - 1) div 10 then None
      else let y = 10 * x + (digit_val ch) in if y \<ge> 2 ^ 63 then None else leadingInt s y)"

text \<open>Digits that would overflow are skipped; the result is the value, its scale, and the rest.\<close>

fun leadingFraction :: "string \<Rightarrow> int \<Rightarrow> int \<Rightarrow> bool \<Rightarrow> int \<times> int \<times> string" where
  "leadingFraction [] x n over = (x, n, [])"
| "leadingFraction (ch # s) x n over =
     (if \<not> digitchar ch then (x, n, ch # s)
      else if over then leadingFraction s x n True
      else if x > (2 ^ 63 - 1) div 10 then leadingFraction s x n True
      else let y = 10 * x + (digit_val ch)
           in if y \<ge> 2 ^ 63 then leadingFraction s x n True else leadingFraction s y (10 * n) False)"

definition unitMap :: "(string \<times> int) list" where
  "unitMap = [(''ns'', 1), (''us'', 1000), ([CHR 0xC2, CHR 0xB5, CHR ''s''], 1000), ([CHR 0xCE, CHR 0xBC, CHR ''s''], 1000),
              (''ms'', 10 ^ 6), (''s'', 10 ^ 9), (''m'', 60 * 10 ^ 9), (''h'', 3600 * 10 ^ 9)]"

definition durChar :: "char \<Rightarrow> bool" where
  "durChar ch \<longleftrightarrow> ch = CHR ''.'' \<or> digitchar ch"

text \<open>One number with its unit: its value in nanoseconds and the rest of the string.\<close>

definition parseUnit :: "string \<Rightarrow> (int \<times> string) option" where
  "parseUnit s =
     (if s = [] \<or> \<not> durChar (hd s) then None
      else case leadingInt s 0 of
        None \<Rightarrow> None
      | Some (v, s1) \<Rightarrow>
          let pre = length s \<noteq> length s1;
              (f, n, s2) = (if s1 \<noteq> [] \<and> hd s1 = CHR ''.'' then leadingFraction (tl s1) 0 1 False else (0, 1, s1));
              post = s1 \<noteq> [] \<and> hd s1 = CHR ''.'' \<and> length (tl s1) \<noteq> length s2
          in if \<not> pre \<and> \<not> post then None
             else case map_of unitMap (takeWhile (\<lambda>ch. \<not> durChar ch) s2) of
               None \<Rightarrow> None
             | Some u \<Rightarrow>
                 if v > (2 ^ 63 - 1) div u then None
                 else let w = v * u + f * u div n
                      in if w \<ge> 2 ^ 63 then None else Some (w, dropWhile (\<lambda>ch. \<not> durChar ch) s2))"

lemma leadingInt_length: "leadingInt s x = Some (v, r) \<Longrightarrow> length r \<le> length s"
  by (induction s x rule: leadingInt.induct) (auto simp: Let_def split: if_splits)

lemma leadingFraction_length: "leadingFraction s x n over = (v, k, r) \<Longrightarrow> length r \<le> length s"
proof (induction s arbitrary: x n over)
  case Nil
  then show ?case by simp
next
  case (Cons ch s)
  have "length r \<le> length s" if "leadingFraction s x' n' o' = (v, k, r)" for x' n' o'
    using Cons.IH [OF that] .
  then show ?case using Cons.prems by (auto simp: Let_def split: if_splits intro: le_SucI)
qed

lemma parseUnit_shorter:
  assumes "parseUnit s = Some (w, r)"
  shows "length r < length s"
proof -
  from assms obtain v s1 where s1: "leadingInt s 0 = Some (v, s1)"
    by (auto simp: parseUnit_def split: if_splits option.splits)
  obtain f n s2 where s2: "(f, n, s2) = (if s1 \<noteq> [] \<and> hd s1 = CHR ''.'' then leadingFraction (tl s1) 0 1 False else (0, 1, s1))"
    by (metis prod_cases3)
  have l1: "length s1 \<le> length s" by (rule leadingInt_length [OF s1])
  have l2: "length s2 \<le> length s1"
    using s2 leadingFraction_length [of "tl s1" 0 1 False f n s2] by (auto split: if_splits)
  from assms s1 s2 [symmetric] have ne: "map_of unitMap (takeWhile (\<lambda>ch. \<not> durChar ch) s2) \<noteq> None"
    and r: "r = dropWhile (\<lambda>ch. \<not> durChar ch) s2"
    by (auto simp: parseUnit_def Let_def split: if_splits option.splits)
  from ne have "takeWhile (\<lambda>ch. \<not> durChar ch) s2 \<noteq> []" by (auto simp: unitMap_def)
  then have "length r < length s2"
    unfolding r by (metis add_less_same_cancel2 length_append length_greater_0_conv takeWhile_dropWhile_id less_add_same_cancel2)
  with l1 l2 show ?thesis by linarith
qed

function parseUnits :: "string \<Rightarrow> int \<Rightarrow> int option" where
  "parseUnits s d =
     (if s = [] then Some d
      else case parseUnit s of
             None \<Rightarrow> None
           | Some (w, r) \<Rightarrow> if d + w \<ge> 2 ^ 63 then None else parseUnits r (d + w))"
  by pat_completeness auto
termination
  by (relation "measure (\<lambda>(s, d). length s)") (auto dest: parseUnit_shorter)

declare parseUnits.simps [simp del]

definition ParseDuration :: "string \<Rightarrow> duration option" where
  "ParseDuration s =
     (let neg = s \<noteq> [] \<and> hd s = CHR ''-'';
          t = (if s \<noteq> [] \<and> (hd s = CHR ''-'' \<or> hd s = CHR ''+'') then tl s else s)
      in if t = ''0'' then Some 0
         else if t = [] then None
         else map_option (\<lambda>d. if neg then - d else d) (parseUnits t 0))"

text \<open>\<open>strconv.ParseUint(s, 10, 16)\<close>.\<close>

definition ParseUint16 :: "string \<Rightarrow> nat option" where
  "ParseUint16 s = (if s = [] \<or> \<not> list_all digitchar s then None
                    else if read_nat s 0 < 2 ^ 16 then Some (read_nat s 0) else None)"

section \<open>Capabilities\<close>

datatype MSPVersion = MSPv1_0 | MSPv1_1 | MSPv1_3 | MSPv1_4_3

record ChannelProvider =
  chpCapabilities :: "string list"
  chpV11 :: bool
  chpV13 :: bool
  chpV142 :: bool
  chpV143 :: bool
  chpV20 :: bool

definition NewChannelProvider :: "string list \<Rightarrow> ChannelProvider" where
  "NewChannelProvider capabilities =
     \<lparr>chpCapabilities = capabilities, chpV11 = ''V1_1'' \<in> set capabilities, chpV13 = ''V1_3'' \<in> set capabilities,
      chpV142 = ''V1_4_2'' \<in> set capabilities, chpV143 = ''V1_4_3'' \<in> set capabilities, chpV20 = ''V2_0'' \<in> set capabilities\<rparr>"

definition ChannelHasCapability :: "string \<Rightarrow> bool" where
  "ChannelHasCapability capability \<longleftrightarrow>
     capability = ''V2_0'' \<or> capability = ''V1_4_3'' \<or> capability = ''V1_4_2'' \<or> capability = ''V1_3'' \<or> capability = ''V1_1''"

definition ChannelMSPVersion :: "ChannelProvider \<Rightarrow> MSPVersion" where
  "ChannelMSPVersion cp =
     (if chpV143 cp \<or> chpV20 cp then MSPv1_4_3
      else if chpV13 cp \<or> chpV142 cp then MSPv1_3
      else if chpV11 cp then MSPv1_1
      else MSPv1_0)"

definition ChannelConsensusTypeMigration :: "ChannelProvider \<Rightarrow> bool" where
  "ChannelConsensusTypeMigration cp \<longleftrightarrow> chpV142 cp \<or> chpV143 cp \<or> chpV20 cp"

definition OrgSpecificOrdererEndpoints :: "ChannelProvider \<Rightarrow> bool" where
  "OrgSpecificOrdererEndpoints cp \<longleftrightarrow> chpV142 cp \<or> chpV143 cp \<or> chpV20 cp"

record OrdererProvider =
  orpCapabilities :: "string list"
  orpV11BugFixes :: bool
  orpV142 :: bool
  orpV20 :: bool

definition NewOrdererProvider :: "string list \<Rightarrow> OrdererProvider" where
  "NewOrdererProvider capabilities =
     \<lparr>orpCapabilities = capabilities, orpV11BugFixes = ''V1_1'' \<in> set capabilities,
      orpV142 = ''V1_4_2'' \<in> set capabilities, orpV20 = ''V2_0'' \<in> set capabilities\<rparr>"

definition OrdererHasCapability :: "string \<Rightarrow> bool" where
  "OrdererHasCapability capability \<longleftrightarrow> capability = ''V1_1'' \<or> capability = ''V1_4_2'' \<or> capability = ''V2_0''"

definition PredictableChannelTemplate :: "OrdererProvider \<Rightarrow> bool" where
  "PredictableChannelTemplate cp \<longleftrightarrow> orpV11BugFixes cp \<or> orpV142 cp \<or> orpV20 cp"

definition Resubmission :: "OrdererProvider \<Rightarrow> bool" where
  "Resubmission cp \<longleftrightarrow> orpV11BugFixes cp \<or> orpV142 cp \<or> orpV20 cp"

definition ExpirationCheck :: "OrdererProvider \<Rightarrow> bool" where
  "ExpirationCheck cp \<longleftrightarrow> orpV11BugFixes cp \<or> orpV142 cp \<or> orpV20 cp"

definition OrdererConsensusTypeMigration :: "OrdererProvider \<Rightarrow> bool" where
  "OrdererConsensusTypeMigration cp \<longleftrightarrow> orpV142 cp \<or> orpV20 cp"

definition UseChannelCreationPolicyAsAdmins :: "OrdererProvider \<Rightarrow> bool" where
  "UseChannelCreationPolicyAsAdmins cp \<longleftrightarrow> orpV20 cp"

record ApplicationProvider =
  appCapabilities :: "string list"
  appV11 :: bool
  appV12 :: bool
  appV13 :: bool
  appV142 :: bool
  appV20 :: bool
  appV11PvtDataExperimental :: bool

definition NewApplicationProvider :: "string list \<Rightarrow> ApplicationProvider" where
  "NewApplicationProvider capabilities =
     \<lparr>appCapabilities = capabilities, appV11 = ''V1_1'' \<in> set capabilities, appV12 = ''V1_2'' \<in> set capabilities,
      appV13 = ''V1_3'' \<in> set capabilities, appV142 = ''V1_4_2'' \<in> set capabilities, appV20 = ''V2_0'' \<in> set capabilities,
      appV11PvtDataExperimental = ''V1_1_PVTDATA_EXPERIMENTAL'' \<in> set capabilities\<rparr>"

definition ACLs :: "ApplicationProvider \<Rightarrow> bool" where
  "ACLs ap \<longleftrightarrow> appV12 ap \<or> appV13 ap \<or> appV142 ap \<or> appV20 ap"

definition ForbidDuplicateTXIdInBlock :: "ApplicationProvider \<Rightarrow> bool" where
  "ForbidDuplicateTXIdInBlock ap \<longleftrightarrow> appV11 ap \<or> appV12 ap \<or> appV13 ap \<or> appV142 ap \<or> appV20 ap"

definition PrivateChannelData :: "ApplicationProvider \<Rightarrow> bool" where
  "PrivateChannelData ap \<longleftrightarrow> appV11PvtDataExperimental ap \<or> appV12 ap \<or> appV13 ap \<or> appV142 ap \<or> appV20 ap"

definition CollectionUpgrade :: "ApplicationProvider \<Rightarrow> bool" where
  "CollectionUpgrade ap \<longleftrightarrow> appV12 ap \<or> appV13 ap \<or> appV142 ap \<or> appV20 ap"

definition V1_1Validation :: "ApplicationProvider \<Rightarrow> bool" where
  "V1_1Validation ap \<longleftrightarrow> appV11 ap \<or> appV12 ap \<or> appV13 ap \<or> appV142 ap \<or> appV20 ap"

definition V1_2Validation :: "ApplicationProvider \<Rightarrow> bool" where
  "V1_2Validation ap \<longleftrightarrow> appV12 ap \<or> appV13 ap \<or> appV142 ap \<or> appV20 ap"

definition V1_3Validation :: "ApplicationProvider \<Rightarrow> bool" where
  "V1_3Validation ap \<longleftrightarrow> appV13 ap \<or> appV142 ap \<or> appV20 ap"

definition V2_0Validation :: "ApplicationProvider \<Rightarrow> bool" where
  "V2_0Validation ap \<longleftrightarrow> appV20 ap"

definition LifecycleV20 :: "ApplicationProvider \<Rightarrow> bool" where
  "LifecycleV20 ap \<longleftrightarrow> appV20 ap"

definition KeyLevelEndorsement :: "ApplicationProvider \<Rightarrow> bool" where
  "KeyLevelEndorsement ap \<longleftrightarrow> appV13 ap \<or> appV142 ap \<or> appV20 ap"

definition StorePvtDataOfInvalidTx :: "ApplicationProvider \<Rightarrow> bool" where
  "StorePvtDataOfInvalidTx ap \<longleftrightarrow> appV142 ap \<or> appV20 ap"

definition ApplicationHasCapability :: "string \<Rightarrow> bool" where
  "ApplicationHasCapability capability \<longleftrightarrow>
     capability = ''V1_1'' \<or> capability = ''V1_2'' \<or> capability = ''V1_3'' \<or> capability = ''V1_4_2'' \<or> capability = ''V2_0''
     \<or> capability = ''V1_1_PVTDATA_EXPERIMENTAL'' \<or> capability = ''V1_1_RESOURCETREE_EXPERIMENTAL''"

text \<open>\<open>Supported\<close> of a registry: the first required capability that the binary does not have, if any.\<close>

definition Supported :: "(string \<Rightarrow> bool) \<Rightarrow> string list \<Rightarrow> string option" where
  "Supported hasCapability capabilities =
     res_all (\<lambda>capabilityName. if hasCapability capabilityName then None else Some capabilityName) capabilities"

section \<open>Values of a configuration\<close>

record MSPConfig =
  mcType :: int
  mcConfig :: bytes

record ConsensusType =
  ctType :: string
  ctMetadata :: bytes
  ctState :: int

text \<open>The messages with one field (names, addresses, a timeout) are that field.\<close>

record value_codec =
  unHashingAlgorithm :: "bytes \<Rightarrow> string option"
  unBlockDataHashingStructure :: "bytes \<Rightarrow> u32 option"
  unOrdererAddresses :: "bytes \<Rightarrow> string list option"
  unConsortium :: "bytes \<Rightarrow> string option"
  unCapabilities :: "bytes \<Rightarrow> string list option"
  unConsensusType :: "bytes \<Rightarrow> ConsensusType option"
  unBatchSize :: "bytes \<Rightarrow> BatchSize option"
  unBatchTimeout :: "bytes \<Rightarrow> string option"
  unKafkaBrokers :: "bytes \<Rightarrow> string list option"
  unChannelRestrictions :: "bytes \<Rightarrow> u64 option"
  unACLs :: "bytes \<Rightarrow> (string \<times> string) list option"
  unMSPConfig :: "bytes \<Rightarrow> MSPConfig option"
  unAnchorPeers :: "bytes \<Rightarrow> (string \<times> int) list option"
  unPolicyMsg :: "bytes \<Rightarrow> PolicyMsg option"
  unSignaturePolicy :: "bytes \<Rightarrow> SignaturePolicyEnvelope option"
  unImplicitMeta :: "bytes \<Rightarrow> ImplicitMetaDef option"

record msp_setup =
  SetupMSP :: "MSPVersion \<Rightarrow> MSPConfig \<Rightarrow> string option"
  SetupManager :: "(string \<times> MSPConfig) list \<Rightarrow> msp_lib option"

datatype cc_err =
    UnexpectedKey string
  | ValueUnmarshal string
  | SubGroupsNotAllowed string
  | EndpointsNotAllowed string
  | InvalidBatchSize string
  | InvalidBatchTimeout
  | InvalidBroker string
  | UnsupportedMSPType int
  | MSPSetup
  | TwoMSPVersions string
  | EmptyMSPID string
  | ACLsNotAllowed
  | UnknownHashing string
  | InvalidWidth
  | NoOrdererAddresses
  | DisallowedGroup string
  | MSPManagerSetup
  | CcNilConfig
  | CcNilGroup
  | CapabilitiesOrder string
  | CcPolicies pol_err
  | CcConfigtx update_err
  | CcProto proto_err
  | CcNilHeader
  | SectionRemoved string
  | ConsensusTypeChanged
  | MSPIDChanged string
  | ConsortiumsAdded

text \<open>
  \<open>DeserializeProtoValuesFromGroup\<close>: the known keys are the fields of a structure, each with the function that decodes
  its bytes into it; another key is an error.
\<close>

type_synonym 's field_table = "(string \<times> (bytes \<Rightarrow> 's \<Rightarrow> 's option)) list"

definition Deserialize :: "'s field_table \<Rightarrow> string \<Rightarrow> bytes \<Rightarrow> 's \<Rightarrow> cc_err + 's" where
  "Deserialize fds key value st =
     (case map_of fds key of
        None \<Rightarrow> Inl (UnexpectedKey key)
      | Some decode \<Rightarrow> or_err (ValueUnmarshal key) (decode value st))"

fun deserializeValues :: "'s field_table \<Rightarrow> (string \<times> ConfigValue) list \<Rightarrow> 's \<Rightarrow> cc_err + 's" where
  "deserializeValues fds [] st = Inr st"
| "deserializeValues fds ((key, value) # rest) st =
     res_bind (Deserialize fds key (cvValue value) st) (deserializeValues fds rest)"

definition DeserializeProtoValuesFromGroup :: "'s field_table \<Rightarrow> ConfigGroup \<Rightarrow> 's \<Rightarrow> cc_err + 's" where
  "DeserializeProtoValuesFromGroup fds g st = deserializeValues fds (cgValues g) st"

section \<open>Organizations\<close>

record MSPConfigHandler =
  mhVersion :: MSPVersion
  mhIdMap :: "(string \<times> MSPConfig) list"

definition NewMSPConfigHandler :: "MSPVersion \<Rightarrow> MSPConfigHandler" where
  "NewMSPConfigHandler mspVersion = \<lparr>mhVersion = mspVersion, mhIdMap = []\<rparr>"

definition ProposeMSP :: "msp_setup \<Rightarrow> MSPConfig \<Rightarrow> MSPConfigHandler \<Rightarrow> cc_err + string \<times> MSPConfigHandler" where
  "ProposeMSP ms mspConfig bh =
     (if mcType mspConfig \<noteq> 0 \<and> mcType mspConfig \<noteq> 1 then Inl (UnsupportedMSPType (mcType mspConfig))
      else case SetupMSP ms (mhVersion bh) mspConfig of
        None \<Rightarrow> Inl MSPSetup
      | Some mspID \<Rightarrow>
          (case map_of (mhIdMap bh) mspID of
             Some existing \<Rightarrow> if existing \<noteq> mspConfig then Inl (TwoMSPVersions mspID) else Inr (mspID, bh)
           | None \<Rightarrow> Inr (mspID, bh\<lparr>mhIdMap := AList.update mspID mspConfig (mhIdMap bh)\<rparr>)))"

definition CreateMSPManager :: "msp_setup \<Rightarrow> MSPConfigHandler \<Rightarrow> cc_err + msp_lib" where
  "CreateMSPManager ms bh = or_err MSPManagerSetup (SetupManager ms (mhIdMap bh))"

record OrganizationConfig =
  orgName :: string
  orgMSPID :: string

record OrdererOrgConfig = OrganizationConfig +
  ooEndpoints :: "string list"

record ApplicationOrgConfig = OrganizationConfig +
  aoAnchorPeers :: "(string \<times> int) list"

definition validateMSP :: "msp_setup \<Rightarrow> string \<Rightarrow> MSPConfig \<Rightarrow> MSPConfigHandler \<Rightarrow> cc_err + string \<times> MSPConfigHandler" where
  "validateMSP ms name mspConfig bh =
     res_bind (ProposeMSP ms mspConfig bh) (\<lambda>(mspID, bh').
     if mspID = [] then Inl (EmptyMSPID name) else Inr (mspID, bh'))"

definition emptyMSPConfig :: MSPConfig where
  "emptyMSPConfig = \<lparr>mcType = 0, mcConfig = []\<rparr>"

definition NewOrganizationConfig ::
  "value_codec \<Rightarrow> msp_setup \<Rightarrow> string \<Rightarrow> ConfigGroup \<Rightarrow> MSPConfigHandler \<Rightarrow> cc_err + OrganizationConfig \<times> MSPConfigHandler"
where
  "NewOrganizationConfig vc ms name orgGroup bh =
     (if length (cgGroups orgGroup) > 0 then Inl (SubGroupsNotAllowed name)
      else
      res_bind (DeserializeProtoValuesFromGroup [(''MSP'', \<lambda>b _. unMSPConfig vc b)] orgGroup emptyMSPConfig) (\<lambda>mspConfig.
      res_bind (validateMSP ms name mspConfig bh) (\<lambda>(mspID, bh').
      Inr (\<lparr>orgName = name, orgMSPID = mspID\<rparr>, bh'))))"

definition NewOrdererOrgConfig ::
  "value_codec \<Rightarrow> msp_setup \<Rightarrow> ChannelProvider \<Rightarrow> string \<Rightarrow> ConfigGroup \<Rightarrow> MSPConfigHandler
   \<Rightarrow> cc_err + OrdererOrgConfig \<times> MSPConfigHandler"
where
  "NewOrdererOrgConfig vc ms channelCapabilities name orgGroup bh =
     (if length (cgGroups orgGroup) > 0 then Inl (SubGroupsNotAllowed name)
      else if \<not> OrgSpecificOrdererEndpoints channelCapabilities \<and> map_of (cgValues orgGroup) ''Endpoints'' \<noteq> None
      then Inl (EndpointsNotAllowed name)
      else
      res_bind (DeserializeProtoValuesFromGroup
          [(''Endpoints'', \<lambda>b (es, m). map_option (\<lambda>es'. (es', m)) (unOrdererAddresses vc b)),
           (''MSP'', \<lambda>b (es, m). map_option (\<lambda>m'. (es, m')) (unMSPConfig vc b))]
          orgGroup ([], emptyMSPConfig)) (\<lambda>(endpoints, mspConfig).
      res_bind (validateMSP ms name mspConfig bh) (\<lambda>(mspID, bh').
      Inr (\<lparr>orgName = name, orgMSPID = mspID, ooEndpoints = endpoints\<rparr>, bh'))))"

definition NewApplicationOrgConfig ::
  "value_codec \<Rightarrow> msp_setup \<Rightarrow> string \<Rightarrow> ConfigGroup \<Rightarrow> MSPConfigHandler \<Rightarrow> cc_err + ApplicationOrgConfig \<times> MSPConfigHandler"
where
  "NewApplicationOrgConfig vc ms name orgGroup bh =
     (if length (cgGroups orgGroup) > 0 then Inl (SubGroupsNotAllowed name)
      else
      res_bind (DeserializeProtoValuesFromGroup
          [(''AnchorPeers'', \<lambda>b (ps, m). map_option (\<lambda>ps'. (ps', m)) (unAnchorPeers vc b)),
           (''MSP'', \<lambda>b (ps, m). map_option (\<lambda>m'. (ps, m')) (unMSPConfig vc b))]
          orgGroup ([], emptyMSPConfig)) (\<lambda>(anchorPeers, mspConfig).
      res_bind (validateMSP ms name mspConfig bh) (\<lambda>(mspID, bh').
      Inr (\<lparr>orgName = name, orgMSPID = mspID, aoAnchorPeers = anchorPeers\<rparr>, bh'))))"

text \<open>The loops over the organizations of a section thread the handler of providers.\<close>

fun newOrgs ::
  "(string \<Rightarrow> ConfigGroup \<Rightarrow> MSPConfigHandler \<Rightarrow> cc_err + 'o \<times> MSPConfigHandler) \<Rightarrow> (string \<times> ConfigGroup) list
   \<Rightarrow> MSPConfigHandler \<Rightarrow> cc_err + (string \<times> 'o) list \<times> MSPConfigHandler"
where
  "newOrgs new [] bh = Inr ([], bh)"
| "newOrgs new ((name, orgGroup) # rest) bh =
     res_bind (new name orgGroup bh) (\<lambda>(org, bh').
     res_bind (newOrgs new rest bh') (\<lambda>(orgs, bh''). Inr ((name, org) # orgs, bh'')))"

section \<open>The orderer section\<close>

record OrdererProtos =
  opConsensusType :: ConsensusType
  opBatchSize :: BatchSize
  opBatchTimeout :: string
  opKafkaBrokers :: "string list"
  opChannelRestrictions :: u64
  opCapabilities :: "string list"

record OrdererConfig =
  ocProtos :: OrdererProtos
  ocOrgs :: "(string \<times> OrdererOrgConfig) list"
  ocBatchTimeout :: duration

definition emptyOrdererProtos :: OrdererProtos where
  "emptyOrdererProtos =
     \<lparr>opConsensusType = \<lparr>ctType = [], ctMetadata = [], ctState = 0\<rparr>,
      opBatchSize = \<lparr>MaxMessageCount = 0, AbsoluteMaxBytes = 0, PreferredMaxBytes = 0\<rparr>,
      opBatchTimeout = [], opKafkaBrokers = [], opChannelRestrictions = 0, opCapabilities = []\<rparr>"

definition ordererFields :: "value_codec \<Rightarrow> OrdererProtos field_table" where
  "ordererFields vc =
     [(''ConsensusType'', \<lambda>b s. map_option (\<lambda>x. s\<lparr>opConsensusType := x\<rparr>) (unConsensusType vc b)),
      (''BatchSize'', \<lambda>b s. map_option (\<lambda>x. s\<lparr>opBatchSize := x\<rparr>) (unBatchSize vc b)),
      (''BatchTimeout'', \<lambda>b s. map_option (\<lambda>x. s\<lparr>opBatchTimeout := x\<rparr>) (unBatchTimeout vc b)),
      (''KafkaBrokers'', \<lambda>b s. map_option (\<lambda>x. s\<lparr>opKafkaBrokers := x\<rparr>) (unKafkaBrokers vc b)),
      (''ChannelRestrictions'', \<lambda>b s. map_option (\<lambda>x. s\<lparr>opChannelRestrictions := x\<rparr>) (unChannelRestrictions vc b)),
      (''Capabilities'', \<lambda>b s. map_option (\<lambda>x. s\<lparr>opCapabilities := x\<rparr>) (unCapabilities vc b))]"

definition validateBatchSize :: "BatchSize \<Rightarrow> cc_err option" where
  "validateBatchSize bs =
     (if MaxMessageCount bs = 0 then Some (InvalidBatchSize ''max message count'')
      else if AbsoluteMaxBytes bs = 0 then Some (InvalidBatchSize ''absolute max bytes'')
      else if PreferredMaxBytes bs = 0 then Some (InvalidBatchSize ''preferred max bytes'')
      else if PreferredMaxBytes bs > AbsoluteMaxBytes bs then Some (InvalidBatchSize ''preferred greater than absolute'')
      else None)"

definition validateBatchTimeout :: "string \<Rightarrow> cc_err + duration" where
  "validateBatchTimeout s =
     (case ParseDuration s of
        None \<Rightarrow> Inl InvalidBatchTimeout
      | Some d \<Rightarrow> if d \<le> 0 then Inl InvalidBatchTimeout else Inr d)"

definition alnum :: "char \<Rightarrow> bool" where
  "alnum ch \<longleftrightarrow> lowerAlpha ch \<or> upperAlpha ch \<or> digitchar ch"

text \<open>The anchored expression for a host matches all of the string or nothing.\<close>

definition findHost :: "string \<Rightarrow> string" where
  "findHost host =
     (if host \<noteq> [] \<and> alnum (hd host) \<and> alnum (last host) \<and> list_all configAllowedChar host then host else [])"

definition brokerEntrySeemsValid :: "string \<Rightarrow> bool" where
  "brokerEntrySeemsValid broker =
     (if CHR '':'' \<notin> set broker then False
      else let parts = strSplit CHR '':'' broker
           in if length parts > 2 then False
              else if ParseUint16 (parts ! 1) = None then False
              else length (findHost (parts ! 0)) = length (parts ! 0))"

definition validateKafkaBrokers :: "string list \<Rightarrow> cc_err option" where
  "validateKafkaBrokers brokers =
     res_all (\<lambda>broker. if brokerEntrySeemsValid broker then None else Some (InvalidBroker broker)) brokers"

definition OrdererConfig_Validate :: "OrdererProtos \<Rightarrow> cc_err + duration" where
  "OrdererConfig_Validate protos =
     (case validateBatchSize (opBatchSize protos) of
        Some e \<Rightarrow> Inl e
      | None \<Rightarrow>
          res_bind (validateBatchTimeout (opBatchTimeout protos)) (\<lambda>d.
          case validateKafkaBrokers (opKafkaBrokers protos) of Some e \<Rightarrow> Inl e | None \<Rightarrow> Inr d))"

definition NewOrdererConfig ::
  "value_codec \<Rightarrow> msp_setup \<Rightarrow> ChannelProvider \<Rightarrow> ConfigGroup \<Rightarrow> MSPConfigHandler \<Rightarrow> cc_err + OrdererConfig \<times> MSPConfigHandler"
where
  "NewOrdererConfig vc ms channelCapabilities ordererGroup bh =
     res_bind (DeserializeProtoValuesFromGroup (ordererFields vc) ordererGroup emptyOrdererProtos) (\<lambda>protos.
     res_bind (OrdererConfig_Validate protos) (\<lambda>d.
     res_bind (newOrgs (NewOrdererOrgConfig vc ms channelCapabilities) (cgGroups ordererGroup) bh) (\<lambda>(orgs, bh').
     Inr (\<lparr>ocProtos = protos, ocOrgs = orgs, ocBatchTimeout = d\<rparr>, bh'))))"

section \<open>The application and consortiums sections\<close>

record ApplicationConfig =
  acOrgs :: "(string \<times> ApplicationOrgConfig) list"
  acACLs :: "(string \<times> string) list"
  acCapabilities :: "string list"

definition NewApplicationConfig ::
  "value_codec \<Rightarrow> msp_setup \<Rightarrow> ConfigGroup \<Rightarrow> MSPConfigHandler \<Rightarrow> cc_err + ApplicationConfig \<times> MSPConfigHandler"
where
  "NewApplicationConfig vc ms appGroup bh =
     res_bind (DeserializeProtoValuesFromGroup
        [(''ACLs'', \<lambda>b (as, cs). map_option (\<lambda>as'. (as', cs)) (unACLs vc b)),
         (''Capabilities'', \<lambda>b (as, cs). map_option (\<lambda>cs'. (as, cs')) (unCapabilities vc b))]
        appGroup ([], [])) (\<lambda>(acls, caps).
     if \<not> ACLs (NewApplicationProvider caps) \<and> map_of (cgValues appGroup) ''ACLs'' \<noteq> None then Inl ACLsNotAllowed
     else
     res_bind (newOrgs (NewApplicationOrgConfig vc ms) (cgGroups appGroup) bh) (\<lambda>(orgs, bh').
     Inr (\<lparr>acOrgs = orgs, acACLs = acls, acCapabilities = caps\<rparr>, bh')))"

definition newAPIsProvider :: "(string \<times> string) list \<Rightarrow> (string \<times> string) list" where
  "newAPIsProvider acls =
     map (\<lambda>(key, policyRef). (key, if hd policyRef \<noteq> CHR ''/'' then ''/Channel/Application/'' @ policyRef else policyRef))
       (filter (\<lambda>(key, policyRef). length policyRef \<noteq> 0) acls)"

definition PolicyRefForAPI :: "(string \<times> string) list \<Rightarrow> string \<Rightarrow> string" where
  "PolicyRefForAPI aclPolicyRefs aclName = (case map_of aclPolicyRefs aclName of None \<Rightarrow> [] | Some r \<Rightarrow> r)"

record ConsortiumConfig =
  coChannelCreationPolicy :: PolicyMsg
  coOrgs :: "(string \<times> OrganizationConfig) list"

definition NewConsortiumConfig ::
  "value_codec \<Rightarrow> msp_setup \<Rightarrow> ConfigGroup \<Rightarrow> MSPConfigHandler \<Rightarrow> cc_err + ConsortiumConfig \<times> MSPConfigHandler"
where
  "NewConsortiumConfig vc ms consortiumGroup bh =
     res_bind (DeserializeProtoValuesFromGroup [(''ChannelCreationPolicy'', \<lambda>b _. unPolicyMsg vc b)] consortiumGroup
                 \<lparr>PolicyType = 0, PolicyValue = []\<rparr>) (\<lambda>policy.
     res_bind (newOrgs (NewOrganizationConfig vc ms) (cgGroups consortiumGroup) bh) (\<lambda>(orgs, bh').
     Inr (\<lparr>coChannelCreationPolicy = policy, coOrgs = orgs\<rparr>, bh')))"

definition NewConsortiumsConfig ::
  "value_codec \<Rightarrow> msp_setup \<Rightarrow> ConfigGroup \<Rightarrow> MSPConfigHandler
   \<Rightarrow> cc_err + (string \<times> ConsortiumConfig) list \<times> MSPConfigHandler"
where
  "NewConsortiumsConfig vc ms consortiumsGroup bh =
     newOrgs (\<lambda>_. NewConsortiumConfig vc ms) (cgGroups consortiumsGroup) bh"

section \<open>The channel\<close>

record ChannelProtos =
  cpHashingAlgorithm :: string
  cpBlockDataHashingStructure :: u32
  cpOrdererAddresses :: "string list"
  cpConsortium :: string
  cpCapabilities :: "string list"

record ChannelConfig =
  ccProtos :: ChannelProtos
  ccMspManager :: msp_lib
  ccAppConfig :: "ApplicationConfig option"
  ccOrdererConfig :: "OrdererConfig option"
  ccConsortiumsConfig :: "(string \<times> ConsortiumConfig) list option"

definition channelFields :: "value_codec \<Rightarrow> ChannelProtos field_table" where
  "channelFields vc =
     [(''HashingAlgorithm'', \<lambda>b s. map_option (\<lambda>x. s\<lparr>cpHashingAlgorithm := x\<rparr>) (unHashingAlgorithm vc b)),
      (''BlockDataHashingStructure'', \<lambda>b s. map_option (\<lambda>x. s\<lparr>cpBlockDataHashingStructure := x\<rparr>) (unBlockDataHashingStructure vc b)),
      (''OrdererAddresses'', \<lambda>b s. map_option (\<lambda>x. s\<lparr>cpOrdererAddresses := x\<rparr>) (unOrdererAddresses vc b)),
      (''Consortium'', \<lambda>b s. map_option (\<lambda>x. s\<lparr>cpConsortium := x\<rparr>) (unConsortium vc b)),
      (''Capabilities'', \<lambda>b s. map_option (\<lambda>x. s\<lparr>cpCapabilities := x\<rparr>) (unCapabilities vc b))]"

definition validateHashingAlgorithm :: "string \<Rightarrow> cc_err option" where
  "validateHashingAlgorithm name = (if name = ''SHA256'' \<or> name = ''SHA3_256'' then None else Some (UnknownHashing name))"

definition validateBlockDataHashingStructure :: "u32 \<Rightarrow> cc_err option" where
  "validateBlockDataHashingStructure width = (if width \<noteq> 0xFFFFFFFF then Some InvalidWidth else None)"

definition validateOrdererAddresses :: "string list \<Rightarrow> cc_err option" where
  "validateOrdererAddresses addresses = (if length addresses = 0 then Some NoOrdererAddresses else None)"

definition ChannelConfig_Validate :: "ChannelProtos \<Rightarrow> ChannelProvider \<Rightarrow> cc_err option" where
  "ChannelConfig_Validate protos channelCapabilities =
     (case validateHashingAlgorithm (cpHashingAlgorithm protos) of
        Some e \<Rightarrow> Some e
      | None \<Rightarrow>
          (case validateBlockDataHashingStructure (cpBlockDataHashingStructure protos) of
             Some e \<Rightarrow> Some e
           | None \<Rightarrow>
               if \<not> OrgSpecificOrdererEndpoints channelCapabilities
               then validateOrdererAddresses (cpOrdererAddresses protos) else None))"

text \<open>The loop over the sections of a channel group.\<close>

type_synonym sections =
  "ApplicationConfig option \<times> OrdererConfig option \<times> (string \<times> ConsortiumConfig) list option"

fun newSections ::
  "value_codec \<Rightarrow> msp_setup \<Rightarrow> ChannelProvider \<Rightarrow> (string \<times> ConfigGroup) list \<Rightarrow> sections \<Rightarrow> MSPConfigHandler
   \<Rightarrow> cc_err + sections \<times> MSPConfigHandler"
where
  "newSections vc ms caps [] secs bh = Inr (secs, bh)"
| "newSections vc ms caps ((groupName, g) # rest) (app, ord, cons) bh =
     (if groupName = ''Application'' then
        res_bind (NewApplicationConfig vc ms g bh) (\<lambda>(a, bh'). newSections vc ms caps rest (Some a, ord, cons) bh')
      else if groupName = ''Orderer'' then
        res_bind (NewOrdererConfig vc ms caps g bh) (\<lambda>(oc, bh'). newSections vc ms caps rest (app, Some oc, cons) bh')
      else if groupName = ''Consortiums'' then
        res_bind (NewConsortiumsConfig vc ms g bh) (\<lambda>(cs, bh'). newSections vc ms caps rest (app, ord, Some cs) bh')
      else Inl (DisallowedGroup groupName))"

definition NewChannelConfig :: "value_codec \<Rightarrow> msp_setup \<Rightarrow> ConfigGroup \<Rightarrow> cc_err + ChannelConfig" where
  "NewChannelConfig vc ms channelGroup =
     res_bind (DeserializeProtoValuesFromGroup (channelFields vc) channelGroup
        \<lparr>cpHashingAlgorithm = [], cpBlockDataHashingStructure = 0, cpOrdererAddresses = [], cpConsortium = [], cpCapabilities = []\<rparr>) (\<lambda>protos.
     let capabilities = NewChannelProvider (cpCapabilities protos) in
     case ChannelConfig_Validate protos capabilities of
       Some e \<Rightarrow> Inl e
     | None \<Rightarrow>
         res_bind (newSections vc ms capabilities (cgGroups channelGroup) (None, None, None)
                     (NewMSPConfigHandler (ChannelMSPVersion capabilities))) (\<lambda>((app, ord, cons), bh).
         res_bind (CreateMSPManager ms bh) (\<lambda>mspManager.
         Inr \<lparr>ccProtos = protos, ccMspManager = mspManager, ccAppConfig = app, ccOrdererConfig = ord, ccConsortiumsConfig = cons\<rparr>)))"

section \<open>Bundles\<close>

record Bundle =
  buPolicyManager :: ManagerImpl
  buChannelConfig :: ChannelConfig
  buConfigtxManager :: ValidatorImpl

definition OrdererConfig_of :: "Bundle \<Rightarrow> OrdererConfig option" where
  "OrdererConfig_of b = ccOrdererConfig (buChannelConfig b)"

definition preValidate :: "Config option \<Rightarrow> cc_err + ConfigGroup" where
  "preValidate config =
     (case config of
        None \<Rightarrow> Inl CcNilConfig
      | Some cfg \<Rightarrow>
          (case cfgChannelGroup cfg of
             None \<Rightarrow> Inl CcNilGroup
           | Some g \<Rightarrow>
               (case map_of (cgGroups g) ''Orderer'' of
                  None \<Rightarrow> Inr g
                | Some og \<Rightarrow>
                    if map_of (cgValues og) ''Capabilities'' \<noteq> None then Inr g
                    else if map_of (cgValues g) ''Capabilities'' \<noteq> None then Inl (CapabilitiesOrder ''Channel'')
                    else (case map_of (cgGroups g) ''Application'' of
                            None \<Rightarrow> Inr g
                          | Some ag \<Rightarrow>
                              if map_of (cgValues ag) ''Capabilities'' \<noteq> None then Inl (CapabilitiesOrder ''Application'')
                              else Inr g))))"

definition wrapcc :: "('e \<Rightarrow> cc_err) \<Rightarrow> 'e + 'a \<Rightarrow> cc_err + 'a" where
  "wrapcc f r = (case r of Inl e \<Rightarrow> Inl (f e) | Inr x \<Rightarrow> Inr x)"

lemma wrapcc_Inr [simp]: "wrapcc f r = Inr x \<longleftrightarrow> r = Inr x"
  by (simp add: wrapcc_def split: sum.splits)

definition NewBundle :: "value_codec \<Rightarrow> msp_setup \<Rightarrow> string \<Rightarrow> Config option \<Rightarrow> cc_err + Bundle" where
  "NewBundle vc ms channelID config =
     res_bind (preValidate config) (\<lambda>channelGroup.
     res_bind (NewChannelConfig vc ms channelGroup) (\<lambda>channelConfig.
     let policyProviderMap = [(1, NewPolicy (ccMspManager channelConfig) (unSignaturePolicy vc))] in
     res_bind (wrapcc CcPolicies (NewManagerImpl (unImplicitMeta vc) ''Channel'' policyProviderMap channelGroup)) (\<lambda>policyManager.
     res_bind (wrapcc CcConfigtx (NewValidatorImpl channelID config ''Channel'' policyManager)) (\<lambda>configtxManager.
     Inr \<lparr>buPolicyManager = policyManager, buChannelConfig = channelConfig, buConfigtxManager = configtxManager\<rparr>))))"

definition NewBundleFromEnvelope :: "codec \<Rightarrow> value_codec \<Rightarrow> msp_setup \<Rightarrow> Envelope \<Rightarrow> cc_err + Bundle" where
  "NewBundleFromEnvelope c vc ms env =
     res_bind (wrapcc CcProto (UnmarshalPayload c (slice_bytes (Envelope.Payload env)))) (\<lambda>payload.
     res_bind (wrapcc CcProto (UnmarshalConfigEnvelope c (plData payload))) (\<lambda>configEnvelope.
     case plHeader payload of
       None \<Rightarrow> Inl CcNilHeader
     | Some header \<Rightarrow>
         res_bind (wrapcc CcProto (UnmarshalChannelHeader c (slice_bytes (hdrChannelHeader header)))) (\<lambda>chdr.
         NewBundle vc ms (chChannelId chdr) (ceConfig configEnvelope))))"

text \<open>\<open>ValidateNew\<close>: the loops compare the provider identifiers of the organizations present on both sides.\<close>

definition sameMSPIDs ::
  "(string \<times> 'a OrganizationConfig_scheme) list \<Rightarrow> (string \<times> 'a OrganizationConfig_scheme) list \<Rightarrow> cc_err option"
where
  "sameMSPIDs orgs norgs =
     res_all (\<lambda>(name, org). case map_of norgs name of
        None \<Rightarrow> None
      | Some norg \<Rightarrow> if orgMSPID org \<noteq> orgMSPID norg then Some (MSPIDChanged name) else None) orgs"

definition validateNewOrderer :: "Bundle \<Rightarrow> Bundle \<Rightarrow> cc_err option" where
  "validateNewOrderer b nb =
     (case ccOrdererConfig (buChannelConfig b) of
        None \<Rightarrow> None
      | Some oc \<Rightarrow>
          (case ccOrdererConfig (buChannelConfig nb) of
             None \<Rightarrow> Some (SectionRemoved ''Orderer'')
           | Some noc \<Rightarrow>
               if \<not> ChannelConsensusTypeMigration (NewChannelProvider (cpCapabilities (ccProtos (buChannelConfig b))))
                  \<and> ctType (opConsensusType (ocProtos oc)) \<noteq> ctType (opConsensusType (ocProtos noc))
               then Some ConsensusTypeChanged
               else sameMSPIDs (ocOrgs oc) (ocOrgs noc)))"

definition validateNewApplication :: "Bundle \<Rightarrow> Bundle \<Rightarrow> cc_err option" where
  "validateNewApplication b nb =
     (case ccAppConfig (buChannelConfig b) of
        None \<Rightarrow> None
      | Some ac \<Rightarrow>
          (case ccAppConfig (buChannelConfig nb) of
             None \<Rightarrow> Some (SectionRemoved ''Application'')
           | Some nac \<Rightarrow> sameMSPIDs (acOrgs ac) (acOrgs nac)))"

definition validateNewConsortiums :: "Bundle \<Rightarrow> Bundle \<Rightarrow> cc_err option" where
  "validateNewConsortiums b nb =
     (case ccConsortiumsConfig (buChannelConfig b) of
        None \<Rightarrow> if ccConsortiumsConfig (buChannelConfig nb) \<noteq> None then Some ConsortiumsAdded else None
      | Some cc \<Rightarrow>
          (case ccConsortiumsConfig (buChannelConfig nb) of
             None \<Rightarrow> Some (SectionRemoved ''Consortiums'')
           | Some ncc \<Rightarrow>
               res_all (\<lambda>(name, consortium). case map_of ncc name of
                  None \<Rightarrow> None
                | Some nconsortium \<Rightarrow> sameMSPIDs (coOrgs consortium) (coOrgs nconsortium)) cc))"

definition ValidateNew :: "Bundle \<Rightarrow> Bundle \<Rightarrow> cc_err option" where
  "ValidateNew b nb =
     (case validateNewOrderer b nb of
        Some e \<Rightarrow> Some e
      | None \<Rightarrow>
          (case validateNewApplication b nb of
             Some e \<Rightarrow> Some e
           | None \<Rightarrow> validateNewConsortiums b nb))"

section \<open>Lemmas\<close>

definition batch_ok :: "BatchSize \<Rightarrow> bool" where
  "batch_ok bs \<longleftrightarrow> 0 < MaxMessageCount bs \<and> 0 < PreferredMaxBytes bs \<and> PreferredMaxBytes bs \<le> AbsoluteMaxBytes bs"

lemma validateBatchSize_None: "validateBatchSize bs = None \<longleftrightarrow> batch_ok bs"
  by (auto simp: validateBatchSize_def batch_ok_def word_gt_0 not_less split: if_splits)

definition orgs_ok :: "(string \<times> 'a OrganizationConfig_scheme) list \<Rightarrow> bool" where
  "orgs_ok orgs \<longleftrightarrow> (\<forall>(name, org) \<in> set orgs. orgName org = name \<and> orgMSPID org \<noteq> [])"

lemma validateMSP_nonempty: "validateMSP ms name mc bh = Inr (mspID, bh') \<Longrightarrow> mspID \<noteq> []"
  by (auto simp: validateMSP_def split: if_splits)

lemma newOrgs_ok:
  assumes "newOrgs new gs bh = Inr (orgs, bh')"
    and "\<And>name g bh org bh'. new name g bh = Inr (org, bh') \<Longrightarrow> P name org"
  shows "\<forall>(name, org) \<in> set orgs. P name org"
  using assms(1)
proof (induction gs arbitrary: bh orgs)
  case Nil
  then show ?case by simp
next
  case (Cons x gs)
  obtain name g where x: "x = (name, g)" by (cases x)
  from Cons.prems obtain org bh1 orgs' where
    n: "new name g bh = Inr (org, bh1)" and r: "newOrgs new gs bh1 = Inr (orgs', bh')" "orgs = (name, org) # orgs'"
    by (auto simp: x)
  from Cons.IH [OF r(1)] assms(2) [OF n] r(2) show ?case by simp
qed

lemma NewOrdererOrgConfig_ok:
  "NewOrdererOrgConfig vc ms caps name g bh = Inr (org, bh') \<Longrightarrow> orgName org = name \<and> orgMSPID org \<noteq> []"
  by (auto simp: NewOrdererOrgConfig_def split: if_splits dest: validateMSP_nonempty)

definition orderer_ok :: "OrdererConfig \<Rightarrow> bool" where
  "orderer_ok oc \<longleftrightarrow>
     batch_ok (opBatchSize (ocProtos oc)) \<and> 0 < ocBatchTimeout oc \<and> ParseDuration (opBatchTimeout (ocProtos oc)) = Some (ocBatchTimeout oc)
     \<and> list_all brokerEntrySeemsValid (opKafkaBrokers (ocProtos oc)) \<and> orgs_ok (ocOrgs oc)"

lemma NewOrdererConfig_ok:
  assumes "NewOrdererConfig vc ms caps g bh = Inr (oc, bh')"
  shows "orderer_ok oc"
proof -
  from assms obtain protos d orgs where
    v: "OrdererConfig_Validate protos = Inr d"
    and n: "newOrgs (NewOrdererOrgConfig vc ms caps) (cgGroups g) bh = Inr (orgs, bh')"
    and oc: "oc = \<lparr>ocProtos = protos, ocOrgs = orgs, ocBatchTimeout = d\<rparr>"
    by (auto simp: NewOrdererConfig_def)
  from v have "batch_ok (opBatchSize protos)" "ParseDuration (opBatchTimeout protos) = Some d" "0 < d"
    "list_all brokerEntrySeemsValid (opKafkaBrokers protos)"
    by (auto simp: OrdererConfig_Validate_def validateBatchSize_None validateBatchTimeout_def validateKafkaBrokers_def
        list_all_iff split: option.splits if_splits)
  moreover have "orgs_ok orgs"
    using newOrgs_ok [OF n, where P = "\<lambda>name org. orgName org = name \<and> orgMSPID org \<noteq> []"] NewOrdererOrgConfig_ok
    by (auto simp: orgs_ok_def)
  ultimately show ?thesis by (simp add: orderer_ok_def oc)
qed

lemma newSections_orderer:
  assumes "newSections vc ms caps gs (app, ord, cons) bh = Inr ((app', ord', cons'), bh')"
    and "\<And>oc. ord = Some oc \<Longrightarrow> orderer_ok oc"
  shows "\<And>oc. ord' = Some oc \<Longrightarrow> orderer_ok oc"
  using assms
proof (induction gs arbitrary: app ord cons bh)
  case Nil
  then show ?case by simp
next
  case (Cons x gs)
  obtain name g where x: "x = (name, g)" by (cases x)
  consider (app) "name = ''Application''" | (ord) "name = ''Orderer''" | (cons) "name = ''Consortiums''"
    | (other) "name \<noteq> ''Application''" "name \<noteq> ''Orderer''" "name \<noteq> ''Consortiums''" by blast
  then show ?case
  proof cases
    case app
    with Cons.prems(2) obtain a bh1 where "newSections vc ms caps gs (Some a, ord, cons) bh1 = Inr ((app', ord', cons'), bh')"
      by (auto simp: x)
    from Cons.IH [OF Cons.prems(1) this Cons.prems(3)] show ?thesis by simp
  next
    case ord
    with Cons.prems(2) obtain o1 bh1 where n: "NewOrdererConfig vc ms caps g bh = Inr (o1, bh1)"
      and r: "newSections vc ms caps gs (app, Some o1, cons) bh1 = Inr ((app', ord', cons'), bh')"
      by (auto simp: x)
    from Cons.IH [OF Cons.prems(1) r] NewOrdererConfig_ok [OF n] show ?thesis by simp
  next
    case cons
    with Cons.prems(2) obtain a bh1 where "newSections vc ms caps gs (app, ord, Some a) bh1 = Inr ((app', ord', cons'), bh')"
      by (auto simp: x)
    from Cons.IH [OF Cons.prems(1) this Cons.prems(3)] show ?thesis by simp
  next
    case other
    with Cons.prems(2) show ?thesis by (simp add: x)
  qed
qed

lemma NewChannelConfig_orderer:
  assumes "NewChannelConfig vc ms g = Inr cc" and "ccOrdererConfig cc = Some oc"
  shows "orderer_ok oc"
proof -
  from assms obtain caps app cons bh bh' where
    "newSections vc ms caps (cgGroups g) (None, None, None) bh = Inr ((app, Some oc, cons), bh')"
    by (auto simp: NewChannelConfig_def Let_def split: option.splits)
  from newSections_orderer [OF this] show ?thesis by simp
qed

lemma NewBundle_Inr:
  assumes "NewBundle vc ms cid config = Inr b"
  obtains cfg g where "config = Some cfg" "cfgChannelGroup cfg = Some g"
    "NewChannelConfig vc ms g = Inr (buChannelConfig b)"
    "NewValidatorImpl cid (Some cfg) ''Channel'' (buPolicyManager b) = Inr (buConfigtxManager b)"
  using assms by (auto simp: NewBundle_def preValidate_def Let_def split: option.splits if_splits)

section \<open>Properties\<close>

text \<open>
  C26. A bundle is consistent with the configuration it is built from, and its orderer section satisfies what the
  ordering code relies on: the message count and the preferred size are positive and the preferred size is at most
  the absolute one (so the block cutter can always cut), the batch timeout is positive (so a timer can be set),
  every organization has a provider identifier, and the validator of updates carries the sequence number of the configuration, the
  channel's name, and the policy managers of the same bundle.
\<close>

theorem bundle_well_formed:
  assumes "NewBundle vc ms cid (Some cfg) = Inr b"
  shows "viSequence (buConfigtxManager b) = cfgSequence cfg \<and> viChannelID (buConfigtxManager b) = cid
    \<and> viPm (buConfigtxManager b) = buPolicyManager b
    \<and> (case OrdererConfig_of b of None \<Rightarrow> True | Some oc \<Rightarrow> orderer_ok oc)"
proof -
  from NewBundle_Inr [OF assms] obtain g where
    c: "NewChannelConfig vc ms g = Inr (buChannelConfig b)"
    and v: "NewValidatorImpl cid (Some cfg) ''Channel'' (buPolicyManager b) = Inr (buConfigtxManager b)"
    by (metis option.inject)
  from NewValidatorImpl_Inr [OF v] have "viSequence (buConfigtxManager b) = cfgSequence cfg"
    "viChannelID (buConfigtxManager b) = cid" "viPm (buConfigtxManager b) = buPolicyManager b"
    by (metis option.inject)+
  with NewChannelConfig_orderer [OF c] show ?thesis by (auto simp: OrdererConfig_of_def split: option.splits)
qed

definition sample_vc :: value_codec where
  "sample_vc =
     \<lparr>unHashingAlgorithm = (\<lambda>_. Some ''SHA256''), unBlockDataHashingStructure = (\<lambda>_. Some 0xFFFFFFFF),
      unOrdererAddresses = (\<lambda>_. Some [''orderer:7050'']), unConsortium = (\<lambda>_. Some ''Consortium''), unCapabilities = (\<lambda>_. Some [''V2_0'']),
      unConsensusType = (\<lambda>b. Some \<lparr>ctType = ''hcs'', ctMetadata = b, ctState = 0\<rparr>),
      unBatchSize = (\<lambda>_. Some \<lparr>MaxMessageCount = 10, AbsoluteMaxBytes = 1000, PreferredMaxBytes = 500\<rparr>),
      unBatchTimeout = (\<lambda>_. Some ''2s''), unKafkaBrokers = (\<lambda>_. Some []), unChannelRestrictions = (\<lambda>_. Some 0), unACLs = (\<lambda>_. Some []),
      unMSPConfig = (\<lambda>b. Some \<lparr>mcType = 0, mcConfig = b\<rparr>), unAnchorPeers = (\<lambda>_. Some []), unPolicyMsg = (\<lambda>_. None),
      unSignaturePolicy = (\<lambda>_. Some sample_policy), unImplicitMeta = (\<lambda>_. Some \<lparr>ImSubPolicy = ''Admins'', ImRule = Rule_MAJORITY\<rparr>)\<rparr>"

definition sample_ms :: msp_setup where
  "sample_ms = \<lparr>SetupMSP = (\<lambda>_ _. Some ''OrdererMSP''), SetupManager = (\<lambda>_. Some sample_msp)\<rparr>"

definition sample_value :: "bytes \<Rightarrow> ConfigValue" where
  "sample_value b = \<lparr>cvVersion = 0, cvValue = b, cvModPolicy = ''Admins''\<rparr>"

definition sample_admins :: "int \<Rightarrow> string \<times> ConfigPolicy" where
  "sample_admins ty = (''Admins'', \<lparr>cpVersion = 0, cpPolicy = Some \<lparr>PolicyType = ty, PolicyValue = []\<rparr>, cpModPolicy = ''Admins''\<rparr>)"

definition sample_channel :: ConfigGroup where
  "sample_channel = ConfigGroup 0
     [(''Orderer'', ConfigGroup 0
         [(''OrdererOrg'', ConfigGroup 0 [] [(''MSP'', sample_value [1])] [sample_admins 1] ''Admins'')]
         [(''BatchSize'', sample_value []), (''BatchTimeout'', sample_value []), (''ConsensusType'', sample_value [1]), (''Capabilities'', sample_value [])]
         [sample_admins 3] ''Admins'')]
     [(''HashingAlgorithm'', sample_value []), (''BlockDataHashingStructure'', sample_value []), (''Capabilities'', sample_value [])]
     [sample_admins 3] ''Admins''"

definition sample_bundle :: Bundle where
  "sample_bundle = (case NewBundle sample_vc sample_ms ''mychannel'' (Some \<lparr>cfgSequence = 6, cfgChannelGroup = Some sample_channel\<rparr>) of
     Inr b \<Rightarrow> b
   | Inl _ \<Rightarrow> \<lparr>buPolicyManager = ManagerImpl [] [] [],
       buChannelConfig = \<lparr>ccProtos = \<lparr>cpHashingAlgorithm = [], cpBlockDataHashingStructure = 0, cpOrdererAddresses = [], cpConsortium = [], cpCapabilities = []\<rparr>,
         ccMspManager = sample_msp, ccAppConfig = None, ccOrdererConfig = None, ccConsortiumsConfig = None\<rparr>,
       buConfigtxManager = sample_vi\<rparr>)"

lemma sample_bundle_new:
  "NewBundle sample_vc sample_ms ''mychannel'' (Some \<lparr>cfgSequence = 6, cfgChannelGroup = Some sample_channel\<rparr>) = Inr sample_bundle"
proof -
  have "case NewBundle sample_vc sample_ms ''mychannel'' (Some \<lparr>cfgSequence = 6, cfgChannelGroup = Some sample_channel\<rparr>) of
      Inr b \<Rightarrow> True | Inl _ \<Rightarrow> False" by code_simp
  then show ?thesis by (auto simp: sample_bundle_def split: sum.splits)
qed

theorem bundle_well_formed_witness:
  "viSequence (buConfigtxManager sample_bundle) = 6 \<and> (\<exists>oc. OrdererConfig_of sample_bundle = Some oc \<and> orderer_ok oc)"
proof -
  have "OrdererConfig_of sample_bundle \<noteq> None" by code_simp
  with bundle_well_formed [OF sample_bundle_new] show ?thesis by auto
qed

end
