(* ===== verification/BlockWriter.thy ===== *)
theory BlockWriter
  imports ChannelConfig
begin

text \<open>
  Writing blocks (\<open>orderer/common/multichannel/blockwriter.go\<close>): \<open>CreateNextBlock\<close> assembles the next block of a channel,
  \<open>WriteBlock\<close> and \<open>WriteConfigBlock\<close> make it the last block and leave the commit (its metadata, its signature and
  the append to the ledger) to a goroutine that holds the lock \<open>committingBlock\<close>.

  The state of a \<open>BlockWriter\<close> includes what it reaches through its support: the bundle of the channel, the ledger and
  the registrar, of which the calls of \<open>newChain\<close> are recorded.  \<open>bwPending\<close> is the goroutine: \<open>Some md\<close> while it
  holds the lock and has not committed yet.  Acquiring the lock waits for it, so \<open>acquire\<close> runs its commit; the scheduler
  may run it at any earlier moment.  A panic in it ends the process, as anywhere else.
  The ledger checks the number and the previous hash of a block as \<open>blkstorage\<close> does; failures of the file
  system are not modelled.
\<close>

section \<open>The ledger\<close>

definition lastHash :: "Block list \<Rightarrow> bytes" where
  "lastHash ledger =
     (if ledger = [] then []
      else case blkHeader (last ledger) of None \<Rightarrow> [] | Some h \<Rightarrow> BlockHeaderHash h)"

definition addBlock :: "Block list \<Rightarrow> Block \<Rightarrow> (Block list) option go" where
  "addBlock ledger block =
     (case blkHeader block of
        None \<Rightarrow> Panic ''nil pointer dereference''
      | Some h \<Rightarrow>
          Ret (if Number h \<noteq> of_nat (length ledger) then None
               else if PreviousHash h \<noteq> lastHash ledger then None
               else Some (ledger @ [block])))"

section \<open>The block writer\<close>

record bw_env =
  beCodec :: codec
  beVc :: value_codec
  beMs :: msp_setup
  beSigner :: signer
  beNonce :: "u64 \<Rightarrow> bytes option"

record BlockWriter =
  bwLastConfigBlockNum :: u64
  bwLastConfigSeq :: u64
  bwLastBlock :: Block
  bwPending :: "bytes option"
  bwBundle :: Bundle
  bwLedger :: "Block list"
  bwNewChains :: "Envelope list"

definition Sequence :: "BlockWriter \<Rightarrow> u64" where
  "Sequence bw = viSequence (buConfigtxManager (bwBundle bw))"

definition newBlockWriter :: "bw_env \<Rightarrow> Block \<Rightarrow> Bundle \<Rightarrow> Block list \<Rightarrow> BlockWriter go" where
  "newBlockWriter env lastBlock bundle ledger =
     (let bw = \<lparr>bwLastConfigBlockNum = 0, bwLastConfigSeq = viSequence (buConfigtxManager bundle), bwLastBlock = lastBlock,
                bwPending = None, bwBundle = bundle, bwLedger = ledger, bwNewChains = []\<rparr>
      in case blkHeader lastBlock of
           None \<Rightarrow> Panic ''nil pointer dereference''
         | Some h \<Rightarrow>
             if Number h = 0 then Ret bw
             else go_bind (GetLastConfigIndexFromBlock (beCodec env) lastBlock) (\<lambda>r.
                  case r of
                    Inl e \<Rightarrow> Panic ''Error extracting last config block from block metadata''
                  | Inr n \<Rightarrow> Ret (bw\<lparr>bwLastConfigBlockNum := n\<rparr>)))"

fun marshalAll :: "codec \<Rightarrow> Envelope list \<Rightarrow> bytes list go" where
  "marshalAll c [] = Ret []"
| "marshalAll c (msg # msgs) =
     (case maEnvelope c msg of
        None \<Rightarrow> Panic ''Could not marshal envelope''
      | Some b \<Rightarrow> go_bind (marshalAll c msgs) (\<lambda>bs. Ret (b # bs)))"

definition CreateNextBlock :: "bw_env \<Rightarrow> Envelope list \<Rightarrow> BlockWriter \<Rightarrow> Block go" where
  "CreateNextBlock env messages bw =
     (case blkHeader (bwLastBlock bw) of
        None \<Rightarrow> Panic ''nil pointer dereference''
      | Some h \<Rightarrow>
          (let previousBlockHash = BlockHeaderHash h
           in go_bind (marshalAll (beCodec env) messages) (\<lambda>data.
              let block = NewBlock (Number h + 1) previousBlockHash
              in Ret (block\<lparr>blkHeader := map_option (\<lambda>h. h\<lparr>DataHash := BlockDataHash data\<rparr>) (blkHeader block), blkData := Some data\<rparr>))))"

definition setMetadata :: "nat \<Rightarrow> bytes \<Rightarrow> Block \<Rightarrow> Block go" where
  "setMetadata index value block =
     (case blkMetadata block of
        None \<Rightarrow> Panic ''nil pointer dereference''
      | Some md \<Rightarrow> if index < length md then Ret (block\<lparr>blkMetadata := Some (md[index := value])\<rparr>)
                   else Panic ''index out of range'')"

definition addLastConfig :: "bw_env \<Rightarrow> BlockWriter \<Rightarrow> BlockWriter go" where
  "addLastConfig env bw =
     (case blkHeader (bwLastBlock bw) of
        None \<Rightarrow> Panic ''nil pointer dereference''
      | Some h \<Rightarrow>
          (let configSeq = Sequence bw;
               bw = (if configSeq > bwLastConfigSeq bw
                     then bw\<lparr>bwLastConfigBlockNum := Number h, bwLastConfigSeq := configSeq\<rparr> else bw)
           in go_bind (MarshalOrPanic (maLastConfig (beCodec env)) \<lparr>lcIndex = bwLastConfigBlockNum bw\<rparr>) (\<lambda>lastConfigValue.
              go_bind (MarshalOrPanic (maMetadata (beCodec env)) \<lparr>mdValue = lastConfigValue, mdSignatures = []\<rparr>) (\<lambda>md.
              go_bind (setMetadata LAST_CONFIG md (bwLastBlock bw)) (\<lambda>block.
              Ret (bw\<lparr>bwLastBlock := block\<rparr>))))))"

definition addBlockSignature :: "bw_env \<Rightarrow> bytes \<Rightarrow> BlockWriter \<Rightarrow> BlockWriter go" where
  "addBlockSignature env consenterMetadata bw =
     (case blkHeader (bwLastBlock bw) of
        None \<Rightarrow> Panic ''nil pointer dereference''
      | Some h \<Rightarrow>
          go_bind (NewSignatureHeaderOrPanic (Some (beSigner env)) (beNonce env (Number h))) (\<lambda>sh.
          go_bind (MarshalOrPanic (maSignatureHeader (beCodec env)) sh) (\<lambda>signatureHeader.
          go_bind (MarshalOrPanic (maMetadata (beCodec env)) \<lparr>mdValue = consenterMetadata, mdSignatures = []\<rparr>) (\<lambda>cm.
          go_bind (MarshalOrPanic (maOrdererBlockMetadata (beCodec env))
                     \<lparr>obmLastConfig = Some \<lparr>lcIndex = bwLastConfigBlockNum bw\<rparr>, obmConsenterMetadata = cm\<rparr>) (\<lambda>blockSignatureValue.
          go_bind (SignOrPanic (Some (beSigner env)) (blockSignatureValue @ signatureHeader @ BlockHeaderBytes h)) (\<lambda>sig.
          go_bind (MarshalOrPanic (maMetadata (beCodec env))
                     \<lparr>mdValue = blockSignatureValue, mdSignatures = [\<lparr>msSignatureHeader = signatureHeader, msSignature = sig\<rparr>]\<rparr>) (\<lambda>md.
          go_bind (setMetadata SIGNATURES md (bwLastBlock bw)) (\<lambda>block.
          Ret (bw\<lparr>bwLastBlock := block\<rparr>)))))))))"

definition commitBlock :: "bw_env \<Rightarrow> bytes \<Rightarrow> BlockWriter \<Rightarrow> BlockWriter go" where
  "commitBlock env encodedMetadataValue bw =
     go_bind (addLastConfig env bw) (\<lambda>bw.
     go_bind (addBlockSignature env encodedMetadataValue bw) (\<lambda>bw.
     go_bind (addBlock (bwLedger bw) (bwLastBlock bw)) (\<lambda>r.
     case r of None \<Rightarrow> Panic ''Could not append block'' | Some ledger \<Rightarrow> Ret (bw\<lparr>bwLedger := ledger\<rparr>))))"

text \<open>\<open>committingBlock.Lock()\<close>: wait until the goroutine has committed and released the lock.\<close>

definition acquire :: "bw_env \<Rightarrow> BlockWriter \<Rightarrow> BlockWriter go" where
  "acquire env bw =
     (case bwPending bw of
        None \<Rightarrow> Ret bw
      | Some md \<Rightarrow> go_bind (commitBlock env md bw) (\<lambda>bw. Ret (bw\<lparr>bwPending := None\<rparr>)))"

definition WriteBlock :: "bw_env \<Rightarrow> Block \<Rightarrow> bytes \<Rightarrow> BlockWriter \<Rightarrow> BlockWriter go" where
  "WriteBlock env block encodedMetadataValue bw =
     go_bind (acquire env bw) (\<lambda>bw. Ret (bw\<lparr>bwLastBlock := block, bwPending := Some encodedMetadataValue\<rparr>))"

definition checkResources :: "Bundle \<Rightarrow> string option" where
  "checkResources res =
     (case OrdererConfig_of res of
        None \<Rightarrow> Some ''config does not contain orderer config''
      | Some oc \<Rightarrow>
          (case Supported OrdererHasCapability (opCapabilities (ocProtos oc)) of
             Some cap \<Rightarrow> Some (''config requires unsupported orderer capabilities: '' @ cap)
           | None \<Rightarrow>
               (case Supported ChannelHasCapability (cpCapabilities (ccProtos (buChannelConfig res))) of
                  Some cap \<Rightarrow> Some (''config requires unsupported channel capabilities: '' @ cap)
                | None \<Rightarrow> None)))"

definition Update :: "Bundle \<Rightarrow> BlockWriter \<Rightarrow> BlockWriter go" where
  "Update bundle bw =
     (case checkResources bundle of
        Some e \<Rightarrow> Panic e
      | None \<Rightarrow> Ret (bw\<lparr>bwBundle := bundle\<rparr>))"

text \<open>The case \<open>HeaderType_CONFIG\<close>: the new bundle and the metadata to write, before the lock is taken.\<close>

definition newConfig :: "bw_env \<Rightarrow> ChannelHeader \<Rightarrow> bytes \<Rightarrow> bytes \<Rightarrow> BlockWriter \<Rightarrow> (Bundle \<times> bytes) go" where
  "newConfig env chdr data encodedMetadataValue bw =
     (case UnmarshalConfigEnvelope (beCodec env) data of
        Inl _ \<Rightarrow> Panic ''did not have config envelope encoded''
      | Inr configEnvelope \<Rightarrow>
          (case Validate (beCodec env) (ccMspManager (buChannelConfig (bwBundle bw)))
                  (buConfigtxManager (bwBundle bw)) (Some configEnvelope) of
             Some _ \<Rightarrow> Panic ''could not apply it''
           | None \<Rightarrow>
               (case NewBundle (beVc env) (beMs env) (chChannelId chdr) (ceConfig configEnvelope) of
                  Inl _ \<Rightarrow> Panic ''could not convert it to a bundle''
                | Inr bundle \<Rightarrow>
                    (case OrdererConfig_of bundle of
                       None \<Rightarrow> Panic ''OrdererConfig missing from bundle''
                     | Some oc \<Rightarrow>
                         (case OrdererConfig_of (bwBundle bw) of
                            None \<Rightarrow> Panic ''has no orderer configuration''
                          | Some current \<Rightarrow>
                              Ret (bundle,
                                   if ctType (opConsensusType (ocProtos current)) \<noteq> ctType (opConsensusType (ocProtos oc))
                                   then [] else encodedMetadataValue))))))"

definition WriteConfigBlock :: "bw_env \<Rightarrow> Block \<Rightarrow> bytes \<Rightarrow> BlockWriter \<Rightarrow> BlockWriter go" where
  "WriteConfigBlock env block encodedMetadataValue bw =
     (case ExtractEnvelope (beCodec env) block 0 of
        Inl _ \<Rightarrow> Panic ''could not get configtx''
      | Inr ctx \<Rightarrow>
          (case UnmarshalPayload (beCodec env) (slice_bytes (Envelope.Payload ctx)) of
             Inl _ \<Rightarrow> Panic ''configtx payload is invalid''
           | Inr payload \<Rightarrow>
               (case plHeader payload of
                  None \<Rightarrow> Panic ''configtx payload header is missing''
                | Some header \<Rightarrow>
                    (case UnmarshalChannelHeader (beCodec env) (slice_bytes (hdrChannelHeader header)) of
                       Inl _ \<Rightarrow> Panic ''invalid channel header''
                     | Inr chdr \<Rightarrow>
                         if chType chdr = HeaderType_ORDERER_TRANSACTION then
                           (case UnmarshalEnvelope (beCodec env) (plData payload) of
                              Inl _ \<Rightarrow> Panic ''did not have config update embedded''
                            | Inr newChannelConfig \<Rightarrow>
                                WriteBlock env block encodedMetadataValue
                                  (bw\<lparr>bwNewChains := bwNewChains bw @ [newChannelConfig]\<rparr>))
                         else if chType chdr = HeaderType_CONFIG then
                           go_bind (newConfig env chdr (plData payload) encodedMetadataValue bw) (\<lambda>(bundle, md).
                           go_bind (acquire env bw) (\<lambda>bw.
                           go_bind (Update bundle bw) (\<lambda>bw.
                           WriteBlock env block md bw)))
                         else Panic ''unknown header type''))))"

section \<open>Commits\<close>

definition nextLastConfig :: "BlockWriter \<Rightarrow> BlockHeader \<Rightarrow> u64 \<times> u64" where
  "nextLastConfig bw h =
     (if Sequence bw > bwLastConfigSeq bw then (Number h, Sequence bw) else (bwLastConfigBlockNum bw, bwLastConfigSeq bw))"

lemma MarshalOrPanic_Ret [simp]: "MarshalOrPanic ma m = Ret b \<longleftrightarrow> ma m = Some b"
  by (simp add: MarshalOrPanic_def split: option.splits)

lemma setMetadata_Ret:
  "setMetadata i v blk = Ret blk' \<longleftrightarrow>
     (\<exists>md. blkMetadata blk = Some md \<and> i < length md \<and> blk' = blk\<lparr>blkMetadata := Some (md[i := v])\<rparr>)"
  by (auto simp: setMetadata_def split: option.splits)

lemma addLastConfig_Ret:
  assumes "addLastConfig env bw = Ret bw'"
  obtains h lcv v md where
    "blkHeader (bwLastBlock bw) = Some h" "blkMetadata (bwLastBlock bw) = Some md" "LAST_CONFIG < length md"
    "maLastConfig (beCodec env) \<lparr>lcIndex = fst (nextLastConfig bw h)\<rparr> = Some lcv"
    "maMetadata (beCodec env) \<lparr>mdValue = lcv, mdSignatures = []\<rparr> = Some v"
    "bw' = bw\<lparr>bwLastConfigBlockNum := fst (nextLastConfig bw h), bwLastConfigSeq := snd (nextLastConfig bw h),
               bwLastBlock := (bwLastBlock bw)\<lparr>blkMetadata := Some (md[LAST_CONFIG := v])\<rparr>\<rparr>"
  using assms
  by (auto simp: addLastConfig_def Let_def nextLastConfig_def setMetadata_Ret split: option.splits if_splits)

lemma addBlockSignature_Ret:
  assumes "addBlockSignature env cm bw = Ret bw'"
  obtains h c sv shb sig v md where
    "blkHeader (bwLastBlock bw) = Some h" "blkMetadata (bwLastBlock bw) = Some md" "SIGNATURES < length md"
    "maMetadata (beCodec env) \<lparr>mdValue = cm, mdSignatures = []\<rparr> = Some c"
    "maOrdererBlockMetadata (beCodec env) \<lparr>obmLastConfig = Some \<lparr>lcIndex = bwLastConfigBlockNum bw\<rparr>, obmConsenterMetadata = c\<rparr> = Some sv"
    "Sign (beSigner env) (sv @ shb @ BlockHeaderBytes h) = Some sig"
    "maMetadata (beCodec env) \<lparr>mdValue = sv, mdSignatures = [\<lparr>msSignatureHeader = shb, msSignature = sig\<rparr>]\<rparr> = Some v"
    "bw' = bw\<lparr>bwLastBlock := (bwLastBlock bw)\<lparr>blkMetadata := Some (md[SIGNATURES := v])\<rparr>\<rparr>"
  using assms
  by (auto simp: addBlockSignature_def setMetadata_Ret SignOrPanic_def split: option.splits)

lemma addBlock_Ret: "addBlock l blk = Ret (Some l') \<longleftrightarrow>
   (\<exists>h. blkHeader blk = Some h \<and> Number h = of_nat (length l) \<and> PreviousHash h = lastHash l \<and> l' = l @ [blk])"
  by (auto simp: addBlock_def split: option.splits)

text \<open>The metadata a commit leaves in the block.\<close>

definition signed_metadata :: "bw_env \<Rightarrow> u64 \<Rightarrow> bytes \<Rightarrow> Block \<Rightarrow> bool" where
  "signed_metadata env n cm blk \<longleftrightarrow>
     (\<exists>h md b0 b1 lcv c sv shb sig. blkHeader blk = Some h \<and> blkMetadata blk = Some md \<and> 2 \<le> length md \<and> md ! SIGNATURES = b0 \<and> md ! LAST_CONFIG = b1
        \<and> maLastConfig (beCodec env) \<lparr>lcIndex = n\<rparr> = Some lcv
        \<and> maMetadata (beCodec env) \<lparr>mdValue = lcv, mdSignatures = []\<rparr> = Some b1
        \<and> maMetadata (beCodec env) \<lparr>mdValue = cm, mdSignatures = []\<rparr> = Some c
        \<and> maOrdererBlockMetadata (beCodec env) \<lparr>obmLastConfig = Some \<lparr>lcIndex = n\<rparr>, obmConsenterMetadata = c\<rparr> = Some sv
        \<and> Sign (beSigner env) (sv @ shb @ BlockHeaderBytes h) = Some sig
        \<and> maMetadata (beCodec env) \<lparr>mdValue = sv, mdSignatures = [\<lparr>msSignatureHeader = shb, msSignature = sig\<rparr>]\<rparr> = Some b0)"

lemma commitBlock_Ret:
  assumes "commitBlock env cm bw = Ret bw'"
  obtains h blk where
    "blkHeader (bwLastBlock bw) = Some h" "blkHeader blk = Some h" "blkData blk = blkData (bwLastBlock bw)"
    "Number h = of_nat (length (bwLedger bw))" "PreviousHash h = lastHash (bwLedger bw)"
    "signed_metadata env (fst (nextLastConfig bw h)) cm blk"
    "bw' = bw\<lparr>bwLastConfigBlockNum := fst (nextLastConfig bw h), bwLastConfigSeq := snd (nextLastConfig bw h),
               bwLastBlock := blk, bwLedger := bwLedger bw @ [blk]\<rparr>"
proof -
  from assms obtain bw1 bw2 l where
    1: "addLastConfig env bw = Ret bw1" and 2: "addBlockSignature env cm bw1 = Ret bw2"
    and 3: "addBlock (bwLedger bw2) (bwLastBlock bw2) = Ret (Some l)" and bw': "bw' = bw2\<lparr>bwLedger := l\<rparr>"
    by (auto simp: commitBlock_def split: option.splits)
  obtain h lcv v md where a:
    "blkHeader (bwLastBlock bw) = Some h" "blkMetadata (bwLastBlock bw) = Some md" "LAST_CONFIG < length md"
    "maLastConfig (beCodec env) \<lparr>lcIndex = fst (nextLastConfig bw h)\<rparr> = Some lcv"
    "maMetadata (beCodec env) \<lparr>mdValue = lcv, mdSignatures = []\<rparr> = Some v"
    "bw1 = bw\<lparr>bwLastConfigBlockNum := fst (nextLastConfig bw h), bwLastConfigSeq := snd (nextLastConfig bw h),
               bwLastBlock := (bwLastBlock bw)\<lparr>blkMetadata := Some (md[LAST_CONFIG := v])\<rparr>\<rparr>"
    using addLastConfig_Ret [OF 1] .
  obtain h' c sv shb sig v' md' where b:
    "blkHeader (bwLastBlock bw1) = Some h'" "blkMetadata (bwLastBlock bw1) = Some md'" "SIGNATURES < length md'"
    "maMetadata (beCodec env) \<lparr>mdValue = cm, mdSignatures = []\<rparr> = Some c"
    "maOrdererBlockMetadata (beCodec env) \<lparr>obmLastConfig = Some \<lparr>lcIndex = bwLastConfigBlockNum bw1\<rparr>, obmConsenterMetadata = c\<rparr> = Some sv"
    "Sign (beSigner env) (sv @ shb @ BlockHeaderBytes h') = Some sig"
    "maMetadata (beCodec env) \<lparr>mdValue = sv, mdSignatures = [\<lparr>msSignatureHeader = shb, msSignature = sig\<rparr>]\<rparr> = Some v'"
    "bw2 = bw1\<lparr>bwLastBlock := (bwLastBlock bw1)\<lparr>blkMetadata := Some (md'[SIGNATURES := v'])\<rparr>\<rparr>"
    using addBlockSignature_Ret [OF 2] .
  have h': "h' = h" "md' = md[LAST_CONFIG := v]" using a b(1,2) by simp_all
  have sm: "signed_metadata env (fst (nextLastConfig bw h)) cm (bwLastBlock bw2)"
    unfolding signed_metadata_def
    by (rule exI [of _ h], rule exI [of _ "md'[SIGNATURES := v']"], rule exI [of _ v'], rule exI [of _ v],
        rule exI [of _ lcv], rule exI [of _ c], rule exI [of _ sv], rule exI [of _ shb], rule exI [of _ sig])
      (use a b h' in simp)
  have "bwLedger bw2 = bwLedger bw" "blkHeader (bwLastBlock bw2) = Some h" "blkData (bwLastBlock bw2) = blkData (bwLastBlock bw)"
    using a b by simp_all
  moreover from 3 this have "Number h = of_nat (length (bwLedger bw))" "PreviousHash h = lastHash (bwLedger bw)"
    "l = bwLedger bw @ [bwLastBlock bw2]"
    by (auto simp: addBlock_Ret)
  moreover have "bw2 = bw\<lparr>bwLastConfigBlockNum := fst (nextLastConfig bw h), bwLastConfigSeq := snd (nextLastConfig bw h),
      bwLastBlock := bwLastBlock bw2\<rparr>"
    using a(6) b(8) by simp
  ultimately show thesis using that [of h "bwLastBlock bw2"] a(1) sm bw' by simp
qed

lemma acquire_None [simp]: "bwPending bw = None \<Longrightarrow> acquire env bw = Ret bw"
  by (simp add: acquire_def)

lemma acquire_keeps:
  assumes "acquire env bw = Ret bw'"
  shows "bwPending bw' = None" "bwBundle bw' = bwBundle bw" "bwNewChains bw' = bwNewChains bw"
    "blkHeader (bwLastBlock bw') = blkHeader (bwLastBlock bw)"
proof -
  have "bwPending bw' = None \<and> bwBundle bw' = bwBundle bw \<and> bwNewChains bw' = bwNewChains bw
      \<and> blkHeader (bwLastBlock bw') = blkHeader (bwLastBlock bw)"
  proof (cases "bwPending bw")
    case None
    with assms show ?thesis by simp
  next
    case (Some cm)
    with assms obtain bw1 where "commitBlock env cm bw = Ret bw1" "bw' = bw1\<lparr>bwPending := None\<rparr>"
      by (auto simp: acquire_def)
    from this(1) this(2) show ?thesis by (elim commitBlock_Ret) simp
  qed
  then show "bwPending bw' = None" "bwBundle bw' = bwBundle bw" "bwNewChains bw' = bwNewChains bw"
    "blkHeader (bwLastBlock bw') = blkHeader (bwLastBlock bw)" by simp_all
qed

lemma acquire_idem: "acquire env bw = Ret bw' \<Longrightarrow> acquire env bw' = Ret bw'"
  by (drule acquire_keeps(1)) simp

lemma commitBlock_newChains:
  "commitBlock env cm (bw\<lparr>bwNewChains := n\<rparr>) = go_bind (commitBlock env cm bw) (\<lambda>bw. Ret (bw\<lparr>bwNewChains := n\<rparr>))"
proof -
  have 1: "addLastConfig env (bw\<lparr>bwNewChains := n\<rparr>) = go_bind (addLastConfig env bw) (\<lambda>bw. Ret (bw\<lparr>bwNewChains := n\<rparr>))"
    by (cases bw) (auto simp: addLastConfig_def Sequence_def Let_def split: option.splits)
  have 2: "addBlockSignature env cm (bw\<lparr>bwNewChains := n\<rparr>) = go_bind (addBlockSignature env cm bw) (\<lambda>bw. Ret (bw\<lparr>bwNewChains := n\<rparr>))" for bw
    by (cases bw) (auto simp: addBlockSignature_def split: option.splits)
  have 3: "go_bind (addBlock (bwLedger (bw\<lparr>bwNewChains := n\<rparr>)) (bwLastBlock (bw\<lparr>bwNewChains := n\<rparr>))) (\<lambda>r.
        case r of None \<Rightarrow> Panic ''Could not append block'' | Some ledger \<Rightarrow> Ret (bw\<lparr>bwNewChains := n\<rparr>\<lparr>bwLedger := ledger\<rparr>))
      = go_bind (go_bind (addBlock (bwLedger bw) (bwLastBlock bw)) (\<lambda>r.
        case r of None \<Rightarrow> Panic ''Could not append block'' | Some ledger \<Rightarrow> Ret (bw\<lparr>bwLedger := ledger\<rparr>)))
          (\<lambda>bw. Ret (bw\<lparr>bwNewChains := n\<rparr>))" for bw
    by (cases bw) (auto simp: addBlock_def split: option.splits)
  show ?thesis
    unfolding commitBlock_def 1 go_bind_assoc go_bind.simps 2 3 ..
qed

section \<open>Schedules\<close>

text \<open>
  What the thread of the consenter does with a block writer, interleaved with the moments at which the scheduler lets
  the committing goroutine run.
\<close>

datatype bw_op =
    OpWrite "Envelope list" bytes
  | OpWriteConfig "Envelope list" bytes
  | OpCommit

fun runOp :: "bw_env \<Rightarrow> bw_op \<Rightarrow> BlockWriter \<Rightarrow> BlockWriter go" where
  "runOp env (OpWrite msgs md) bw = go_bind (CreateNextBlock env msgs bw) (\<lambda>block. WriteBlock env block md bw)"
| "runOp env (OpWriteConfig msgs md) bw = go_bind (CreateNextBlock env msgs bw) (\<lambda>block. WriteConfigBlock env block md bw)"
| "runOp env OpCommit bw = acquire env bw"

fun runOps :: "bw_env \<Rightarrow> bw_op list \<Rightarrow> BlockWriter \<Rightarrow> BlockWriter go" where
  "runOps env [] bw = Ret bw"
| "runOps env (x # xs) bw = go_bind (runOp env x bw) (runOps env xs)"

lemma CreateNextBlock_acquire: "acquire env bw = Ret bw1 \<Longrightarrow> CreateNextBlock env msgs bw1 = CreateNextBlock env msgs bw"
  by (simp add: CreateNextBlock_def acquire_keeps)

lemma WriteBlock_acquire:
  "WriteBlock env blk md bw = Ret s \<longleftrightarrow> (\<exists>bw1. acquire env bw = Ret bw1 \<and> WriteBlock env blk md bw1 = Ret s)"
  using acquire_idem [of env bw] by (cases "acquire env bw") (auto simp: WriteBlock_def)

lemma WriteBlock_newChains:
  "WriteBlock env blk md (bw\<lparr>bwNewChains := n\<rparr>) = go_bind (WriteBlock env blk md bw) (\<lambda>bw. Ret (bw\<lparr>bwNewChains := n\<rparr>))"
proof -
  have "acquire env (bw\<lparr>bwNewChains := n\<rparr>) = go_bind (acquire env bw) (\<lambda>bw. Ret (bw\<lparr>bwNewChains := n\<rparr>))"
  proof (cases "bwPending bw")
    case None
    then show ?thesis by (simp add: acquire_def)
  next
    case (Some cm)
    then show ?thesis by (cases "commitBlock env cm bw") (simp_all add: acquire_def commitBlock_newChains)
  qed
  moreover have "b\<lparr>bwNewChains := n\<rparr>\<lparr>bwLastBlock := blk, bwPending := Some md\<rparr> = b\<lparr>bwLastBlock := blk, bwPending := Some md\<rparr>\<lparr>bwNewChains := n\<rparr>" for b :: BlockWriter
    by (cases b) simp
  ultimately show ?thesis by (cases "acquire env bw") (simp_all add: WriteBlock_def)
qed

lemma newConfig_acquire:
  assumes "acquire env bw = Ret bw1"
  shows "newConfig env chdr data md bw1 = newConfig env chdr data md bw"
  unfolding newConfig_def acquire_keeps(2) [OF assms] ..

lemma WriteConfigBlock_acquire:
  "WriteConfigBlock env blk md bw = Ret s \<longleftrightarrow> (\<exists>bw1. acquire env bw = Ret bw1 \<and> WriteConfigBlock env blk md bw1 = Ret s)"
proof (cases "\<exists>bw1. acquire env bw = Ret bw1")
  case True
  then obtain bw1 where a: "acquire env bw = Ret bw1" by blast
  have w: "WriteBlock env blk md bw = WriteBlock env blk md bw1" for md
    using a acquire_idem [OF a] by (simp add: WriteBlock_def)
  have n: "WriteBlock env blk md (bw\<lparr>bwNewChains := bwNewChains bw @ x\<rparr>) = WriteBlock env blk md (bw1\<lparr>bwNewChains := bwNewChains bw1 @ x\<rparr>)" for md x
    by (simp add: WriteBlock_newChains w acquire_keeps [OF a])
  have "WriteConfigBlock env blk md bw1 = WriteConfigBlock env blk md bw"
    unfolding WriteConfigBlock_def newConfig_acquire [OF a] n a acquire_idem [OF a] ..
  with a show ?thesis by simp
next
  case False
  then obtain e where e: "acquire env bw = Panic e" by (cases "acquire env bw") auto
  have "WriteBlock env blk md' (bw\<lparr>bwNewChains := x\<rparr>) = Panic e" for md' x
    unfolding WriteBlock_newChains by (simp add: WriteBlock_def e)
  with e show ?thesis by (auto simp: WriteConfigBlock_def split: sum.splits option.splits if_splits)
qed

lemma runOp_acquire:
  "runOp env x bw = Ret s \<longleftrightarrow> (\<exists>bw1. acquire env bw = Ret bw1 \<and> runOp env x bw1 = Ret s)"
proof (cases x)
  case (OpWrite msgs md)
  then show ?thesis by (auto simp: WriteBlock_acquire [of env _ md bw] CreateNextBlock_acquire)
next
  case (OpWriteConfig msgs md)
  then show ?thesis by (auto simp: WriteConfigBlock_acquire [of env _ md bw] CreateNextBlock_acquire)
next
  case OpCommit
  then show ?thesis using acquire_idem [of env bw] by (cases "acquire env bw") auto
qed

lemma runOps_acquire:
  "go_bind (runOps env xs bw) (acquire env) = Ret s \<longleftrightarrow>
     (\<exists>bw1. acquire env bw = Ret bw1 \<and> go_bind (runOps env xs bw1) (acquire env) = Ret s)"
proof (cases xs)
  case Nil
  then show ?thesis using acquire_idem [of env bw] by (cases "acquire env bw") auto
next
  case (Cons x xs')
  then show ?thesis using runOp_acquire [of env x bw] by auto
qed

lemma runOps_erase:
  "go_bind (runOps env xs bw) (acquire env) = Ret s \<longleftrightarrow>
     go_bind (runOps env (filter (\<lambda>x. x \<noteq> OpCommit) xs) bw) (acquire env) = Ret s"
proof (induction xs arbitrary: bw)
  case Nil
  then show ?case by simp
next
  case (Cons x xs)
  show ?case
  proof (cases "x = OpCommit")
    case True
    then have "go_bind (runOps env (x # xs) bw) (acquire env) = Ret s \<longleftrightarrow>
        (\<exists>bw1. acquire env bw = Ret bw1 \<and> go_bind (runOps env xs bw1) (acquire env) = Ret s)" by auto
    also have "\<dots> \<longleftrightarrow> go_bind (runOps env (filter (\<lambda>x. x \<noteq> OpCommit) xs) bw) (acquire env) = Ret s"
      unfolding Cons.IH by (rule runOps_acquire [symmetric])
    finally show ?thesis using True by simp
  next
    case False
    then show ?thesis using Cons.IH by auto
  qed
qed

section \<open>Reachable block writers\<close>

text \<open>\<open>cfgBlock\<close>: the first envelope of the block is a channel configuration.\<close>

definition cfgBlock :: "codec \<Rightarrow> Block \<Rightarrow> bool" where
  "cfgBlock c blk =
     (case ExtractEnvelope c blk 0 of
        Inl _ \<Rightarrow> False
      | Inr env \<Rightarrow>
          (case UnmarshalPayload c (slice_bytes (Envelope.Payload env)) of
             Inl _ \<Rightarrow> False
           | Inr payload \<Rightarrow>
               (case plHeader payload of
                  None \<Rightarrow> False
                | Some header \<Rightarrow>
                    (case UnmarshalChannelHeader c (slice_bytes (hdrChannelHeader header)) of
                       Inl _ \<Rightarrow> False
                     | Inr chdr \<Rightarrow> chType chdr = HeaderType_CONFIG))))"

text \<open>The number of the last configuration block of a ledger; block 0 counts as one.\<close>

definition lastCfg :: "codec \<Rightarrow> Block list \<Rightarrow> nat" where
  "lastCfg c l = last (filter (\<lambda>i. i = 0 \<or> cfgBlock c (l ! i)) [0..<length l])"

definition linked :: "Block list \<Rightarrow> bool" where
  "linked l \<longleftrightarrow> l \<noteq> [] \<and>
     (\<forall>i < length l. \<exists>h. blkHeader (l ! i) = Some h \<and> Number h = of_nat i \<and> PreviousHash h = lastHash (take i l))"

text \<open>
  The calls the consenters make: normal blocks are not configurations, and the configuration sequence does not
  wrap around.
\<close>

fun op_ok :: "bw_env \<Rightarrow> bw_op \<Rightarrow> BlockWriter \<Rightarrow> bool" where
  "op_ok env (OpWrite msgs md) bw =
     (case CreateNextBlock env msgs bw of Ret blk \<Rightarrow> \<not> cfgBlock (beCodec env) blk | Panic _ \<Rightarrow> True)"
| "op_ok env (OpWriteConfig msgs md) bw \<longleftrightarrow> Sequence bw + 1 \<noteq> 0"
| "op_ok env OpCommit bw \<longleftrightarrow> True"

inductive bw_reachable :: "bw_env \<Rightarrow> BlockWriter \<Rightarrow> bool" for env where
  start: "newBlockWriter env g bundle [g] = Ret bw \<Longrightarrow> linked [g] \<Longrightarrow> bw_reachable env bw"
| op: "bw_reachable env bw \<Longrightarrow> op_ok env x bw \<Longrightarrow> runOp env x bw = Ret bw' \<Longrightarrow> bw_reachable env bw'"

text \<open>The invariant: the last block is the end of the ledger or fits behind it, and the last configuration is tracked.\<close>

definition bw_inv :: "bw_env \<Rightarrow> BlockWriter \<Rightarrow> bool" where
  "bw_inv env bw \<longleftrightarrow>
     linked (bwLedger bw) \<and> bwLastConfigBlockNum bw = of_nat (lastCfg (beCodec env) (bwLedger bw))
     \<and> (\<forall>i. 0 < i \<and> i < length (bwLedger bw) \<longrightarrow>
          (\<exists>cm. signed_metadata env (of_nat (lastCfg (beCodec env) (take (Suc i) (bwLedger bw)))) cm (bwLedger bw ! i)))
     \<and> (case bwPending bw of
          None \<Rightarrow> bwLastBlock bw = last (bwLedger bw) \<and> bwLastConfigSeq bw = Sequence bw
        | Some _ \<Rightarrow>
            (\<exists>h md. blkHeader (bwLastBlock bw) = Some h \<and> Number h = of_nat (length (bwLedger bw))
               \<and> PreviousHash h = lastHash (bwLedger bw) \<and> blkMetadata (bwLastBlock bw) = Some md \<and> length md = 5)
            \<and> (if cfgBlock (beCodec env) (bwLastBlock bw) then Sequence bw > bwLastConfigSeq bw
               else Sequence bw = bwLastConfigSeq bw))"

lemma linked_snoc:
  assumes "linked l" and "blkHeader b = Some h" and "Number h = of_nat (length l)" and "PreviousHash h = lastHash l"
  shows "linked (l @ [b])"
  using assms by (auto simp: linked_def nth_append less_Suc_eq)

lemma cfgBlock_data: "blkData a = blkData b \<Longrightarrow> cfgBlock c a = cfgBlock c b"
  by (simp add: cfgBlock_def ExtractEnvelope_def)

lemma lastCfg_snoc:
  assumes "l \<noteq> []"
  shows "lastCfg c (l @ [b]) = (if cfgBlock c b then length l else lastCfg c l)"
proof -
  have "filter (\<lambda>i. i = 0 \<or> cfgBlock c ((l @ [b]) ! i)) [0..<length l] = filter (\<lambda>i. i = 0 \<or> cfgBlock c (l ! i)) [0..<length l]"
    by (rule filter_cong) (auto simp: nth_append)
  with assms show ?thesis by (simp add: lastCfg_def)
qed

lemma commit_inv:
  assumes inv: "bw_inv env bw" and c: "acquire env bw = Ret bw'"
  shows "bw_inv env bw'"
proof (cases "bwPending bw")
  case None
  with assms show ?thesis by simp
next
  case (Some cm)
  with c obtain bw1 where 1: "commitBlock env cm bw = Ret bw1" and bw': "bw' = bw1\<lparr>bwPending := None\<rparr>"
    by (auto simp: acquire_def)
  from 1 obtain h blk where b: "blkHeader (bwLastBlock bw) = Some h" "blkHeader blk = Some h" "blkData blk = blkData (bwLastBlock bw)"
    "Number h = of_nat (length (bwLedger bw))" "PreviousHash h = lastHash (bwLedger bw)"
    "signed_metadata env (fst (nextLastConfig bw h)) cm blk"
    "bw1 = bw\<lparr>bwLastConfigBlockNum := fst (nextLastConfig bw h), bwLastConfigSeq := snd (nextLastConfig bw h),
               bwLastBlock := blk, bwLedger := bwLedger bw @ [blk]\<rparr>"
    by (rule commitBlock_Ret)
  have l: "linked (bwLedger bw)" and ne: "bwLedger bw \<noteq> []" using inv by (auto simp: bw_inv_def linked_def)
  have cfg: "if cfgBlock (beCodec env) blk then Sequence bw > bwLastConfigSeq bw else Sequence bw = bwLastConfigSeq bw"
    using inv Some cfgBlock_data [OF b(3)] by (simp add: bw_inv_def)
  then have n: "nextLastConfig bw h = (of_nat (lastCfg (beCodec env) (bwLedger bw @ [blk])), Sequence bw)"
    using inv b(4) by (auto simp: nextLastConfig_def lastCfg_snoc [OF ne] bw_inv_def split: if_splits)
  have led: "\<exists>cm. signed_metadata env (of_nat (lastCfg (beCodec env) (take (Suc i) (bwLedger bw @ [blk])))) cm ((bwLedger bw @ [blk]) ! i)"
    if i: "0 < i" "i < length (bwLedger bw @ [blk])" for i
  proof (cases "i < length (bwLedger bw)")
    case True
    then show ?thesis using inv i(1) by (auto simp: bw_inv_def nth_append)
  next
    case False
    with i have "i = length (bwLedger bw)" by simp
    then show ?thesis using b(6) n by auto
  qed
  show ?thesis
    using linked_snoc [OF l b(2,4,5)] led n by (simp add: bw_inv_def bw' b(7) Sequence_def)
qed

lemma CreateNextBlock_Ret:
  assumes "CreateNextBlock env msgs bw = Ret blk" and "blkHeader (bwLastBlock bw) = Some h0"
  shows "\<exists>data. marshalAll (beCodec env) msgs = Ret data \<and> blkData blk = Some data
    \<and> blkHeader blk = Some \<lparr>Number = Number h0 + 1, PreviousHash = BlockHeaderHash h0, DataHash = BlockDataHash data\<rparr>
    \<and> blkMetadata blk = Some (replicate 5 [])"
  using assms by (auto simp: CreateNextBlock_def NewBlock_def Let_def)

lemma newConfig_sequence:
  assumes "newConfig env chdr data md bw = Ret (bu, md')"
  shows "viSequence (buConfigtxManager bu) = Sequence bw + 1"
proof -
  from assms obtain ce where
    v: "Validate (beCodec env) (ccMspManager (buChannelConfig (bwBundle bw))) (buConfigtxManager (bwBundle bw)) (Some ce) = None"
    and b: "NewBundle (beVc env) (beMs env) (chChannelId chdr) (ceConfig ce) = Inr bu"
    by (auto simp: newConfig_def split: sum.splits option.splits)
  from v obtain cfg where cfg: "ceConfig ce = Some cfg" "cfgSequence cfg = Sequence bw + 1"
    by (auto simp: Validate_def Sequence_def split: option.splits if_splits)
  from NewBundle_Inr [OF b] cfg(1)
  have "NewValidatorImpl (chChannelId chdr) (Some cfg) ''Channel'' (buPolicyManager bu) = Inr (buConfigtxManager bu)"
    by (metis option.inject)
  from NewValidatorImpl_Inr [OF this] cfg(2) show ?thesis by (metis option.inject)
qed

lemma WriteConfigBlock_Ret:
  assumes "WriteConfigBlock env blk md bw = Ret bw'"
  obtains bw1 bu nc md' where "acquire env bw = Ret bw1"
    "bw' = bw1\<lparr>bwBundle := bu, bwNewChains := nc, bwLastBlock := blk, bwPending := Some md'\<rparr>"
    "if cfgBlock (beCodec env) blk then viSequence (buConfigtxManager bu) = Sequence bw + 1 else bu = bwBundle bw"
proof -
  obtain ctx payload header chdr where
    d: "ExtractEnvelope (beCodec env) blk 0 = Inr ctx" "UnmarshalPayload (beCodec env) (slice_bytes (Envelope.Payload ctx)) = Inr payload"
      "plHeader payload = Some header" "UnmarshalChannelHeader (beCodec env) (slice_bytes (hdrChannelHeader header)) = Inr chdr"
    using assms by (auto simp: WriteConfigBlock_def split: sum.splits option.splits)
  note w = assms [unfolded WriteConfigBlock_def d sum.case option.case]
  show thesis
  proof (cases "chType chdr = HeaderType_ORDERER_TRANSACTION")
    case True
    then have nc: "\<not> cfgBlock (beCodec env) blk" by (simp add: cfgBlock_def d)
    from w True obtain e where "WriteBlock env blk md (bw\<lparr>bwNewChains := bwNewChains bw @ [e]\<rparr>) = Ret bw'"
      by (auto split: sum.splits)
    then obtain b where "WriteBlock env blk md bw = Ret b" "bw' = b\<lparr>bwNewChains := bwNewChains bw @ [e]\<rparr>"
      by (auto simp: WriteBlock_newChains)
    then obtain bw1 where 1: "acquire env bw = Ret bw1" "bw' = bw1\<lparr>bwLastBlock := blk, bwPending := Some md, bwNewChains := bwNewChains bw @ [e]\<rparr>"
      by (auto simp: WriteBlock_def)
    have "bw' = bw1\<lparr>bwBundle := bwBundle bw, bwNewChains := bwNewChains bw @ [e], bwLastBlock := blk, bwPending := Some md\<rparr>"
      using 1(2) acquire_keeps(2) [OF 1(1)] by (cases bw1) simp
    from that [OF 1(1) this] nc show ?thesis by simp
  next
    case False
    with w have cfg: "chType chdr = HeaderType_CONFIG" by (auto split: if_splits)
    then have c: "cfgBlock (beCodec env) blk" by (simp add: cfgBlock_def d)
    from w False cfg obtain bu md' bw1 bw2 where
      n: "newConfig env chdr (plData payload) md bw = Ret (bu, md')" and a: "acquire env bw = Ret bw1"
      and u: "Update bu bw1 = Ret bw2" and wb: "WriteBlock env blk md' bw2 = Ret bw'"
      by auto
    have bw2: "bw2 = bw1\<lparr>bwBundle := bu\<rparr>" using u by (auto simp: Update_def split: option.splits)
    have "bw' = bw2\<lparr>bwLastBlock := blk, bwPending := Some md'\<rparr>"
      using wb acquire_keeps(1) [OF a] by (simp add: WriteBlock_def bw2)
    then have f: "bw' = bw1\<lparr>bwBundle := bu, bwNewChains := bwNewChains bw1, bwLastBlock := blk, bwPending := Some md'\<rparr>"
      by (simp add: bw2)
    show ?thesis by (rule that [OF a f]) (use newConfig_sequence [OF n] c in simp)
  qed
qed

lemma write_inv:
  assumes inv: "bw_inv env bw" and blk: "CreateNextBlock env msgs bw = Ret blk" and a: "acquire env bw = Ret bw1"
    and seq: "if cfgBlock (beCodec env) blk then viSequence (buConfigtxManager bu) > Sequence bw else bu = bwBundle bw"
  shows "bw_inv env (bw1\<lparr>bwBundle := bu, bwNewChains := nc, bwLastBlock := blk, bwPending := Some md\<rparr>)"
proof -
  have inv1: "bw_inv env bw1" by (rule commit_inv [OF inv a])
  note k = acquire_keeps [OF a]
  have l1: "linked (bwLedger bw1)" and last: "bwLastBlock bw1 = last (bwLedger bw1)" and s1: "bwLastConfigSeq bw1 = Sequence bw1"
    using inv1 k(1) by (simp_all add: bw_inv_def)
  let ?n = "length (bwLedger bw1)"
  have n: "0 < ?n" using l1 by (simp add: linked_def)
  then have "?n - 1 < ?n" by simp
  with l1 obtain h0 where h0: "blkHeader (bwLedger bw1 ! (?n - 1)) = Some h0" "Number h0 = of_nat (?n - 1)"
    unfolding linked_def by blast
  have lh: "blkHeader (last (bwLedger bw1)) = Some h0" using h0(1) n by (simp add: last_conv_nth)
  then have "blkHeader (bwLastBlock bw) = Some h0" using last k(4) by simp
  from CreateNextBlock_Ret [OF blk this] obtain data where
    hd: "blkHeader blk = Some \<lparr>Number = Number h0 + 1, PreviousHash = BlockHeaderHash h0, DataHash = BlockDataHash data\<rparr>"
    and md5: "blkMetadata blk = Some (replicate 5 [])" by blast
  have "of_nat (?n - 1) + 1 = (of_nat ?n :: u64)" using n gr0_implies_Suc by fastforce
  moreover have "lastHash (bwLedger bw1) = BlockHeaderHash h0" using lh n by (auto simp: lastHash_def)
  moreover have "Sequence bw1 = Sequence bw" using k(2) by (simp add: Sequence_def)
  moreover have "if cfgBlock (beCodec env) blk then bwLastConfigSeq bw1 < viSequence (buConfigtxManager bu)
      else viSequence (buConfigtxManager bu) = bwLastConfigSeq bw1"
    using seq s1 \<open>Sequence bw1 = Sequence bw\<close> by (auto simp: Sequence_def split: if_splits)
  ultimately show ?thesis using inv1 hd md5 h0(2) by (simp add: bw_inv_def Sequence_def)
qed

lemma lastCfg_singleton [simp]: "lastCfg c [g] = 0"
  by (simp add: lastCfg_def)

lemma bw_reachable_inv: "bw_reachable env bw \<Longrightarrow> bw_inv env bw"
proof (induction rule: bw_reachable.induct)
  case (start g bu bw)
  then obtain h where "blkHeader g = Some h" "Number h = 0" by (auto simp: linked_def)
  with start show ?case
    by (auto simp: newBlockWriter_def Let_def bw_inv_def Sequence_def)
next
  case (op bw x bw')
  show ?case
  proof (cases x)
    case (OpWrite msgs md)
    with op obtain blk bw1 where blk: "CreateNextBlock env msgs bw = Ret blk" and a: "acquire env bw = Ret bw1"
      and bw': "bw' = bw1\<lparr>bwLastBlock := blk, bwPending := Some md\<rparr>" by (auto simp: WriteBlock_def)
    have n: "\<not> cfgBlock (beCodec env) blk" using op(2) OpWrite blk by simp
    have e: "bw' = bw1\<lparr>bwBundle := bwBundle bw, bwNewChains := bwNewChains bw1, bwLastBlock := blk, bwPending := Some md\<rparr>"
      using acquire_keeps(2) [OF a] by (cases bw1) (simp add: bw')
    show ?thesis unfolding e by (rule write_inv [OF op.IH blk a]) (simp add: n)
  next
    case (OpWriteConfig msgs md)
    with op obtain blk where blk: "CreateNextBlock env msgs bw = Ret blk" and w: "WriteConfigBlock env blk md bw = Ret bw'"
      by auto
    obtain bw1 bu nc md' where a: "acquire env bw = Ret bw1"
      and bw': "bw' = bw1\<lparr>bwBundle := bu, bwNewChains := nc, bwLastBlock := blk, bwPending := Some md'\<rparr>"
      and s: "if cfgBlock (beCodec env) blk then viSequence (buConfigtxManager bu) = Sequence bw + 1 else bu = bwBundle bw"
      by (rule WriteConfigBlock_Ret [OF w])
    have "Sequence bw + 1 \<noteq> 0" using op(2) OpWriteConfig by simp
    then have "Sequence bw < Sequence bw + 1" by unat_arith
    with s have "if cfgBlock (beCodec env) blk then viSequence (buConfigtxManager bu) > Sequence bw else bu = bwBundle bw"
      by (auto split: if_splits)
    from write_inv [OF op.IH blk a this] show ?thesis by (simp add: bw')
  next
    case OpCommit
    with op commit_inv [OF op.IH] show ?thesis by simp
  qed
qed

lemma unat_of_nat_u64: "n < 2 ^ 64 \<Longrightarrow> unat (of_nat n :: u64) = n"
  by (simp add: unat_of_nat take_bit_nat_eq_self)

definition commit_total :: "bw_env \<Rightarrow> bool" where
  "commit_total env \<longleftrightarrow>
     (\<forall>m. maLastConfig (beCodec env) m \<noteq> None) \<and> (\<forall>m. maMetadata (beCodec env) m \<noteq> None)
     \<and> (\<forall>m. maOrdererBlockMetadata (beCodec env) m \<noteq> None) \<and> (\<forall>m. maSignatureHeader (beCodec env) m \<noteq> None)
     \<and> Serialize (beSigner env) \<noteq> None \<and> (\<forall>m. Sign (beSigner env) m \<noteq> None) \<and> (\<forall>n. beNonce env n \<noteq> None)"

lemma commit_possible:
  assumes inv: "bw_inv env bw" and tot: "commit_total env" and p: "bwPending bw = Some cm"
  shows "\<exists>bw'. commitBlock env cm bw = Ret bw'"
proof -
  obtain h md where h: "blkHeader (bwLastBlock bw) = Some h" "Number h = of_nat (length (bwLedger bw))"
    "PreviousHash h = lastHash (bwLedger bw)" "blkMetadata (bwLastBlock bw) = Some md" "length md = 5"
    using inv p by (auto simp: bw_inv_def)
  have ma: "\<exists>b. MarshalOrPanic (maLastConfig (beCodec env)) m1 = Ret b" "\<exists>b. MarshalOrPanic (maMetadata (beCodec env)) m2 = Ret b"
    "\<exists>b. MarshalOrPanic (maOrdererBlockMetadata (beCodec env)) m3 = Ret b" "\<exists>b. MarshalOrPanic (maSignatureHeader (beCodec env)) m4 = Ret b"
    "\<exists>s. SignOrPanic (Some (beSigner env)) m5 = Ret s" for m1 m2 m3 m4 m5
    using tot by (auto simp: commit_total_def SignOrPanic_def split: option.splits)
  have sh: "\<exists>s. NewSignatureHeaderOrPanic (Some (beSigner env)) (beNonce env n) = Ret s" for n
    using tot by (auto simp: commit_total_def NewSignatureHeaderOrPanic_def NewSignatureHeader_def)
  have "\<exists>bw1. addLastConfig env bw = Ret bw1"
    using h ma by (simp add: addLastConfig_def Let_def setMetadata_Ret del: MarshalOrPanic_Ret) metis
  then obtain bw1 where 1: "addLastConfig env bw = Ret bw1" by blast
  have "\<exists>md1. blkHeader (bwLastBlock bw1) = Some h \<and> blkMetadata (bwLastBlock bw1) = Some md1 \<and> length md1 = 5 \<and> bwLedger bw1 = bwLedger bw"
    by (rule addLastConfig_Ret [OF 1]) (use h in auto)
  then obtain md1 where
    b1: "blkHeader (bwLastBlock bw1) = Some h" "blkMetadata (bwLastBlock bw1) = Some md1" "length md1 = 5" "bwLedger bw1 = bwLedger bw"
    by blast
  have "\<exists>bw2. addBlockSignature env cm bw1 = Ret bw2"
  proof -
    obtain s where s: "NewSignatureHeaderOrPanic (Some (beSigner env)) (beNonce env (Number h)) = Ret s" using sh by blast
    obtain shb where shb: "MarshalOrPanic (maSignatureHeader (beCodec env)) s = Ret shb" using ma(4) by blast
    obtain c where c: "MarshalOrPanic (maMetadata (beCodec env)) \<lparr>mdValue = cm, mdSignatures = []\<rparr> = Ret c" using ma(2) by blast
    obtain sv where sv: "MarshalOrPanic (maOrdererBlockMetadata (beCodec env))
        \<lparr>obmLastConfig = Some \<lparr>lcIndex = bwLastConfigBlockNum bw1\<rparr>, obmConsenterMetadata = c\<rparr> = Ret sv" using ma(3) by blast
    obtain sig where sig: "SignOrPanic (Some (beSigner env)) (sv @ shb @ BlockHeaderBytes h) = Ret sig" using ma(5) by blast
    obtain v where v: "MarshalOrPanic (maMetadata (beCodec env))
        \<lparr>mdValue = sv, mdSignatures = [\<lparr>msSignatureHeader = shb, msSignature = sig\<rparr>]\<rparr> = Ret v" using ma(2) by blast
    have m: "setMetadata SIGNATURES v (bwLastBlock bw1) = Ret ((bwLastBlock bw1)\<lparr>blkMetadata := Some (md1[0 := v])\<rparr>)"
      using b1 by (auto simp: setMetadata_def)
    show ?thesis unfolding addBlockSignature_def b1(1) option.case s shb c sv sig v m go_bind.simps by blast
  qed
  then obtain bw2 where 2: "addBlockSignature env cm bw1 = Ret bw2" by blast
  have "blkHeader (bwLastBlock bw2) = Some h \<and> bwLedger bw2 = bwLedger bw"
    by (rule addBlockSignature_Ret [OF 2]) (use b1 in auto)
  then have "addBlock (bwLedger bw2) (bwLastBlock bw2) = Ret (Some (bwLedger bw @ [bwLastBlock bw2]))"
    using h(2,3) by (simp add: addBlock_def)
  with 1 2 show ?thesis by (simp add: commitBlock_def)
qed

section \<open>Properties\<close>

text \<open>
  C17. When the asynchronous commit runs makes no difference.  Take any sequence of block writes and configuration
  writes, interleaved with any moments at which the committing goroutine may run, and wait for the last commit: the
  resulting writer, with its ledger, its bundle and its metadata, is the one that the same writes give when each
  commit is left until the next call takes the lock, and the one runs without a panic exactly when the other does.
  In particular a new configuration never leaks into the commit of the block before it.
\<close>

theorem commit_schedule_irrelevant:
  "go_bind (runOps env ops bw) (acquire env) = Ret bw' \<longleftrightarrow>
   go_bind (runOps env (filter (\<lambda>x. x \<noteq> OpCommit) ops) bw) (acquire env) = Ret bw'"
  by (rule runOps_erase)

text \<open>
  C18. Every block accepted for writing is appended: in every state the block writer reaches from a genesis block, the
  pending commit succeeds (when the metadata can be marshalled and signed), the ledger check on the number and
  the previous hash included.  Afterwards the ledger holds that block, header and data unchanged, and is a
  chain in which block \<open>i\<close> has number \<open>i\<close> and the hash of block \<open>i - 1\<close>.
\<close>

theorem pending_block_committed:
  assumes "bw_reachable env bw" and "commit_total env" and "bwPending bw = Some cm"
  shows "\<exists>bw' blk. acquire env bw = Ret bw' \<and> bwPending bw' = None \<and> bwLedger bw' = bwLedger bw @ [blk]
    \<and> blkHeader blk = blkHeader (bwLastBlock bw) \<and> blkData blk = blkData (bwLastBlock bw) \<and> linked (bwLedger bw')"
proof -
  note inv = bw_reachable_inv [OF assms(1)]
  from commit_possible [OF inv assms(2,3)] obtain bw1 where 1: "commitBlock env cm bw = Ret bw1" by blast
  then have a: "acquire env bw = Ret (bw1\<lparr>bwPending := None\<rparr>)" by (simp add: acquire_def assms(3))
  have "linked (bwLedger bw1)" using commit_inv [OF inv a] by (simp add: bw_inv_def)
  with 1 a show ?thesis by (elim commitBlock_Ret) auto
qed

lemma signed_metadata_index:
  assumes "codec_ok (beCodec env)" and "signed_metadata env n cm blk"
  shows "GetLastConfigIndexFromBlock (beCodec env) blk = Ret (Inr n)"
proof -
  from assms(2) obtain md b0 b1 lcv c sv shb sig where m: "blkMetadata blk = Some md" "2 \<le> length md" "md ! SIGNATURES = b0" "md ! LAST_CONFIG = b1"
    "maLastConfig (beCodec env) \<lparr>lcIndex = n\<rparr> = Some lcv"
    "maMetadata (beCodec env) \<lparr>mdValue = lcv, mdSignatures = []\<rparr> = Some b1"
    "maOrdererBlockMetadata (beCodec env) \<lparr>obmLastConfig = Some \<lparr>lcIndex = n\<rparr>, obmConsenterMetadata = c\<rparr> = Some sv"
    "maMetadata (beCodec env) \<lparr>mdValue = sv, mdSignatures = [\<lparr>msSignatureHeader = shb, msSignature = sig\<rparr>]\<rparr> = Some b0"
    by (auto simp: signed_metadata_def)
  note d = codec_okD [OF assms(1)]
  have l: "\<not> length md \<le> SIGNATURES" "\<not> length md \<le> LAST_CONFIG" using m(2) by auto
  have "unMetadata (beCodec env) b0 = Some \<lparr>mdValue = sv, mdSignatures = [\<lparr>msSignatureHeader = shb, msSignature = sig\<rparr>]\<rparr>"
    "unMetadata (beCodec env) b1 = Some \<lparr>mdValue = lcv, mdSignatures = []\<rparr>"
    "unLastConfig (beCodec env) lcv = Some \<lparr>lcIndex = n\<rparr>"
    "unOrdererBlockMetadata (beCodec env) sv = Some \<lparr>obmLastConfig = Some \<lparr>lcIndex = n\<rparr>, obmConsenterMetadata = c\<rparr>"
    using d(6) [OF m(8)] d(6) [OF m(6)] d(8) [OF m(5)] d(7) [OF m(7)] .
  with m(1,3,4) l show ?thesis by (simp add: GetLastConfigIndexFromBlock_def GetMetadataFromBlock_def)
qed

text \<open>
  C19. The last configuration is tracked through the ledger and across restarts.  In every reachable state, the metadata of
  each committed block names the last configuration block at or before it.  And a block writer created again
  from the last block of the ledger, with the current bundle, is in the state the running one is in (the record of
  created channels apart), so nothing is lost by a restart between two commits.
\<close>

theorem last_config_tracked:
  assumes "bw_reachable env bw" and "codec_ok (beCodec env)"
  shows "(\<forall>i. 0 < i \<and> i < length (bwLedger bw) \<longrightarrow>
      GetLastConfigIndexFromBlock (beCodec env) (bwLedger bw ! i) = Ret (Inr (of_nat (lastCfg (beCodec env) (take (Suc i) (bwLedger bw))))))
    \<and> (bwPending bw = None \<longrightarrow> length (bwLedger bw) < 2 ^ 64 \<longrightarrow>
      newBlockWriter env (last (bwLedger bw)) (bwBundle bw) (bwLedger bw) = Ret (bw\<lparr>bwNewChains := []\<rparr>))"
proof -
  note inv = bw_reachable_inv [OF assms(1)]
  have idx: "GetLastConfigIndexFromBlock (beCodec env) (bwLedger bw ! i) = Ret (Inr (of_nat (lastCfg (beCodec env) (take (Suc i) (bwLedger bw)))))"
    if "0 < i" "i < length (bwLedger bw)" for i
    using inv that signed_metadata_index [OF assms(2)] unfolding bw_inv_def by blast
  have "newBlockWriter env (last (bwLedger bw)) (bwBundle bw) (bwLedger bw) = Ret (bw\<lparr>bwNewChains := []\<rparr>)"
    if p: "bwPending bw = None" and len: "length (bwLedger bw) < 2 ^ 64"
  proof -
    let ?n = "length (bwLedger bw) - 1"
    have l: "linked (bwLedger bw)" and lb: "bwLastBlock bw = last (bwLedger bw)" "bwLastConfigSeq bw = Sequence bw"
      and lc: "bwLastConfigBlockNum bw = of_nat (lastCfg (beCodec env) (bwLedger bw))"
      using inv p by (simp_all add: bw_inv_def)
    have ne: "bwLedger bw \<noteq> []" using l by (simp add: linked_def)
    then have n: "?n < length (bwLedger bw)" and last: "last (bwLedger bw) = bwLedger bw ! ?n" by (simp_all add: last_conv_nth)
    from l n obtain h where h: "blkHeader (bwLedger bw ! ?n) = Some h" "Number h = of_nat ?n" unfolding linked_def by blast
    have st: "bw\<lparr>bwNewChains := []\<rparr> = \<lparr>bwLastConfigBlockNum = of_nat (lastCfg (beCodec env) (bwLedger bw)),
        bwLastConfigSeq = viSequence (buConfigtxManager (bwBundle bw)), bwLastBlock = last (bwLedger bw), bwPending = None,
        bwBundle = bwBundle bw, bwLedger = bwLedger bw, bwNewChains = []\<rparr>"
      using p lb lc by (cases bw) (simp add: Sequence_def)
    show ?thesis
    proof (cases "?n = 0")
      case True
      then obtain b where "bwLedger bw = [b]" using ne by (cases "bwLedger bw") auto
      with True h st show ?thesis by (simp add: newBlockWriter_def last)
    next
      case False
      then have "Number h \<noteq> 0" using h(2) len n unat_of_nat_u64 [of ?n] by auto
      moreover have "take (Suc ?n) (bwLedger bw) = bwLedger bw" using ne by simp
      ultimately show ?thesis using idx [of ?n] False n h(1) st by (simp add: newBlockWriter_def last Let_def)
    qed
  qed
  with idx show ?thesis by blast
qed

definition sample_block0 :: Block where
  "sample_block0 = \<lparr>blkHeader = Some \<lparr>Number = 0, PreviousHash = [], DataHash = [7]\<rparr>, blkData = Some [], blkMetadata = Some (replicate 5 [])\<rparr>"

text \<open>Headers whose data hash has a length a Go slice can have.\<close>

definition hashes_bounded :: "Block list \<Rightarrow> bool" where
  "hashes_bounded l \<longleftrightarrow> (\<forall>b \<in> set l. \<forall>h. blkHeader b = Some h \<longrightarrow> length (DataHash h) < 2 ^ 60)"

text \<open>A collision of the block hash at position \<open>i\<close>: two headers with different bytes and the same digest.\<close>

definition collision_at :: "nat \<Rightarrow> Block list \<Rightarrow> Block list \<Rightarrow> bool" where
  "collision_at i l l' \<longleftrightarrow>
     (\<exists>h h'. blkHeader (l ! i) = Some h \<and> blkHeader (l' ! i) = Some h' \<and> BlockHeaderBytes h \<noteq> BlockHeaderBytes h'
        \<and> sha256_Sum256 (BlockHeaderBytes h) = sha256_Sum256 (BlockHeaderBytes h'))"

lemma linked_butlast:
  assumes "linked (l @ [b])" and "l \<noteq> []"
  shows "linked l"
  unfolding linked_def
proof (intro conjI allI impI)
  show "l \<noteq> []" by (rule assms(2))
  fix i assume i: "i < length l"
  then have "i < length (l @ [b])" by simp
  with assms(1) obtain h where "blkHeader ((l @ [b]) ! i) = Some h" "Number h = of_nat i" "PreviousHash h = lastHash (take i (l @ [b]))"
    unfolding linked_def by blast
  with i show "\<exists>h. blkHeader (l ! i) = Some h \<and> Number h = of_nat i \<and> PreviousHash h = lastHash (take i l)"
    by (simp add: nth_append)
qed

lemma linked_last:
  assumes "linked (l @ [b])"
  obtains h where "blkHeader b = Some h" "PreviousHash h = lastHash l"
proof -
  have "length l < length (l @ [b])" by simp
  with assms have "\<exists>h. blkHeader ((l @ [b]) ! length l) = Some h \<and> PreviousHash h = lastHash (take (length l) (l @ [b]))"
    unfolding linked_def by blast
  then show thesis using that by auto
qed

lemma lastHash_length: "length (lastHash l) \<le> 32"
  by (simp add: lastHash_def BlockHeaderHash_def split: option.splits)

text \<open>
  C20. The hash of the last block determines the whole chain: two ledgers of the same length, as the block writer keeps
  them, whose last blocks have the same hash have the same headers throughout, or else some position exhibits
  two different header encodings with the same SHA-256 digest.  It rests on the DER encoding of a header being
  injective.
\<close>

theorem hash_chain_binds:
  assumes "linked l" and "linked l'" and "length l = length l'" and "lastHash l = lastHash l'"
    and "hashes_bounded l" and "hashes_bounded l'"
  shows "map blkHeader l = map blkHeader l' \<or> (\<exists>i < length l. collision_at i l l')"
  using assms
proof (induction l arbitrary: l' rule: rev_induct)
  case Nil
  then show ?case by (simp add: linked_def)
next
  case (snoc b l)
  then obtain b' k' where l': "l' = k' @ [b']" by (cases l' rule: rev_cases) auto
  have len: "length l = length k'" using snoc.prems(3) l' by simp
  obtain h where h: "blkHeader b = Some h" "PreviousHash h = lastHash l" by (rule linked_last [OF snoc.prems(1)])
  obtain h' where h': "blkHeader b' = Some h'" "PreviousHash h' = lastHash k'" by (rule linked_last [OF snoc.prems(2) [unfolded l']])
  have hash: "sha256_Sum256 (BlockHeaderBytes h) = sha256_Sum256 (BlockHeaderBytes h')"
    using snoc.prems(4) h(1) h'(1) by (simp add: l' lastHash_def BlockHeaderHash_def)
  have bnd: "length (PreviousHash h) + length (DataHash h) < 2 ^ 61" "length (PreviousHash h') + length (DataHash h') < 2 ^ 61"
    using snoc.prems(5,6) h h' lastHash_length [of l] lastHash_length [of k'] by (auto simp: hashes_bounded_def l')
  show ?case
  proof (cases "BlockHeaderBytes h = BlockHeaderBytes h'")
    case False
    moreover have "(l @ [b]) ! length l = b" by simp
    moreover have "l' ! length l = b'" using len by (simp add: l')
    ultimately have "collision_at (length l) (l @ [b]) l'"
      using hash h(1) h'(1) by (simp add: collision_at_def)
    then show ?thesis by auto
  next
    case True
    then have eq: "h = h'" using BlockHeaderBytes_inj bnd by blast
    then have prev: "lastHash l = lastHash k'" using h(2) h'(2) by simp
    show ?thesis
    proof (cases "l = []")
      case True
      then show ?thesis using len h(1) h'(1) eq by (simp add: l')
    next
      case False
      then have "k' \<noteq> []" using len by auto
      have "map blkHeader l = map blkHeader k' \<or> (\<exists>i < length l. collision_at i l k')"
        using snoc.IH [OF linked_butlast [OF snoc.prems(1) False] linked_butlast [OF snoc.prems(2) [unfolded l'] \<open>k' \<noteq> []\<close>] len prev]
          snoc.prems(5,6) by (simp add: hashes_bounded_def l')
      then show ?thesis
      proof
        assume "map blkHeader l = map blkHeader k'"
        then show ?thesis using h(1) h'(1) eq by (simp add: l')
      next
        assume "\<exists>i < length l. collision_at i l k'"
        then obtain i where "i < length l" "collision_at i l k'" by blast
        then have "i < length (l @ [b])" "collision_at i (l @ [b]) l'" using len by (auto simp: collision_at_def l' nth_append)
        then show ?thesis by blast
      qed
    qed
  qed
qed

theorem hash_chain_binds_witness:
  "linked [sample_block0] \<and> hashes_bounded [sample_block0]
   \<and> (map blkHeader [sample_block0] = map blkHeader [sample_block0] \<or> (\<exists>i < 1. collision_at i [sample_block0] [sample_block0]))"
proof -
  have l: "linked [sample_block0]" by (simp add: linked_def sample_block0_def lastHash_def)
  have b: "hashes_bounded [sample_block0]" by (simp add: hashes_bounded_def sample_block0_def)
  from hash_chain_binds [OF l l refl refl b b] l b show ?thesis by simp
qed

definition commit_codec :: codec where
  "commit_codec = null_codec\<lparr>
     maLastConfig := (\<lambda>m. if lcIndex m = 0 then Some [7] else None), unLastConfig := (\<lambda>b. if b = [7] then Some \<lparr>lcIndex = 0\<rparr> else None),
     maMetadata := (\<lambda>m. if mdSignatures m = [] then Some (0 # mdValue m)
        else if mdSignatures m = [\<lparr>msSignatureHeader = [], msSignature = []\<rparr>] then Some (1 # mdValue m) else None),
     unMetadata := (\<lambda>b. case b of [] \<Rightarrow> None | x # v \<Rightarrow> if x = 0 then Some \<lparr>mdValue = v, mdSignatures = []\<rparr>
        else Some \<lparr>mdValue = v, mdSignatures = [\<lparr>msSignatureHeader = [], msSignature = []\<rparr>]\<rparr>),
     maOrdererBlockMetadata := (\<lambda>m. if obmLastConfig m = Some \<lparr>lcIndex = 0\<rparr> then Some (5 # obmConsenterMetadata m) else None),
     unOrdererBlockMetadata := (\<lambda>b. case b of [] \<Rightarrow> None | x # v \<Rightarrow> Some \<lparr>obmLastConfig = Some \<lparr>lcIndex = 0\<rparr>, obmConsenterMetadata = v\<rparr>),
     maSignatureHeader := (\<lambda>m. if m = \<lparr>shCreator = [], shNonce = []\<rparr> then Some [] else None),
     unSignatureHeader := (\<lambda>b. Some \<lparr>shCreator = [], shNonce = []\<rparr>)\<rparr>"

definition sample_env_of :: "codec \<Rightarrow> bw_env" where
  "sample_env_of c = \<lparr>beCodec = c, beVc = sample_vc, beMs = sample_ms,
     beSigner = \<lparr>Sign = (\<lambda>_. Some []), Serialize = Some []\<rparr>, beNonce = (\<lambda>_. Some [])\<rparr>"

definition sample_bw0 :: BlockWriter where
  "sample_bw0 = \<lparr>bwLastConfigBlockNum = 0, bwLastConfigSeq = viSequence (buConfigtxManager sample_bundle), bwLastBlock = sample_block0,
     bwPending = None, bwBundle = sample_bundle, bwLedger = [sample_block0], bwNewChains = []\<rparr>"

lemma sample_bw0_reachable: "bw_reachable env sample_bw0"
  by (rule bw_reachable.start [of env sample_block0 sample_bundle])
    (simp_all add: newBlockWriter_def sample_block0_def sample_bw0_def linked_def lastHash_def)

definition sample_block1 :: Block where
  "sample_block1 = (NewBlock 1 (BlockHeaderHash \<lparr>Number = 0, PreviousHash = [], DataHash = [7]\<rparr>))
     \<lparr>blkHeader := Some \<lparr>Number = 1, PreviousHash = BlockHeaderHash \<lparr>Number = 0, PreviousHash = [], DataHash = [7]\<rparr>, DataHash = BlockDataHash []\<rparr>, blkData := Some []\<rparr>"

definition sample_bw1 :: BlockWriter where
  "sample_bw1 = sample_bw0\<lparr>bwLastBlock := sample_block1, bwPending := Some [3]\<rparr>"

lemma sample_bw1_reachable: "bw_reachable env sample_bw1"
proof (rule bw_reachable.op [OF sample_bw0_reachable, of _ "OpWrite [] [3]"])
  have c: "CreateNextBlock env [] sample_bw0 = Ret sample_block1"
    by (simp add: CreateNextBlock_def sample_bw0_def sample_block0_def sample_block1_def NewBlock_def Let_def)
  show "op_ok env (OpWrite [] [3]) sample_bw0"
    by (simp add: c cfgBlock_def ExtractEnvelope_def sample_block1_def NewBlock_def)
  show "runOp env (OpWrite [] [3]) sample_bw0 = Ret sample_bw1"
    by (simp add: c WriteBlock_def sample_bw1_def) (simp add: sample_bw0_def)
qed

theorem pending_block_committed_witness:
  "\<exists>env bw' blk. acquire env sample_bw1 = Ret bw' \<and> bwLedger bw' = [sample_block0, blk] \<and> blkHeader blk = blkHeader sample_block1"
proof -
  let ?c = "null_codec\<lparr>maLastConfig := (\<lambda>_. Some []), maMetadata := (\<lambda>_. Some []), maOrdererBlockMetadata := (\<lambda>_. Some []), maSignatureHeader := (\<lambda>_. Some [])\<rparr>"
  have t: "commit_total (sample_env_of ?c)" by (simp add: commit_total_def sample_env_of_def)
  have p: "bwPending sample_bw1 = Some [3]" by (simp add: sample_bw1_def)
  from pending_block_committed [OF sample_bw1_reachable t p] show ?thesis
    by (auto simp: sample_bw1_def sample_bw0_def)
qed

theorem last_config_tracked_witness:
  "\<exists>bw. bw_reachable (sample_env_of commit_codec) bw \<and> length (bwLedger bw) = 2 \<and> bwPending bw = None \<and> codec_ok commit_codec
     \<and> GetLastConfigIndexFromBlock commit_codec (bwLedger bw ! 1) = Ret (Inr (of_nat (lastCfg commit_codec (take 2 (bwLedger bw)))))
     \<and> newBlockWriter (sample_env_of commit_codec) (last (bwLedger bw)) (bwBundle bw) (bwLedger bw) = Ret (bw\<lparr>bwNewChains := []\<rparr>)"
proof -
  let ?e = "sample_env_of commit_codec"
  have ok: "codec_ok commit_codec"
    by (auto simp: codec_ok_def inverts_on_def commit_codec_def null_codec_def split: if_splits)
  have "\<exists>bw. acquire ?e sample_bw1 = Ret bw \<and> length (bwLedger bw) = 2 \<and> bwPending bw = None"
    by (simp add: acquire_def commitBlock_def addLastConfig_def addBlockSignature_def sample_bw1_def sample_bw0_def sample_block1_def NewBlock_def
        Sequence_def sample_env_of_def commit_codec_def MarshalOrPanic_def setMetadata_def SignOrPanic_def NewSignatureHeaderOrPanic_def
        NewSignatureHeader_def addBlock_def lastHash_def sample_block0_def Let_def)
  then obtain bw where bw: "acquire ?e sample_bw1 = Ret bw" "length (bwLedger bw) = 2" "bwPending bw = None" by blast
  have r: "bw_reachable ?e bw"
    by (rule bw_reachable.op [OF sample_bw1_reachable, of _ OpCommit]) (simp_all add: bw(1))
  have c: "beCodec ?e = commit_codec" by (simp add: sample_env_of_def)
  note t = last_config_tracked [OF r, unfolded c, OF ok]
  have "Suc 1 = (2 :: nat)" by simp
  then have
    "GetLastConfigIndexFromBlock commit_codec (bwLedger bw ! 1) = Ret (Inr (of_nat (lastCfg commit_codec (take 2 (bwLedger bw)))))"
    "newBlockWriter ?e (last (bwLedger bw)) (bwBundle bw) (bwLedger bw) = Ret (bw\<lparr>bwNewChains := []\<rparr>)"
    using conjunct1 [OF t, THEN spec [of _ 1]] conjunct2 [OF t] bw(2,3) by simp_all
  with r bw ok show ?thesis by blast
qed

end
