(* ===== verification/TxUtils.thy ===== *)
theory TxUtils
  imports ProtoUtil
begin

text \<open>
  Transactions and proposals: \<open>protoutil/txutils.go\<close>, \<open>protoutil/proputils.go\<close> and the accessors of
  \<open>protoutil/unmarshalers.go\<close> for the messages of the peer.  Signed envelopes, proposals for a chaincode and their
  transaction ids, the hash that binds an endorsement to its proposal, proposal responses, and the transaction that a
  client assembles from a proposal and its endorsements.

  The protobuf library is a parameter as in \<^verbatim>\<open>ProtoUtil\<close>: a \<open>peer_codec\<close> holds the functions for the messages of
  the peer.  The clock, the nonce and the signer are arguments.
\<close>

section \<open>Messages\<close>

record ChaincodeID =
  ccidPath :: string
  ccidName :: string
  ccidVersion :: string

record ChaincodeInput =
  ciArgs :: "bytes list"
  ciDecorations :: "(string \<times> bytes) list"
  ciIsInit :: bool

record ChaincodeSpec =
  specType :: int
  specChaincodeId :: "ChaincodeID option"
  specInput :: "ChaincodeInput option"
  specTimeout :: int

record ChaincodeInvocationSpec =
  cisChaincodeSpec :: "ChaincodeSpec option"

record ChaincodeDeploymentSpec =
  cdsChaincodeSpec :: "ChaincodeSpec option"
  cdsCodePackage :: bytes

record ChaincodeHeaderExtension =
  cheChaincodeId :: "ChaincodeID option"

record ChaincodeProposalPayload =
  cppInput :: bytes
  cppTransientMap :: "(string \<times> bytes) list"

record Proposal =
  propHeader :: bytes
  propPayload :: slice
  propExtension :: bytes

record SignedProposal =
  spProposalBytes :: bytes
  spSignature :: bytes

record Response =
  respStatus :: int
  respMessage :: string
  respPayload :: bytes

record Endorsement =
  endEndorser :: bytes
  endSignature :: bytes

record ProposalResponse =
  prVersion :: int
  prTimestamp :: "Timestamp option"
  prResponse :: "Response option"
  prPayload :: slice
  prEndorsement :: "Endorsement option"

record ChaincodeEndorsedAction =
  ceaProposalResponsePayload :: slice
  ceaEndorsements :: "Endorsement option list"

record ChaincodeActionPayload =
  capChaincodeProposalPayload :: slice
  capAction :: "ChaincodeEndorsedAction option"

record TransactionAction =
  taHeader :: bytes
  taPayload :: bytes

record Transaction =
  txActions :: "TransactionAction list"

record ChaincodeAction =
  caResults :: bytes
  caEvents :: bytes
  caResponse :: "Response option"
  caChaincodeId :: "ChaincodeID option"

record ProposalResponsePayload =
  prpProposalHash :: bytes
  prpExtension :: slice

record peer_codec =
  unChaincodeProposalPayload :: "bytes \<Rightarrow> ChaincodeProposalPayload option"
  unChaincodeActionPayload :: "bytes \<Rightarrow> ChaincodeActionPayload option"
  unProposalResponsePayload :: "bytes \<Rightarrow> ProposalResponsePayload option"
  unChaincodeAction :: "bytes \<Rightarrow> ChaincodeAction option"
  unTransaction :: "bytes \<Rightarrow> Transaction option"
  unProposal :: "bytes \<Rightarrow> Proposal option"
  unChaincodeInvocationSpec :: "bytes \<Rightarrow> ChaincodeInvocationSpec option"
  unChaincodeHeaderExtension :: "bytes \<Rightarrow> ChaincodeHeaderExtension option"
  unProposalResponse :: "bytes \<Rightarrow> ProposalResponse option"
  unResponse :: "bytes \<Rightarrow> Response option"
  unChaincodeID :: "bytes \<Rightarrow> ChaincodeID option"
  maChaincodeProposalPayload :: "ChaincodeProposalPayload \<Rightarrow> bytes option"
  maChaincodeActionPayload :: "ChaincodeActionPayload \<Rightarrow> bytes option"
  maProposalResponsePayload :: "ProposalResponsePayload \<Rightarrow> bytes option"
  maChaincodeAction :: "ChaincodeAction \<Rightarrow> bytes option"
  maTransaction :: "Transaction \<Rightarrow> bytes option"
  maProposal :: "Proposal \<Rightarrow> bytes option"
  maChaincodeInvocationSpec :: "ChaincodeInvocationSpec \<Rightarrow> bytes option"
  maChaincodeHeaderExtension :: "ChaincodeHeaderExtension \<Rightarrow> bytes option"
  maProposalResponse :: "ProposalResponse \<Rightarrow> bytes option"
  maResponse :: "Response \<Rightarrow> bytes option"
  maChaincodeDeploymentSpec :: "ChaincodeDeploymentSpec \<Rightarrow> bytes option"

datatype tx_err =
    TxProto proto_err
  | TxMarshal string
  | NoPayloadInAction
  | NoExtension
  | NoResponses
  | TxSerialize
  | SignerMismatch
  | Unsuccessful int string
  | PayloadMismatch
  | TxSign
  | TxNonce
  | TxTimestamp
  | NoActions
  | InvalidDeployment
  | BadTxID string string
  | NilChaincodeSpec
  | NilChaincodeID
  | NilArguments
  | NilPayloadHeader

section \<open>Accessors\<close>

definition UnmarshalChaincodeProposalPayload :: "peer_codec \<Rightarrow> bytes \<Rightarrow> tx_err + ChaincodeProposalPayload" where
  "UnmarshalChaincodeProposalPayload pc b = or_err (TxProto (ErrUnmarshal ''ChaincodeProposalPayload'')) (unChaincodeProposalPayload pc b)"

definition UnmarshalChaincodeActionPayload :: "peer_codec \<Rightarrow> bytes \<Rightarrow> tx_err + ChaincodeActionPayload" where
  "UnmarshalChaincodeActionPayload pc b = or_err (TxProto (ErrUnmarshal ''ChaincodeActionPayload'')) (unChaincodeActionPayload pc b)"

definition UnmarshalProposalResponsePayload :: "peer_codec \<Rightarrow> bytes \<Rightarrow> tx_err + ProposalResponsePayload" where
  "UnmarshalProposalResponsePayload pc b = or_err (TxProto (ErrUnmarshal ''ProposalResponsePayload'')) (unProposalResponsePayload pc b)"

definition UnmarshalChaincodeAction :: "peer_codec \<Rightarrow> bytes \<Rightarrow> tx_err + ChaincodeAction" where
  "UnmarshalChaincodeAction pc b = or_err (TxProto (ErrUnmarshal ''ChaincodeAction'')) (unChaincodeAction pc b)"

definition UnmarshalTransaction :: "peer_codec \<Rightarrow> bytes \<Rightarrow> tx_err + Transaction" where
  "UnmarshalTransaction pc b = or_err (TxProto (ErrUnmarshal ''Transaction'')) (unTransaction pc b)"

definition UnmarshalProposal :: "peer_codec \<Rightarrow> bytes \<Rightarrow> tx_err + Proposal" where
  "UnmarshalProposal pc b = or_err (TxProto (ErrUnmarshal ''Proposal'')) (unProposal pc b)"

definition UnmarshalChaincodeHeaderExtension :: "peer_codec \<Rightarrow> bytes \<Rightarrow> tx_err + ChaincodeHeaderExtension" where
  "UnmarshalChaincodeHeaderExtension pc b = or_err (TxProto (ErrUnmarshal ''ChaincodeHeaderExtension'')) (unChaincodeHeaderExtension pc b)"

definition UnmarshalProposalResponse :: "peer_codec \<Rightarrow> bytes \<Rightarrow> tx_err + ProposalResponse" where
  "UnmarshalProposalResponse pc b = or_err (TxProto (ErrUnmarshal ''ProposalResponse'')) (unProposalResponse pc b)"

definition UnmarshalResponse :: "peer_codec \<Rightarrow> bytes \<Rightarrow> tx_err + Response" where
  "UnmarshalResponse pc b = or_err (TxProto (ErrUnmarshal ''Response'')) (unResponse pc b)"

definition UnmarshalChaincodeID :: "peer_codec \<Rightarrow> bytes \<Rightarrow> tx_err + ChaincodeID" where
  "UnmarshalChaincodeID pc b = or_err (TxProto (ErrUnmarshal ''ChaincodeID'')) (unChaincodeID pc b)"

definition GetBytesChaincodeProposalPayload :: "peer_codec \<Rightarrow> ChaincodeProposalPayload \<Rightarrow> tx_err + bytes" where
  "GetBytesChaincodeProposalPayload pc cpp = or_err (TxMarshal ''ChaincodeProposalPayload'') (maChaincodeProposalPayload pc cpp)"

definition GetBytesChaincodeActionPayload :: "peer_codec \<Rightarrow> ChaincodeActionPayload \<Rightarrow> tx_err + bytes" where
  "GetBytesChaincodeActionPayload pc m = or_err (TxMarshal ''ChaincodeActionPayload'') (maChaincodeActionPayload pc m)"

definition GetBytesTransaction :: "peer_codec \<Rightarrow> Transaction \<Rightarrow> tx_err + bytes" where
  "GetBytesTransaction pc tx = or_err (TxMarshal ''Transaction'') (maTransaction pc tx)"

definition GetBytesProposalResponse :: "peer_codec \<Rightarrow> ProposalResponse \<Rightarrow> tx_err + bytes" where
  "GetBytesProposalResponse pc pr = or_err (TxMarshal ''ProposalResponse'') (maProposalResponse pc pr)"

definition GetBytesResponse :: "peer_codec \<Rightarrow> Response \<Rightarrow> tx_err + bytes" where
  "GetBytesResponse pc res = or_err (TxMarshal ''Response'') (maResponse pc res)"

definition GetBytesPayload :: "codec \<Rightarrow> Payload \<Rightarrow> tx_err + bytes" where
  "GetBytesPayload c payl = or_err (TxMarshal ''Payload'') (maPayload c payl)"

definition GetBytesEnvelope :: "codec \<Rightarrow> Envelope \<Rightarrow> tx_err + bytes" where
  "GetBytesEnvelope c env = or_err (TxMarshal ''Envelope'') (maEnvelope c env)"

definition GetBytesHeader :: "codec \<Rightarrow> Header \<Rightarrow> tx_err + bytes" where
  "GetBytesHeader c hdr = or_err (TxMarshal ''Header'') (maHeader c hdr)"

definition GetBytesSignatureHeader :: "codec \<Rightarrow> SignatureHeader \<Rightarrow> tx_err + bytes" where
  "GetBytesSignatureHeader c hdr = or_err (TxMarshal ''SignatureHeader'') (maSignatureHeader c hdr)"

definition GetBytesProposalResponsePayload ::
  "peer_codec \<Rightarrow> bytes \<Rightarrow> Response option \<Rightarrow> bytes \<Rightarrow> bytes \<Rightarrow> ChaincodeID option \<Rightarrow> tx_err + bytes"
where
  "GetBytesProposalResponsePayload pc hash response result event ccid =
     res_bind (or_err (TxMarshal ''ChaincodeAction'') (maChaincodeAction pc
        \<lparr>caResults = result, caEvents = event, caResponse = response, caChaincodeId = ccid\<rparr>)) (\<lambda>cActBytes.
     or_err (TxMarshal ''ProposalResponsePayload'') (maProposalResponsePayload pc
        \<lparr>prpProposalHash = hash, prpExtension = Some cActBytes\<rparr>))"

section \<open>Transaction ids\<close>

definition ComputeTxID :: "bytes \<Rightarrow> bytes \<Rightarrow> string" where
  "ComputeTxID nonce creator = hex_EncodeToString (sha256_Sum256 (nonce @ creator))"

definition CheckTxID :: "string \<Rightarrow> bytes \<Rightarrow> bytes \<Rightarrow> tx_err option" where
  "CheckTxID txid nonce creator =
     (let computedTxID = ComputeTxID nonce creator
      in if txid \<noteq> computedTxID then Some (BadTxID txid computedTxID) else None)"

definition GetOrComputeTxIDFromEnvelope :: "codec \<Rightarrow> bytes \<Rightarrow> tx_err + string" where
  "GetOrComputeTxIDFromEnvelope c txEnvelopBytes =
     (case UnmarshalEnvelope c txEnvelopBytes of
        Inl e \<Rightarrow> Inl (TxProto e)
      | Inr txEnvelope \<Rightarrow>
          (case UnmarshalPayload c (slice_bytes (Envelope.Payload txEnvelope)) of
             Inl e \<Rightarrow> Inl (TxProto e)
           | Inr txPayload \<Rightarrow>
               (case plHeader txPayload of
                  None \<Rightarrow> Inl NilPayloadHeader
                | Some header \<Rightarrow>
                    (case UnmarshalChannelHeader c (slice_bytes (hdrChannelHeader header)) of
                       Inl e \<Rightarrow> Inl (TxProto e)
                     | Inr chdr \<Rightarrow>
                         if chTxId chdr \<noteq> [] then Inr (chTxId chdr)
                         else (case UnmarshalSignatureHeader c (slice_bytes (hdrSignatureHeader header)) of
                                 Inl e \<Rightarrow> Inl (TxProto e)
                               | Inr sighdr \<Rightarrow> Inr (ComputeTxID (shNonce sighdr) (shCreator sighdr)))))))"

section \<open>Proposals\<close>

text \<open>
  \<open>now\<close> is what the clock gives, \<open>rnd\<close> the nonce.  The spec of the chaincode is dereferenced without a check.
\<close>

definition CreateChaincodeProposalWithTxIDNonceAndTransient ::
  "codec \<Rightarrow> peer_codec \<Rightarrow> time \<Rightarrow> string \<Rightarrow> int \<Rightarrow> string \<Rightarrow> ChaincodeInvocationSpec \<Rightarrow> bytes \<Rightarrow> bytes
   \<Rightarrow> (string \<times> bytes) list \<Rightarrow> (tx_err + Proposal \<times> string) go"
where
  "CreateChaincodeProposalWithTxIDNonceAndTransient c pc now txid typ channelID cis nonce creator transientMap =
     (case cisChaincodeSpec cis of
        None \<Rightarrow> Panic ''nil pointer dereference''
      | Some spec \<Rightarrow>
          try_bind (try_res id (or_err (TxMarshal ''ChaincodeHeaderExtension'')
             (maChaincodeHeaderExtension pc \<lparr>cheChaincodeId = specChaincodeId spec\<rparr>))) (\<lambda>ccHdrExtBytes.
          try_bind (try_res id (or_err (TxMarshal ''ChaincodeInvocationSpec'') (maChaincodeInvocationSpec pc cis))) (\<lambda>cisBytes.
          try_bind (try_res id (or_err (TxMarshal ''ChaincodeProposalPayload'')
             (maChaincodeProposalPayload pc \<lparr>cppInput = cisBytes, cppTransientMap = transientMap\<rparr>))) (\<lambda>ccPropPayloadBytes.
          try_bind (try_res id (or_err TxTimestamp (TimestampProto now))) (\<lambda>timestamp.
          try_bind (try_go (MarshalOrPanic (maChannelHeader c)
             \<lparr>chType = typ, chVersion = 0, chTimestamp = Some timestamp, chChannelId = channelID, chTxId = txid,
              chEpoch = 0, chExtension = ccHdrExtBytes, chTlsCertHash = None\<rparr>)) (\<lambda>chdr.
          try_bind (try_go (MarshalOrPanic (maSignatureHeader c) \<lparr>shCreator = creator, shNonce = nonce\<rparr>)) (\<lambda>shdr.
          try_bind (try_res id (or_err (TxMarshal ''Header'')
             (maHeader c \<lparr>hdrChannelHeader = Some chdr, hdrSignatureHeader = Some shdr\<rparr>))) (\<lambda>hdrBytes.
          Ret (Inr (\<lparr>propHeader = hdrBytes, propPayload = Some ccPropPayloadBytes, propExtension = []\<rparr>, txid))))))))))"

definition CreateChaincodeProposalWithTransient ::
  "codec \<Rightarrow> peer_codec \<Rightarrow> time \<Rightarrow> bytes option \<Rightarrow> int \<Rightarrow> string \<Rightarrow> ChaincodeInvocationSpec \<Rightarrow> bytes
   \<Rightarrow> (string \<times> bytes) list \<Rightarrow> (tx_err + Proposal \<times> string) go"
where
  "CreateChaincodeProposalWithTransient c pc now rnd typ channelID cis creator transientMap =
     (case rnd of
        None \<Rightarrow> Ret (Inl TxNonce)
      | Some nonce \<Rightarrow>
          CreateChaincodeProposalWithTxIDNonceAndTransient c pc now (ComputeTxID nonce creator) typ channelID cis nonce creator transientMap)"

definition CreateChaincodeProposal ::
  "codec \<Rightarrow> peer_codec \<Rightarrow> time \<Rightarrow> bytes option \<Rightarrow> int \<Rightarrow> string \<Rightarrow> ChaincodeInvocationSpec \<Rightarrow> bytes \<Rightarrow> (tx_err + Proposal \<times> string) go"
where
  "CreateChaincodeProposal c pc now rnd typ channelID cis creator =
     CreateChaincodeProposalWithTransient c pc now rnd typ channelID cis creator []"

definition CreateChaincodeProposalWithTxIDAndTransient ::
  "codec \<Rightarrow> peer_codec \<Rightarrow> time \<Rightarrow> bytes option \<Rightarrow> int \<Rightarrow> string \<Rightarrow> ChaincodeInvocationSpec \<Rightarrow> bytes \<Rightarrow> string
   \<Rightarrow> (string \<times> bytes) list \<Rightarrow> (tx_err + Proposal \<times> string) go"
where
  "CreateChaincodeProposalWithTxIDAndTransient c pc now rnd typ channelID cis creator txid transientMap =
     (case rnd of
        None \<Rightarrow> Ret (Inl TxNonce)
      | Some nonce \<Rightarrow>
          CreateChaincodeProposalWithTxIDNonceAndTransient c pc now
            (if txid = [] then ComputeTxID nonce creator else txid) typ channelID cis nonce creator transientMap)"

definition CreateProposalFromCISAndTxid ::
  "codec \<Rightarrow> peer_codec \<Rightarrow> time \<Rightarrow> bytes option \<Rightarrow> string \<Rightarrow> int \<Rightarrow> string \<Rightarrow> ChaincodeInvocationSpec \<Rightarrow> bytes
   \<Rightarrow> (tx_err + Proposal \<times> string) go"
where
  "CreateProposalFromCISAndTxid c pc now rnd txid typ channelID cis creator =
     (case rnd of
        None \<Rightarrow> Ret (Inl TxNonce)
      | Some nonce \<Rightarrow> CreateChaincodeProposalWithTxIDNonceAndTransient c pc now txid typ channelID cis nonce creator [])"

definition CreateProposalFromCIS ::
  "codec \<Rightarrow> peer_codec \<Rightarrow> time \<Rightarrow> bytes option \<Rightarrow> int \<Rightarrow> string \<Rightarrow> ChaincodeInvocationSpec \<Rightarrow> bytes \<Rightarrow> (tx_err + Proposal \<times> string) go"
where
  "CreateProposalFromCIS c pc now rnd typ channelID cis creator = CreateChaincodeProposal c pc now rnd typ channelID cis creator"

text \<open>Proposals for the life cycle chaincode.  A Go conversion of a string to bytes keeps its bytes.\<close>

definition go_bytes :: "string \<Rightarrow> bytes" where
  "go_bytes s = map of_char s"

abbreviation (input) ChaincodeSpec_GOLANG :: int where
  "ChaincodeSpec_GOLANG \<equiv> 1"

definition lsccSpec :: "ChaincodeInput option \<Rightarrow> ChaincodeInvocationSpec" where
  "lsccSpec ccinp =
     \<lparr>cisChaincodeSpec = Some
        \<lparr>specType = ChaincodeSpec_GOLANG, specChaincodeId = Some \<lparr>ccidPath = [], ccidName = ''lscc'', ccidVersion = []\<rparr>,
         specInput = ccinp, specTimeout = 0\<rparr>\<rparr>"

definition inputOf :: "bytes list \<Rightarrow> ChaincodeInput" where
  "inputOf args = \<lparr>ciArgs = args, ciDecorations = [], ciIsInit = False\<rparr>"

definition CreateGetChaincodesProposal ::
  "codec \<Rightarrow> peer_codec \<Rightarrow> time \<Rightarrow> bytes option \<Rightarrow> string \<Rightarrow> bytes \<Rightarrow> (tx_err + Proposal \<times> string) go"
where
  "CreateGetChaincodesProposal c pc now rnd channelID creator =
     CreateProposalFromCIS c pc now rnd HeaderType_ENDORSER_TRANSACTION channelID
       (lsccSpec (Some (inputOf [go_bytes ''getchaincodes'']))) creator"

definition CreateGetInstalledChaincodesProposal ::
  "codec \<Rightarrow> peer_codec \<Rightarrow> time \<Rightarrow> bytes option \<Rightarrow> bytes \<Rightarrow> (tx_err + Proposal \<times> string) go"
where
  "CreateGetInstalledChaincodesProposal c pc now rnd creator =
     CreateProposalFromCIS c pc now rnd HeaderType_ENDORSER_TRANSACTION []
       (lsccSpec (Some (inputOf [go_bytes ''getinstalledchaincodes'']))) creator"

text \<open>
  The message is nil, a deployment spec, or another message, given by its bytes (\<open>None\<close> when it cannot be marshalled).
\<close>

datatype cc_package = NilPackage | DeploymentSpec ChaincodeDeploymentSpec | OtherPackage "bytes option"

definition packageBytes :: "peer_codec \<Rightarrow> cc_package \<Rightarrow> bytes option" where
  "packageBytes pc msg =
     (case msg of NilPackage \<Rightarrow> Some [] | DeploymentSpec cds \<Rightarrow> maChaincodeDeploymentSpec pc cds | OtherPackage b \<Rightarrow> b)"

definition createProposalFromCDS ::
  "codec \<Rightarrow> peer_codec \<Rightarrow> time \<Rightarrow> bytes option \<Rightarrow> string \<Rightarrow> cc_package \<Rightarrow> bytes \<Rightarrow> string \<Rightarrow> bytes list
   \<Rightarrow> (tx_err + Proposal \<times> string) go"
where
  "createProposalFromCDS c pc now rnd channelID msg creator propType args =
     (case packageBytes pc msg of
        None \<Rightarrow> Ret (Inl (TxMarshal ''package''))
      | Some b \<Rightarrow>
          (let propose = (\<lambda>ccinp. CreateProposalFromCIS c pc now rnd HeaderType_ENDORSER_TRANSACTION channelID (lsccSpec ccinp) creator)
           in if propType = ''deploy'' \<or> propType = ''upgrade''
              then (case msg of
                      DeploymentSpec cds \<Rightarrow> propose (Some (inputOf ([go_bytes propType, go_bytes channelID, b] @ args)))
                    | _ \<Rightarrow> Ret (Inl InvalidDeployment))
              else if propType = ''install'' then propose (Some (inputOf [go_bytes propType, b]))
              else propose None))"

definition CreateInstallProposalFromCDS ::
  "codec \<Rightarrow> peer_codec \<Rightarrow> time \<Rightarrow> bytes option \<Rightarrow> cc_package \<Rightarrow> bytes \<Rightarrow> (tx_err + Proposal \<times> string) go"
where
  "CreateInstallProposalFromCDS c pc now rnd ccpack creator = createProposalFromCDS c pc now rnd [] ccpack creator ''install'' []"

text \<open>Deploying and upgrading differ in the first argument only.  The deployment spec is not nil.\<close>

definition lifecycleProposal ::
  "string \<Rightarrow> codec \<Rightarrow> peer_codec \<Rightarrow> time \<Rightarrow> bytes option \<Rightarrow> string \<Rightarrow> ChaincodeDeploymentSpec \<Rightarrow> bytes \<Rightarrow> bytes \<Rightarrow> bytes \<Rightarrow> bytes
   \<Rightarrow> slice \<Rightarrow> (tx_err + Proposal \<times> string) go"
where
  "lifecycleProposal propType c pc now rnd channelID cds creator policy escc vscc collectionConfig =
     (case collectionConfig of
        None \<Rightarrow> createProposalFromCDS c pc now rnd channelID (DeploymentSpec cds) creator propType [policy, escc, vscc]
      | Some cc \<Rightarrow> createProposalFromCDS c pc now rnd channelID (DeploymentSpec cds) creator propType [policy, escc, vscc, cc])"

definition CreateDeployProposalFromCDS where
  "CreateDeployProposalFromCDS = lifecycleProposal ''deploy''"

definition CreateUpgradeProposalFromCDS where
  "CreateUpgradeProposalFromCDS = lifecycleProposal ''upgrade''"

definition InvokedChaincodeName :: "peer_codec \<Rightarrow> bytes \<Rightarrow> tx_err + string" where
  "InvokedChaincodeName pc proposalBytes =
     res_bind (or_err (TxProto (ErrUnmarshal ''Proposal'')) (unProposal pc proposalBytes)) (\<lambda>proposal.
     res_bind (or_err (TxProto (ErrUnmarshal ''ChaincodeProposalPayload'')) (unChaincodeProposalPayload pc (slice_bytes (propPayload proposal)))) (\<lambda>proposalPayload.
     res_bind (or_err (TxProto (ErrUnmarshal ''ChaincodeInvocationSpec'')) (unChaincodeInvocationSpec pc (cppInput proposalPayload))) (\<lambda>cis.
     case cisChaincodeSpec cis of
       None \<Rightarrow> Inl NilChaincodeSpec
     | Some spec \<Rightarrow>
         (case specChaincodeId spec of None \<Rightarrow> Inl NilChaincodeID | Some ccid \<Rightarrow> Inr (ccidName ccid)))))"

definition GetSignedProposal :: "peer_codec \<Rightarrow> Proposal option \<Rightarrow> signer option \<Rightarrow> tx_err + SignedProposal" where
  "GetSignedProposal pc prop sg =
     (case (prop, sg) of
        (Some p, Some s) \<Rightarrow>
          res_bind (or_err (TxMarshal ''Proposal'') (maProposal pc p)) (\<lambda>propBytes.
          res_bind (or_err TxSign (Sign s propBytes)) (\<lambda>signature.
          Inr \<lparr>spProposalBytes = propBytes, spSignature = signature\<rparr>))
      | _ \<Rightarrow> Inl NilArguments)"

section \<open>Endorsements and transactions\<close>

text \<open>What goes into the transaction: the proposal payload without the transient fields.\<close>

definition GetBytesProposalPayloadForTx :: "peer_codec \<Rightarrow> ChaincodeProposalPayload option \<Rightarrow> tx_err + bytes" where
  "GetBytesProposalPayloadForTx pc payload =
     (case payload of
        None \<Rightarrow> Inl NilArguments
      | Some p \<Rightarrow> GetBytesChaincodeProposalPayload pc \<lparr>cppInput = cppInput p, cppTransientMap = []\<rparr>)"

definition GetProposalHash2 :: "Header option \<Rightarrow> slice \<Rightarrow> tx_err + bytes" where
  "GetProposalHash2 header ccPropPayl =
     (case header of
        None \<Rightarrow> Inl NilArguments
      | Some h \<Rightarrow>
          (case (hdrChannelHeader h, hdrSignatureHeader h, ccPropPayl) of
             (Some chdr, Some shdr, Some p) \<Rightarrow> Inr (sha256_Sum256 (chdr @ shdr @ p))
           | _ \<Rightarrow> Inl NilArguments))"

definition GetProposalHash1 :: "peer_codec \<Rightarrow> Header option \<Rightarrow> slice \<Rightarrow> tx_err + bytes" where
  "GetProposalHash1 pc header ccPropPayl =
     (case header of
        None \<Rightarrow> Inl NilArguments
      | Some h \<Rightarrow>
          (case (hdrChannelHeader h, hdrSignatureHeader h, ccPropPayl) of
             (Some chdr, Some shdr, Some p) \<Rightarrow>
               res_bind (UnmarshalChaincodeProposalPayload pc p) (\<lambda>cpp.
               res_bind (GetBytesProposalPayloadForTx pc (Some cpp)) (\<lambda>ppBytes.
               Inr (sha256_Sum256 (chdr @ shdr @ ppBytes))))
           | _ \<Rightarrow> Inl NilArguments))"

definition CreateProposalResponse ::
  "codec \<Rightarrow> peer_codec \<Rightarrow> bytes \<Rightarrow> slice \<Rightarrow> Response option \<Rightarrow> bytes \<Rightarrow> bytes \<Rightarrow> ChaincodeID option \<Rightarrow> signer
   \<Rightarrow> tx_err + ProposalResponse"
where
  "CreateProposalResponse c pc hdrbytes payl response results events ccid signingEndorser =
     (case UnmarshalHeader c hdrbytes of
        Inl e \<Rightarrow> Inl (TxProto e)
      | Inr hdr \<Rightarrow>
          res_bind (GetProposalHash1 pc (Some hdr) payl) (\<lambda>pHashBytes.
          res_bind (GetBytesProposalResponsePayload pc pHashBytes response results events ccid) (\<lambda>prpBytes.
          res_bind (or_err TxSerialize (Serialize signingEndorser)) (\<lambda>endorser.
          res_bind (or_err TxSign (Sign signingEndorser (prpBytes @ endorser))) (\<lambda>signature.
          Inr \<lparr>prVersion = 1, prTimestamp = None,
               prResponse = Some \<lparr>respStatus = 200, respMessage = ''OK'', respPayload = []\<rparr>,
               prPayload = Some prpBytes, prEndorsement = Some \<lparr>endEndorser = endorser, endSignature = signature\<rparr>\<rparr>)))))"

definition CreateProposalResponseFailure ::
  "codec \<Rightarrow> peer_codec \<Rightarrow> bytes \<Rightarrow> slice \<Rightarrow> Response option \<Rightarrow> bytes \<Rightarrow> bytes \<Rightarrow> string \<Rightarrow> tx_err + ProposalResponse"
where
  "CreateProposalResponseFailure c pc hdrbytes payl response results events chaincodeName =
     (case UnmarshalHeader c hdrbytes of
        Inl e \<Rightarrow> Inl (TxProto e)
      | Inr hdr \<Rightarrow>
          res_bind (GetProposalHash1 pc (Some hdr) payl) (\<lambda>pHashBytes.
          res_bind (GetBytesProposalResponsePayload pc pHashBytes response results events
                      (Some \<lparr>ccidPath = [], ccidName = chaincodeName, ccidVersion = []\<rparr>)) (\<lambda>prpBytes.
          Inr \<lparr>prVersion = 0, prTimestamp = None, prResponse = response, prPayload = Some prpBytes, prEndorsement = None\<rparr>)))"

text \<open>The loop over the responses: all successful, all with the payload of the first one (\<open>a1\<close>, nil before it).\<close>

fun checkResponses :: "slice option \<Rightarrow> ProposalResponse list \<Rightarrow> (tx_err + unit) go" where
  "checkResponses a1 [] = Ret (Inr ())"
| "checkResponses a1 (r # rs) =
     (case prResponse r of
        None \<Rightarrow> Panic ''nil pointer dereference''
      | Some response \<Rightarrow>
          if respStatus response < 200 \<or> respStatus response \<ge> 400
          then Ret (Inl (Unsuccessful (respStatus response) (respMessage response)))
          else (case a1 of
                  None \<Rightarrow> checkResponses (Some (prPayload r)) rs
                | Some a \<Rightarrow> if slice_bytes a \<noteq> slice_bytes (prPayload r) then Ret (Inl PayloadMismatch)
                            else checkResponses a1 rs))"

definition CreateSignedTx ::
  "codec \<Rightarrow> peer_codec \<Rightarrow> Proposal \<Rightarrow> signer \<Rightarrow> ProposalResponse list \<Rightarrow> (tx_err + Envelope) go"
where
  "CreateSignedTx c pc proposal sg resps =
     (if length resps = 0 then Ret (Inl NoResponses)
      else
      try_bind (try_res TxProto (UnmarshalHeader c (propHeader proposal))) (\<lambda>hdr.
      try_bind (try_res id (UnmarshalChaincodeProposalPayload pc (slice_bytes (propPayload proposal)))) (\<lambda>pPayl.
      try_bind (try_res id (or_err TxSerialize (Serialize sg))) (\<lambda>signerBytes.
      try_bind (try_res TxProto (UnmarshalSignatureHeader c (slice_bytes (hdrSignatureHeader hdr)))) (\<lambda>shdr.
      if signerBytes \<noteq> shCreator shdr then Ret (Inl SignerMismatch)
      else
      try_bind (checkResponses None resps) (\<lambda>_.
      let cea = \<lparr>ceaProposalResponsePayload = prPayload (hd resps), ceaEndorsements = map prEndorsement resps\<rparr> in
      try_bind (try_res id (GetBytesProposalPayloadForTx pc (Some pPayl))) (\<lambda>propPayloadBytes.
      try_bind (try_res id (GetBytesChaincodeActionPayload pc
         \<lparr>capChaincodeProposalPayload = Some propPayloadBytes, capAction = Some cea\<rparr>)) (\<lambda>capBytes.
      try_bind (try_res id (GetBytesTransaction pc
         \<lparr>txActions = [\<lparr>taHeader = slice_bytes (hdrSignatureHeader hdr), taPayload = capBytes\<rparr>]\<rparr>)) (\<lambda>txBytes.
      try_bind (try_res id (GetBytesPayload c \<lparr>plHeader = Some hdr, plData = txBytes\<rparr>)) (\<lambda>paylBytes.
      try_bind (try_res id (or_err TxSign (Sign sg paylBytes))) (\<lambda>sig.
      Ret (Inr \<lparr>Envelope.Payload = Some paylBytes, Signature = sig\<rparr>))))))))))))"

definition GetPayloads :: "peer_codec \<Rightarrow> TransactionAction \<Rightarrow> tx_err + ChaincodeActionPayload \<times> ChaincodeAction" where
  "GetPayloads pc txAction =
     res_bind (UnmarshalChaincodeActionPayload pc (taPayload txAction)) (\<lambda>ccPayload.
     case capAction ccPayload of
       None \<Rightarrow> Inl NoPayloadInAction
     | Some action \<Rightarrow>
         (case ceaProposalResponsePayload action of
            None \<Rightarrow> Inl NoPayloadInAction
          | Some prp \<Rightarrow>
              res_bind (UnmarshalProposalResponsePayload pc prp) (\<lambda>pRespPayload.
              case prpExtension pRespPayload of
                None \<Rightarrow> Inl NoExtension
              | Some ext \<Rightarrow> res_bind (UnmarshalChaincodeAction pc ext) (\<lambda>respPayload. Inr (ccPayload, respPayload)))))"

definition GetActionFromEnvelopeMsg :: "codec \<Rightarrow> peer_codec \<Rightarrow> Envelope \<Rightarrow> tx_err + ChaincodeAction" where
  "GetActionFromEnvelopeMsg c pc env =
     (case UnmarshalPayload c (slice_bytes (Envelope.Payload env)) of
        Inl e \<Rightarrow> Inl (TxProto e)
      | Inr payl \<Rightarrow>
          res_bind (UnmarshalTransaction pc (plData payl)) (\<lambda>tx.
          case txActions tx of
            [] \<Rightarrow> Inl NoActions
          | action # _ \<Rightarrow> res_bind (GetPayloads pc action) (\<lambda>(_, respPayload). Inr respPayload)))"

definition GetActionFromEnvelope :: "codec \<Rightarrow> peer_codec \<Rightarrow> bytes \<Rightarrow> tx_err + ChaincodeAction" where
  "GetActionFromEnvelope c pc envBytes =
     (case GetEnvelopeFromBlock c envBytes of
        Inl e \<Rightarrow> Inl (TxProto e)
      | Inr env \<Rightarrow> GetActionFromEnvelopeMsg c pc env)"

section \<open>Signed envelopes\<close>

text \<open>The data message is given by its bytes, \<open>None\<close> when it cannot be marshalled; \<open>now\<close> is the time in seconds.\<close>

definition CreateSignedEnvelopeWithTLSBinding ::
  "codec \<Rightarrow> int \<Rightarrow> bytes option \<Rightarrow> int \<Rightarrow> string \<Rightarrow> signer option \<Rightarrow> bytes option \<Rightarrow> int \<Rightarrow> u64 \<Rightarrow> slice \<Rightarrow> (tx_err + Envelope) go"
where
  "CreateSignedEnvelopeWithTLSBinding c now rnd txType channelID sg dataMsg version epoch tlsCertHash =
     (let payloadChannelHeader = (MakeChannelHeader now txType version channelID epoch)\<lparr>chTlsCertHash := tlsCertHash\<rparr> in
      try_bind (case sg of
                  None \<Rightarrow> Ret (Inr \<lparr>shCreator = [], shNonce = []\<rparr>)
                | Some s \<Rightarrow> try_res TxProto (NewSignatureHeader s rnd)) (\<lambda>payloadSignatureHeader.
      try_bind (try_res id (or_err (TxMarshal ''data'') dataMsg)) (\<lambda>data.
      try_bind (try_go (MakePayloadHeader c payloadChannelHeader payloadSignatureHeader)) (\<lambda>header.
      try_bind (try_go (MarshalOrPanic (maPayload c) \<lparr>plHeader = Some header, plData = data\<rparr>)) (\<lambda>paylBytes.
      try_bind (case sg of None \<Rightarrow> Ret (Inr []) | Some s \<Rightarrow> try_res id (or_err TxSign (Sign s paylBytes))) (\<lambda>sig.
      Ret (Inr \<lparr>Envelope.Payload = Some paylBytes, Signature = sig\<rparr>)))))))"

definition CreateSignedEnvelope ::
  "codec \<Rightarrow> int \<Rightarrow> bytes option \<Rightarrow> int \<Rightarrow> string \<Rightarrow> signer option \<Rightarrow> bytes option \<Rightarrow> int \<Rightarrow> u64 \<Rightarrow> (tx_err + Envelope) go"
where
  "CreateSignedEnvelope c now rnd txType channelID sg dataMsg version epoch =
     CreateSignedEnvelopeWithTLSBinding c now rnd txType channelID sg dataMsg version epoch None"

section \<open>Lemmas\<close>

definition successful :: "ProposalResponse \<Rightarrow> bool" where
  "successful r \<longleftrightarrow> (\<exists>response. prResponse r = Some response \<and> 200 \<le> respStatus response \<and> respStatus response < 400)"

lemma checkResponses_later:
  "checkResponses (Some a) rs = Ret (Inr ()) \<longleftrightarrow>
     (\<forall>r \<in> set rs. successful r \<and> slice_bytes (prPayload r) = slice_bytes a)"
  by (induction rs) (auto simp: successful_def split: option.splits)

lemma checkResponses_first:
  "checkResponses None rs = Ret (Inr ()) \<longleftrightarrow>
     (\<forall>r \<in> set rs. successful r \<and> slice_bytes (prPayload r) = slice_bytes (prPayload (hd rs)))"
  by (cases rs) (auto simp: checkResponses_later successful_def split: option.splits)

lemma GetProposalHash_agree:
  assumes "GetProposalHash1 pc (Some hdr) (Some p) = Inr h" and "unChaincodeProposalPayload pc p = Some cpp"
    and "GetBytesProposalPayloadForTx pc (Some cpp) = Inr b"
  shows "GetProposalHash2 (Some hdr) (Some b) = Inr h"
  using assms
  by (auto simp: GetProposalHash1_def GetProposalHash2_def UnmarshalChaincodeProposalPayload_def split: option.splits)

lemma CreateSignedTx_Inr:
  assumes "CreateSignedTx c pc prop sg rs = Ret (Inr env)"
  obtains hdr cpp shdr b cb tb pb sig where
    "rs \<noteq> []" "unHeader c (propHeader prop) = Some hdr" "unChaincodeProposalPayload pc (slice_bytes (propPayload prop)) = Some cpp"
    "unSignatureHeader c (slice_bytes (hdrSignatureHeader hdr)) = Some shdr" "Serialize sg = Some (shCreator shdr)"
    "checkResponses None rs = Ret (Inr ())" "GetBytesProposalPayloadForTx pc (Some cpp) = Inr b"
    "maChaincodeActionPayload pc \<lparr>capChaincodeProposalPayload = Some b, capAction = Some
       \<lparr>ceaProposalResponsePayload = prPayload (hd rs), ceaEndorsements = map prEndorsement rs\<rparr>\<rparr> = Some cb"
    "maTransaction pc \<lparr>txActions = [\<lparr>taHeader = slice_bytes (hdrSignatureHeader hdr), taPayload = cb\<rparr>]\<rparr> = Some tb"
    "maPayload c \<lparr>plHeader = Some hdr, plData = tb\<rparr> = Some pb" "Sign sg pb = Some sig"
    "env = \<lparr>Envelope.Payload = Some pb, Signature = sig\<rparr>"
  using assms
  by (auto simp: CreateSignedTx_def proto_accessors UnmarshalChaincodeProposalPayload_def GetBytesChaincodeActionPayload_def
      GetBytesTransaction_def GetBytesPayload_def Let_def split: if_splits)

text \<open>
  What is assumed of the protobuf library for the messages of the peer: it decodes what it has encoded, except for a field
  that is empty and not nil, which it decodes as nil, and for a nil element of a list of messages, which it decodes as an empty message;
  and a message with a field that is not empty has bytes.
\<close>

definition peer_ok :: "peer_codec \<Rightarrow> bool" where
  "peer_ok pc \<longleftrightarrow>
     inverts_on (\<lambda>m. cppTransientMap m = []) (maChaincodeProposalPayload pc) (unChaincodeProposalPayload pc)
     \<and> inverts_on (\<lambda>m. capChaincodeProposalPayload m \<noteq> Some []
           \<and> (\<forall>a. capAction m = Some a \<longrightarrow> ceaProposalResponsePayload a \<noteq> Some [] \<and> None \<notin> set (ceaEndorsements a)))
         (maChaincodeActionPayload pc) (unChaincodeActionPayload pc)
     \<and> inverts_on (\<lambda>m. prpExtension m \<noteq> Some []) (maProposalResponsePayload pc) (unProposalResponsePayload pc)
     \<and> inverts (maChaincodeAction pc) (unChaincodeAction pc) \<and> inverts (maTransaction pc) (unTransaction pc)
     \<and> (\<forall>m. maChaincodeProposalPayload pc m = Some [] \<longrightarrow> cppInput m = [])
     \<and> (\<forall>m. maChaincodeAction pc m = Some [] \<longrightarrow> caResults m = [])
     \<and> (\<forall>m. maProposalResponsePayload pc m = Some [] \<longrightarrow> prpProposalHash m = [])"

lemma peer_okD:
  assumes "peer_ok pc"
  shows "maChaincodeProposalPayload pc m1 = Some b \<Longrightarrow> cppTransientMap m1 = [] \<Longrightarrow> unChaincodeProposalPayload pc b = Some m1"
    and "maChaincodeActionPayload pc m2 = Some b \<Longrightarrow> capChaincodeProposalPayload m2 \<noteq> Some []
         \<Longrightarrow> (\<And>a. capAction m2 = Some a \<Longrightarrow> ceaProposalResponsePayload a \<noteq> Some [] \<and> None \<notin> set (ceaEndorsements a))
         \<Longrightarrow> unChaincodeActionPayload pc b = Some m2"
    and "maProposalResponsePayload pc m3 = Some b \<Longrightarrow> prpExtension m3 \<noteq> Some [] \<Longrightarrow> unProposalResponsePayload pc b = Some m3"
    and "maChaincodeAction pc m4 = Some b \<Longrightarrow> unChaincodeAction pc b = Some m4"
    and "maTransaction pc m5 = Some b \<Longrightarrow> unTransaction pc b = Some m5"
    and "maChaincodeAction pc m4 = Some b \<Longrightarrow> caResults m4 \<noteq> [] \<Longrightarrow> b \<noteq> []"
    and "maProposalResponsePayload pc m3 = Some b \<Longrightarrow> prpProposalHash m3 \<noteq> [] \<Longrightarrow> b \<noteq> []"
    and "maChaincodeProposalPayload pc m1 = Some b \<Longrightarrow> cppInput m1 \<noteq> [] \<Longrightarrow> b \<noteq> []"
  using assms unfolding peer_ok_def inverts_on_def by blast+

lemma GetProposalHash1_nonempty: "GetProposalHash1 pc h p = Inr x \<Longrightarrow> x \<noteq> []"
proof -
  have "sha256_Sum256 b \<noteq> []" for b by (metis length_sha256 list.size(3) zero_neq_numeral)
  then show "GetProposalHash1 pc h p = Inr x \<Longrightarrow> x \<noteq> []"
    by (auto simp: GetProposalHash1_def split: option.splits)
qed

lemma CreateProposalResponse_Inr:
  assumes "CreateProposalResponse c pc hb payl response results events ccid sg = Inr r"
  obtains hdr h cb pb where
    "unHeader c hb = Some hdr" "GetProposalHash1 pc (Some hdr) payl = Inr h"
    "maChaincodeAction pc \<lparr>caResults = results, caEvents = events, caResponse = response, caChaincodeId = ccid\<rparr> = Some cb"
    "maProposalResponsePayload pc \<lparr>prpProposalHash = h, prpExtension = Some cb\<rparr> = Some pb" "prPayload r = Some pb"
    "prEndorsement r \<noteq> None"
  using assms
  by (auto simp: CreateProposalResponse_def GetBytesProposalResponsePayload_def proto_accessors split: sum.splits)

section \<open>Properties\<close>

text \<open>
  C30. A transaction is only assembled from endorsements that agree: when \<open>CreateSignedTx\<close> succeeds there is at least one
  response, every response has a status in the range from 200 to 399 and the same payload bytes, and the signer is the creator
  of the proposal.  The call panics only on a response without a status.
\<close>

theorem signed_tx_requires_agreement:
  "case CreateSignedTx c pc prop sg rs of
     Ret (Inr env) \<Rightarrow>
       rs \<noteq> [] \<and> list_all (\<lambda>r. successful r \<and> slice_bytes (prPayload r) = slice_bytes (prPayload (hd rs))) rs
       \<and> (\<exists>hdr shdr. UnmarshalHeader c (propHeader prop) = Inr hdr
            \<and> UnmarshalSignatureHeader c (slice_bytes (hdrSignatureHeader hdr)) = Inr shdr \<and> Serialize sg = Some (shCreator shdr))
   | Ret (Inl e) \<Rightarrow> True
   | Panic e \<Rightarrow> list_ex (\<lambda>r. prResponse r = None) rs"
proof (cases "CreateSignedTx c pc prop sg rs")
  case (Ret x)
  show ?thesis
  proof (cases x)
    case (Inl e)
    with Ret show ?thesis by simp
  next
    case (Inr env)
    with Ret have run: "CreateSignedTx c pc prop sg rs = Ret (Inr env)" by simp
    from run have "rs \<noteq> [] \<and> checkResponses None rs = Ret (Inr ())
        \<and> (\<exists>hdr shdr. unHeader c (propHeader prop) = Some hdr
              \<and> unSignatureHeader c (slice_bytes (hdrSignatureHeader hdr)) = Some shdr \<and> Serialize sg = Some (shCreator shdr))"
      by (rule CreateSignedTx_Inr) blast
    then show ?thesis unfolding run go.case sum.case checkResponses_first list_all_iff proto_accessors or_err_simps by blast
  qed
next
  case (Panic e)
  have none: "list_ex (\<lambda>r. prResponse r = None) rs" if "checkResponses a rs = Panic s" for a s
    using that by (induction a rs rule: checkResponses.induct) (auto split: option.splits if_splits)
  show ?thesis using Panic none by (auto simp: CreateSignedTx_def try_bind_Panic Let_def split: if_splits)
qed

text \<open>
  C31. What was endorsed is what is in the transaction.  If all responses come from endorsers that signed the same
  simulation result, which is not empty, for a proposal with a chaincode input, the envelope assembled from them unpacks to that action, the header is the one
  of the proposal, the chaincode payload is that of the proposal without its transient fields, and the proposal hash
  that the committer computes from the transaction (\<open>GetProposalHash2\<close>) is the one the endorsers signed (\<open>GetProposalHash1\<close>).
\<close>

theorem signed_tx_carries_endorsement:
  assumes "CreateSignedTx c pc prop sg rs = Ret (Inr env)"
    and "\<forall>r \<in> set rs. \<exists>e. CreateProposalResponse c pc (propHeader prop) (propPayload prop) response results events ccid e = Inr r"
    and "codec_ok c" and "peer_ok pc" and "results \<noteq> []"
    and "unHeader c (propHeader prop) = Some hdr" and "hdrChannelHeader hdr \<noteq> Some []" and "hdrSignatureHeader hdr \<noteq> Some []"
    and "unChaincodeProposalPayload pc (slice_bytes (propPayload prop)) = Some cpp" and "cppInput cpp \<noteq> []"
  shows "\<exists>payl tx ta cap prp h.
     GetActionFromEnvelopeMsg c pc env = Inr \<lparr>caResults = results, caEvents = events, caResponse = response, caChaincodeId = ccid\<rparr>
     \<and> UnmarshalPayload c (slice_bytes (Envelope.Payload env)) = Inr payl \<and> plHeader payl = Some hdr
     \<and> UnmarshalTransaction pc (plData payl) = Inr tx \<and> txActions tx = [ta]
     \<and> UnmarshalChaincodeActionPayload pc (taPayload ta) = Inr cap
     \<and> UnmarshalChaincodeProposalPayload pc (slice_bytes (capChaincodeProposalPayload cap)) = Inr (cpp\<lparr>cppTransientMap := []\<rparr>)
     \<and> map_option ceaEndorsements (capAction cap) = Some (map prEndorsement rs)
     \<and> UnmarshalProposalResponsePayload pc (slice_bytes (prPayload (hd rs))) = Inr prp \<and> prpProposalHash prp = h
     \<and> GetProposalHash1 pc (Some hdr) (propPayload prop) = Inr h
     \<and> GetProposalHash2 (Some hdr) (capChaincodeProposalPayload cap) = Inr h"
proof -
  obtain b cb tb pb sig where
    tx: "rs \<noteq> []" "unChaincodeProposalPayload pc (slice_bytes (propPayload prop)) = Some cpp"
      "GetBytesProposalPayloadForTx pc (Some cpp) = Inr b"
    and ma: "maChaincodeActionPayload pc \<lparr>capChaincodeProposalPayload = Some b, capAction = Some
       \<lparr>ceaProposalResponsePayload = prPayload (hd rs), ceaEndorsements = map prEndorsement rs\<rparr>\<rparr> = Some cb"
      "maTransaction pc \<lparr>txActions = [\<lparr>taHeader = slice_bytes (hdrSignatureHeader hdr), taPayload = cb\<rparr>]\<rparr> = Some tb"
      "maPayload c \<lparr>plHeader = Some hdr, plData = tb\<rparr> = Some pb"
    and env: "env = \<lparr>Envelope.Payload = Some pb, Signature = sig\<rparr>"
    by (rule CreateSignedTx_Inr [OF assms(1)]) (use assms(6,9) in simp)
  from tx(1) assms(2) obtain e where "CreateProposalResponse c pc (propHeader prop) (propPayload prop) response results events ccid e = Inr (hd rs)"
    by fastforce
  then obtain hdr' h ab rb where h': "unHeader c (propHeader prop) = Some hdr'" "GetProposalHash1 pc (Some hdr') (propPayload prop) = Inr h"
    and ra: "maChaincodeAction pc \<lparr>caResults = results, caEvents = events, caResponse = response, caChaincodeId = ccid\<rparr> = Some ab"
    and rp: "maProposalResponsePayload pc \<lparr>prpProposalHash = h, prpExtension = Some ab\<rparr> = Some rb" and pr: "prPayload (hd rs) = Some rb"
    by (rule CreateProposalResponse_Inr)
  have h: "GetProposalHash1 pc (Some hdr) (propPayload prop) = Inr h" using h' assms(6) by simp
  then obtain pp where pp: "propPayload prop = Some pp" by (auto simp: GetProposalHash1_def split: option.splits)
  note d = peer_okD [OF assms(4)]
  have ab: "ab \<noteq> []" using d(6) [OF ra] assms(5) by simp
  have en: "None \<notin> set (map prEndorsement rs)" using assms(2) by (auto dest!: bspec elim!: CreateProposalResponse_Inr)
  have b: "maChaincodeProposalPayload pc \<lparr>cppInput = cppInput cpp, cppTransientMap = []\<rparr> = Some b" using tx(3)
    by (simp add: GetBytesProposalPayloadForTx_def GetBytesChaincodeProposalPayload_def)
  have bn: "b \<noteq> []" using d(8) [OF b] assms(10) by simp
  have rb: "rb \<noteq> []" using d(7) [OF rp] GetProposalHash1_nonempty [OF h] by simp
  have "unProposalResponsePayload pc rb = Some \<lparr>prpProposalHash = h, prpExtension = Some ab\<rparr>" using d(3) [OF rp] ab by simp
  moreover have "unChaincodeActionPayload pc cb = Some \<lparr>capChaincodeProposalPayload = Some b, capAction = Some
       \<lparr>ceaProposalResponsePayload = prPayload (hd rs), ceaEndorsements = map prEndorsement rs\<rparr>\<rparr>"
    using d(2) [OF ma(1)] pr rb bn en by simp
  moreover have "unPayload c pb = Some \<lparr>plHeader = Some hdr, plData = tb\<rparr>"
    using codec_okD(2) [OF assms(3) ma(3)] assms(7,8) by simp
  moreover have "unChaincodeProposalPayload pc b = Some (cpp\<lparr>cppTransientMap := []\<rparr>)"
    using d(1) [OF b] by (cases cpp) simp
  moreover have "GetProposalHash2 (Some hdr) (Some b) = Inr h"
    using GetProposalHash_agree [of pc hdr pp h cpp b] h tx(2,3) pp by simp
  ultimately show ?thesis
    using d(4) [OF ra] d(5) [OF ma(2)] h pr env
    by (simp add: GetActionFromEnvelopeMsg_def GetPayloads_def proto_accessors UnmarshalTransaction_def
        UnmarshalChaincodeActionPayload_def UnmarshalProposalResponsePayload_def UnmarshalChaincodeAction_def
        UnmarshalChaincodeProposalPayload_def)
qed

text \<open>A proposal with a transient field, endorsed by two endorsers, and a codec for the messages it needs.\<close>

definition sample_header :: Header where
  "sample_header = \<lparr>hdrChannelHeader = Some [2], hdrSignatureHeader = Some [3]\<rparr>"

definition sample_endorsed :: ChaincodeEndorsedAction where
  "sample_endorsed = \<lparr>ceaProposalResponsePayload = Some [14],
     ceaEndorsements = [Some \<lparr>endEndorser = [20], endSignature = [9]\<rparr>, Some \<lparr>endEndorser = [21], endSignature = [9]\<rparr>]\<rparr>"

definition sample_action :: ChaincodeAction where
  "sample_action = \<lparr>caResults = [30], caEvents = [], caResponse = None, caChaincodeId = None\<rparr>"

definition table :: "('a \<times> bytes) list \<Rightarrow> 'a \<Rightarrow> bytes option" where
  "table = map_of"

definition untable :: "('a \<times> bytes) list \<Rightarrow> bytes \<Rightarrow> 'a option" where
  "untable xs = map_of (map prod.swap xs)"

definition sample_codec :: codec where
  "sample_codec =
     \<lparr>unEnvelope = (\<lambda>_. None), unPayload = untable [(\<lparr>plHeader = Some sample_header, plData = [5]\<rparr>, [6])],
      unHeader = untable [(sample_header, [1])], unChannelHeader = (\<lambda>_. None),
      unSignatureHeader = untable [(\<lparr>shCreator = [7], shNonce = [8]\<rparr>, [3])], unBlock = (\<lambda>_. None), unMetadata = (\<lambda>_. None),
      unOrdererBlockMetadata = (\<lambda>_. None), unLastConfig = (\<lambda>_. None), unConfig = (\<lambda>_. None),
      unConfigEnvelope = (\<lambda>_. None), unConfigUpdate = (\<lambda>_. None), unConfigUpdateEnvelope = (\<lambda>_. None),
      maEnvelope = (\<lambda>_. None), maPayload = table [(\<lparr>plHeader = Some sample_header, plData = [5]\<rparr>, [6])],
      maHeader = (\<lambda>_. None), maChannelHeader = (\<lambda>_. None), maSignatureHeader = (\<lambda>_. None), maMetadata = (\<lambda>_. None),
      maOrdererBlockMetadata = (\<lambda>_. None), maLastConfig = (\<lambda>_. None), maConfigEnvelope = (\<lambda>_. None)\<rparr>"

definition sample_prp :: ProposalResponsePayload where
  "sample_prp = \<lparr>prpProposalHash = sha256_Sum256 [2, 3, 12], prpExtension = Some [13]\<rparr>"

definition sample_peer_codec :: peer_codec where
  "sample_peer_codec =
     (let cap = [(\<lparr>capChaincodeProposalPayload = Some [12], capAction = Some sample_endorsed\<rparr>, [15])];
          tx = [(\<lparr>txActions = [\<lparr>taHeader = [3], taPayload = [15]\<rparr>]\<rparr>, [5])] in
     \<lparr>unChaincodeProposalPayload = untable [(\<lparr>cppInput = [11], cppTransientMap = [(''key'', [1])]\<rparr>, [10]), (\<lparr>cppInput = [11], cppTransientMap = []\<rparr>, [12])],
      unChaincodeActionPayload = untable cap, unProposalResponsePayload = untable [(sample_prp, [14])],
      unChaincodeAction = untable [(sample_action, [13])], unTransaction = untable tx, unProposal = (\<lambda>_. None),
      unChaincodeInvocationSpec = (\<lambda>_. None), unChaincodeHeaderExtension = (\<lambda>_. None), unProposalResponse = (\<lambda>_. None),
      unResponse = (\<lambda>_. None), unChaincodeID = (\<lambda>_. None),
      maChaincodeProposalPayload = table [(\<lparr>cppInput = [11], cppTransientMap = []\<rparr>, [12])],
      maChaincodeActionPayload = table cap, maProposalResponsePayload = table [(sample_prp, [14])],
      maChaincodeAction = table [(sample_action, [13])], maTransaction = table tx, maProposal = (\<lambda>_. None),
      maChaincodeInvocationSpec = (\<lambda>_. None), maChaincodeHeaderExtension = (\<lambda>_. None), maProposalResponse = (\<lambda>_. None),
      maResponse = (\<lambda>_. None), maChaincodeDeploymentSpec = (\<lambda>_. None)\<rparr>)"

definition sample_proposal :: Proposal where
  "sample_proposal = \<lparr>propHeader = [1], propPayload = Some [10], propExtension = []\<rparr>"

definition sample_signer :: "bytes \<Rightarrow> signer" where
  "sample_signer who = \<lparr>Sign = (\<lambda>_. Some [9]), Serialize = Some who\<rparr>"

definition sample_response :: "bytes \<Rightarrow> ProposalResponse" where
  "sample_response who =
     \<lparr>prVersion = 1, prTimestamp = None, prResponse = Some \<lparr>respStatus = 200, respMessage = ''OK'', respPayload = []\<rparr>,
      prPayload = Some [14], prEndorsement = Some \<lparr>endEndorser = who, endSignature = [9]\<rparr>\<rparr>"

lemmas sample_tx_defs =
  sample_codec_def sample_peer_codec_def sample_proposal_def sample_signer_def sample_response_def sample_header_def
  sample_endorsed_def sample_action_def sample_prp_def table_def untable_def

lemma sample_endorse:
  "CreateProposalResponse sample_codec sample_peer_codec [1] (Some [10]) None [30] [] None (sample_signer who) = Inr (sample_response who)"
  by (simp add: CreateProposalResponse_def GetProposalHash1_def GetBytesProposalResponsePayload_def GetBytesProposalPayloadForTx_def
      GetBytesChaincodeProposalPayload_def UnmarshalChaincodeProposalPayload_def proto_accessors sample_tx_defs)

lemma sample_tx:
  "CreateSignedTx sample_codec sample_peer_codec sample_proposal (sample_signer [7]) [sample_response [20], sample_response [21]]
     = Ret (Inr \<lparr>Envelope.Payload = Some [6], Signature = [9]\<rparr>)"
  by (simp add: CreateSignedTx_def try_res_def GetBytesProposalPayloadForTx_def GetBytesChaincodeProposalPayload_def UnmarshalChaincodeProposalPayload_def
      GetBytesChaincodeActionPayload_def GetBytesTransaction_def GetBytesPayload_def proto_accessors sample_tx_defs)

lemma sample_codecs_ok: "codec_ok sample_codec" "peer_ok sample_peer_codec"
  by (auto simp: codec_ok_def peer_ok_def inverts_on_def sample_tx_defs Let_def split: if_splits)

theorem signed_tx_carries_endorsement_witness:
  "CreateSignedTx sample_codec sample_peer_codec sample_proposal (sample_signer [7]) [sample_response [20], sample_response [21]]
     = Ret (Inr \<lparr>Envelope.Payload = Some [6], Signature = [9]\<rparr>)
   \<and> codec_ok sample_codec \<and> peer_ok sample_peer_codec
   \<and> GetActionFromEnvelopeMsg sample_codec sample_peer_codec \<lparr>Envelope.Payload = Some [6], Signature = [9]\<rparr> = Inr sample_action"
proof -
  have "\<forall>r \<in> set [sample_response [20], sample_response [21]].
      \<exists>e. CreateProposalResponse sample_codec sample_peer_codec (propHeader sample_proposal) (propPayload sample_proposal) None [30] [] None e = Inr r"
    using sample_endorse by (auto simp: sample_proposal_def)
  moreover have "unHeader sample_codec (propHeader sample_proposal) = Some sample_header" by (simp add: sample_tx_defs)
  moreover have "unChaincodeProposalPayload sample_peer_codec (slice_bytes (propPayload sample_proposal)) = Some \<lparr>cppInput = [11], cppTransientMap = [(''key'', [1])]\<rparr>"
    by (simp add: sample_tx_defs)
  ultimately show ?thesis
    using signed_tx_carries_endorsement [OF sample_tx _ sample_codecs_ok, of None "[30]" "[]" None sample_header "\<lparr>cppInput = [11], cppTransientMap = [(''key'', [1])]\<rparr>"] sample_tx sample_codecs_ok
    by (simp add: sample_header_def sample_action_def)
qed

end
