(* ===== verification/MsgProcessor.thy ===== *)
theory MsgProcessor
  imports BlockWriter TxUtils
begin

text \<open>
  Validation of incoming messages (\<open>orderer/common/msgprocessor\<close>): the rules that an envelope has to pass, the processor
  of a standard channel for normal messages and configuration updates, the rules of consensus-type migration
  (\<open>maintenancefilter.go\<close>), and what the processor calls of the channel's support
  (\<open>orderer/common/multichannel/chainsupport.go\<close>).

  The resources of a channel are its bundle.  \<open>msg_env\<close> holds what is not of the repository: the codec and the other
  environment of the block writer, the clock (reading \<open>i\<close> of a call is \<open>meNow i\<close>), the nonce, and the decoding of
  certificates and of the etcdraft metadata.  The HCS chain has no metadata validator of its own, so the no-op validator applies.
\<close>

section \<open>Environment and errors\<close>

record msg_env =
  meBw :: bw_env
  meNow :: "nat \<Rightarrow> time"
  meRnd :: "bytes option"
  meNoExpirationChecks :: bool
  meIdBytes :: "bytes \<Rightarrow> bytes option"
  meNotAfter :: "bytes \<Rightarrow> time option"
  meRaftMetadata :: "bytes \<Rightarrow> bool"

abbreviation meCodec :: "msg_env \<Rightarrow> codec" where
  "meCodec me \<equiv> beCodec (meBw me)"

datatype mp_err =
    ErrMaintenanceMode
  | ErrEmptyMessage
  | MessageTooBig u32 u32
  | ErrSignedData proto_err
  | PolicyNotFound string
  | ErrPermissionDenied
  | IdentityExpired
  | MpProto proto_err
  | MpTx tx_err
  | MpUpdate update_err
  | MpBundle cc_err
  | NotCompatible string
  | NewOrdererMissing
  | NoConfigUpdate
  | MigrationDisabled
  | MigrationRule string
  | NotOnlyConsensusType string
  | BadRaftMetadata
  | ErrChannelDoesNotExist
  | TemplateRule string
  | UnexpectedType int
  | BlockPolicyFailed

text \<open>
  The models of policies, updates and bundles report a panic as an error; here it is one.  Looking up a policy has
  no other error.
\<close>

definition pol_go :: "pol_err + 'a \<Rightarrow> ('e + 'a) go" where
  "pol_go r = (case r of Inr x \<Rightarrow> Ret (Inr x) | Inl (PolPanic s) \<Rightarrow> Panic s | Inl (PolError s) \<Rightarrow> Panic s)"

definition update_go :: "update_err + 'a \<Rightarrow> (mp_err + 'a) go" where
  "update_go r = (case r of Inr x \<Rightarrow> Ret (Inr x) | Inl e \<Rightarrow> (case e of UpdPanic s \<Rightarrow> Panic s | _ \<Rightarrow> Ret (Inl (MpUpdate e))))"

definition bundle_go :: "cc_err + 'a \<Rightarrow> (mp_err + 'a) go" where
  "bundle_go r =
     (case r of
        Inr x \<Rightarrow> Ret (Inr x)
      | Inl e \<Rightarrow>
          (case e of
             CcPolicies (PolPanic s) \<Rightarrow> Panic s
           | CcConfigtx (UpdPanic s) \<Rightarrow> Panic s
           | _ \<Rightarrow> Ret (Inl (MpBundle e))))"

lemma pol_go_Inr [simp]: "pol_go r = Ret (Inr x) \<longleftrightarrow> r = Inr x"
  by (auto simp: pol_go_def split: sum.splits pol_err.splits)

lemma update_go_Inr [simp]: "update_go r = Ret (Inr x) \<longleftrightarrow> r = Inr x"
  by (auto simp: update_go_def split: sum.splits update_err.splits)

lemma bundle_go_Inr [simp]: "bundle_go r = Ret (Inr x) \<longleftrightarrow> r = Inr x"
  by (auto simp: bundle_go_def split: sum.splits cc_err.splits pol_err.splits update_err.splits)

definition tx_go :: "(tx_err + 'a) go \<Rightarrow> (mp_err + 'a) go" where
  "tx_go m = (case m of Ret (Inl e) \<Rightarrow> Ret (Inl (MpTx e)) | Ret (Inr x) \<Rightarrow> Ret (Inr x) | Panic s \<Rightarrow> Panic s)"

lemma tx_go_Inr [simp]: "tx_go m = Ret (Inr x) \<longleftrightarrow> m = Ret (Inr x)"
  by (auto simp: tx_go_def split: go.splits sum.splits)

section \<open>Rules\<close>

type_synonym rule = "Envelope \<Rightarrow> (mp_err + unit) go"

definition emptyRejectRule :: rule where
  "emptyRejectRule message = (if Envelope.Payload message = None then Ret (Inl ErrEmptyMessage) else Ret (Inr ()))"

definition acceptRule :: rule where
  "acceptRule message = Ret (Inr ())"

fun RuleSet_Apply :: "rule list \<Rightarrow> rule" where
  "RuleSet_Apply [] message = Ret (Inr ())"
| "RuleSet_Apply (rule # rules) message = try_bind (rule message) (\<lambda>_. RuleSet_Apply rules message)"

definition messageByteSize :: "Envelope \<Rightarrow> u32" where
  "messageByteSize message = of_nat (length (slice_bytes (Envelope.Payload message)) + length (Signature message))"

definition MaxBytesRule :: "Bundle \<Rightarrow> rule" where
  "MaxBytesRule bu message =
     (case OrdererConfig_of bu of
        None \<Rightarrow> Panic ''Programming error: orderer config not found''
      | Some ordererConf \<Rightarrow>
          (let maxBytes = AbsoluteMaxBytes (opBatchSize (ocProtos ordererConf));
               sz = messageByteSize message
           in if sz > maxBytes then Ret (Inl (MessageTooBig sz maxBytes)) else Ret (Inr ())))"

definition ConsensusState :: "OrdererConfig \<Rightarrow> int" where
  "ConsensusState oc = ctState (opConsensusType (ocProtos oc))"

abbreviation (input) STATE_NORMAL :: int where
  "STATE_NORMAL \<equiv> 0"

abbreviation (input) STATE_MAINTENANCE :: int where
  "STATE_MAINTENANCE \<equiv> 1"

definition OrdererCapabilities :: "OrdererConfig \<Rightarrow> OrdererProvider" where
  "OrdererCapabilities oc = NewOrdererProvider (opCapabilities (ocProtos oc))"

definition SigFilter :: "string \<Rightarrow> string \<Rightarrow> codec \<Rightarrow> Bundle \<Rightarrow> rule" where
  "SigFilter normalPolicyName maintenancePolicyName c bu message =
     (case OrdererConfig_of bu of
        None \<Rightarrow> Panic ''Programming error: orderer config not found''
      | Some ordererConf \<Rightarrow>
          (case EnvelopeAsSignedData c (Some message) of
             Inl e \<Rightarrow> Ret (Inl (ErrSignedData e))
           | Inr signedData \<Rightarrow>
               (let policyName = (if ConsensusState ordererConf = STATE_MAINTENANCE then maintenancePolicyName else normalPolicyName)
                in try_bind (pol_go (GetPolicy policyName (buPolicyManager bu))) (\<lambda>(policy, ok).
                   if \<not> ok then Ret (Inl (PolicyNotFound policyName))
                   else if EvaluateSignedData (ccMspManager (buChannelConfig bu)) policy signedData then Ret (Inr ())
                   else Ret (Inl ErrPermissionDenied)))))"

definition certExpirationTime :: "msg_env \<Rightarrow> bytes \<Rightarrow> time" where
  "certExpirationTime me pemBytes = (case meNotAfter me pemBytes of None \<Rightarrow> zeroTime | Some t \<Rightarrow> t)"

definition ExpiresAt :: "msg_env \<Rightarrow> bytes \<Rightarrow> time" where
  "ExpiresAt me identityBytes = (case meIdBytes me identityBytes of None \<Rightarrow> zeroTime | Some b \<Rightarrow> certExpirationTime me b)"

definition expirationRejectRule :: "msg_env \<Rightarrow> nat \<Rightarrow> Bundle \<Rightarrow> rule" where
  "expirationRejectRule me i bu message =
     (case OrdererConfig_of bu of
        None \<Rightarrow> Panic ''Programming error: orderer config not found''
      | Some ordererConf \<Rightarrow>
          if \<not> ExpirationCheck (OrdererCapabilities ordererConf) then Ret (Inr ())
          else (case EnvelopeAsSignedData (meCodec me) (Some message) of
                  Inl e \<Rightarrow> Ret (Inl (ErrSignedData e))
                | Inr signedData \<Rightarrow>
                    (case signedData of
                       [] \<Rightarrow> Panic ''index out of range''
                     | sd # _ \<Rightarrow>
                         (let expirationTime = ExpiresAt me (sdIdentity sd)
                          in if expirationTime = zeroTime \<or> meNow me i < expirationTime then Ret (Inr ())
                             else Ret (Inl IdentityExpired)))))"

abbreviation (input) ChannelWriters :: string where
  "ChannelWriters \<equiv> ''/Channel/Writers''"

abbreviation (input) ChannelOrdererWriters :: string where
  "ChannelOrdererWriters \<equiv> ''/Channel/Orderer/Writers''"

definition CreateStandardChannelFilters :: "msg_env \<Rightarrow> nat \<Rightarrow> Bundle \<Rightarrow> rule list" where
  "CreateStandardChannelFilters me i bu =
     (let rules = [emptyRejectRule, MaxBytesRule bu, SigFilter ChannelWriters ChannelOrdererWriters (meCodec me) bu]
      in if \<not> meNoExpirationChecks me then take 2 rules @ [expirationRejectRule me i bu] @ drop 2 rules else rules)"

section \<open>Consensus-type migration\<close>

definition ensureConsensusTypeChangeOnly :: "codec \<Rightarrow> Envelope \<Rightarrow> (mp_err + unit) go" where
  "ensureConsensusTypeChangeOnly c lastUpdate =
     try_bind (try_res MpProto (EnvelopeToConfigUpdate c lastUpdate)) (\<lambda>configUpdateEnv.
     try_bind (try_res MpProto (UnmarshalConfigUpdate c (cueConfigUpdate configUpdateEnv))) (\<lambda>configUpdate.
     case cuWriteSet configUpdate of
       None \<Rightarrow> Panic ''nil pointer dereference''
     | Some writeSet \<Rightarrow>
         if length (cgGroups writeSet) = 0 then Ret (Inl (NotOnlyConsensusType ''no changes''))
         else if length (cgValues writeSet) > 0 then Ret (Inl (NotOnlyConsensusType ''values''))
         else if length (cgGroups writeSet) > 1 then Ret (Inl (NotOnlyConsensusType ''groups''))
         else (case map_of (cgGroups writeSet) ''Orderer'' of
                 None \<Rightarrow> Ret (Inl (NotOnlyConsensusType ''no orderer group''))
               | Some ordGroup \<Rightarrow>
                   if length (cgGroups ordGroup) > 0 then Ret (Inl (NotOnlyConsensusType ''orderer groups''))
                   else if map_of (cgValues ordGroup) ''ConsensusType'' = None then Ret (Inl (NotOnlyConsensusType ''no consensus type''))
                   else if length (cgValues ordGroup) > 1 then Ret (Inl (NotOnlyConsensusType ''more values''))
                   else Ret (Inr ()))))"

definition permittedTargetConsensusTypes :: "string list" where
  "permittedTargetConsensusTypes = [''etcdraft'', ''solo'', ''kafka'']"

text \<open>The checks of \<open>inspect\<close> on the current and the next orderer section.\<close>

definition inspectTypeChange :: "msg_env \<Rightarrow> OrdererConfig \<Rightarrow> OrdererConfig \<Rightarrow> mp_err option" where
  "inspectTypeChange me oc noc =
     (let typ = ctType (opConsensusType (ocProtos oc)); ntyp = ctType (opConsensusType (ocProtos noc))
      in if typ = ntyp then None
         else if ConsensusState oc = STATE_NORMAL then Some (MigrationRule ''current state is not maintenance'')
         else if ConsensusState noc = STATE_NORMAL then Some (MigrationRule ''next state is not maintenance'')
         else if ntyp \<notin> set permittedTargetConsensusTypes then Some (MigrationRule ''transition not supported'')
         else if ntyp = ''etcdraft'' \<and> \<not> meRaftMetadata me (ctMetadata (opConsensusType (ocProtos noc))) then Some BadRaftMetadata
         else None)"

definition inspect :: "msg_env \<Rightarrow> string \<Rightarrow> ConfigEnvelope \<Rightarrow> OrdererConfig \<Rightarrow> (mp_err + unit) go" where
  "inspect me channelID configEnvelope oc =
     (case ceLastUpdate configEnvelope of
        None \<Rightarrow> Ret (Inl NoConfigUpdate)
      | Some lastUpdate \<Rightarrow>
          try_bind (bundle_go (NewBundle (beVc (meBw me)) (beMs (meBw me)) channelID (ceConfig configEnvelope))) (\<lambda>bundle'.
          case OrdererConfig_of bundle' of
            None \<Rightarrow> Ret (Inl NewOrdererMissing)
          | Some noc \<Rightarrow>
              (let ct = opConsensusType (ocProtos oc); nct = opConsensusType (ocProtos noc)
               in if \<not> OrdererConsensusTypeMigration (OrdererCapabilities oc) then
                    (if ConsensusState noc \<noteq> STATE_NORMAL then Ret (Inl MigrationDisabled)
                     else if ctType ct \<noteq> ctType nct then Ret (Inl MigrationDisabled)
                     else Ret (Inr ()))
                  else
                  try_bind (if ConsensusState oc \<noteq> ConsensusState noc
                            then try_bind (ensureConsensusTypeChangeOnly (meCodec me) lastUpdate) (\<lambda>_.
                                 if ctType ct \<noteq> ctType nct then Ret (Inl (MigrationRule ''type and state change''))
                                 else if ctMetadata nct \<noteq> ctMetadata ct then Ret (Inl (MigrationRule ''metadata and state change''))
                                 else Ret (Inr ()))
                            else Ret (Inr ())) (\<lambda>_.
                  case inspectTypeChange me oc noc of Some e \<Rightarrow> Ret (Inl e) | None \<Rightarrow> Ret (Inr ())))))"

definition MaintenanceFilter_Apply :: "msg_env \<Rightarrow> Bundle \<Rightarrow> rule" where
  "MaintenanceFilter_Apply me bu message =
     (case OrdererConfig_of bu of
        None \<Rightarrow> Panic ''Programming error: orderer config not found''
      | Some ordererConf \<Rightarrow>
          try_bind (try_res MpProto (UnmarshalEnvelopeOfType (meCodec me) message HeaderType_CONFIG ''ConfigEnvelope''
                      (unConfigEnvelope (meCodec me)))) (\<lambda>(chanHdr, configEnvelope).
          inspect me (viChannelID (buConfigtxManager bu)) configEnvelope ordererConf))"

section \<open>The support of a channel\<close>

definition ChannelID :: "Bundle \<Rightarrow> string" where
  "ChannelID bu = viChannelID (buConfigtxManager bu)"

definition ProposeConfigUpdate :: "msg_env \<Rightarrow> Bundle \<Rightarrow> Envelope \<Rightarrow> (mp_err + ConfigEnvelope) go" where
  "ProposeConfigUpdate me bu configtx =
     try_bind (update_go (proposeConfigUpdate (meCodec me) (ccMspManager (buChannelConfig bu)) (buConfigtxManager bu) configtx)) (\<lambda>env.
     try_bind (bundle_go (NewBundle (beVc (meBw me)) (beMs (meBw me)) (ChannelID bu) (ceConfig env))) (\<lambda>bundle'.
     case checkResources bundle' of
       Some e \<Rightarrow> Ret (Inl (NotCompatible e))
     | None \<Rightarrow>
         (case ValidateNew bu bundle' of
            Some e \<Rightarrow> Ret (Inl (MpBundle e))
          | None \<Rightarrow>
              (case OrdererConfig_of bu of
                 None \<Rightarrow> Panic ''old config is missing orderer group''
               | Some oldOrdererConfig \<Rightarrow>
                   (case OrdererConfig_of bundle' of
                      None \<Rightarrow> Ret (Inl NewOrdererMissing)
                    | Some newOrdererConfig \<Rightarrow> Ret (Inr env))))))"

abbreviation (input) BlockValidation :: string where
  "BlockValidation \<equiv> ''/Channel/Orderer/BlockValidation''"

definition VerifyBlockSignature :: "msg_env \<Rightarrow> Bundle \<Rightarrow> SignedData list \<Rightarrow> ConfigEnvelope option \<Rightarrow> (mp_err + unit) go" where
  "VerifyBlockSignature me bu sd envelope =
     try_bind (case envelope of
                 None \<Rightarrow> Ret (Inr bu)
               | Some env \<Rightarrow> bundle_go (NewBundle (beVc (meBw me)) (beMs (meBw me)) (ChannelID bu) (ceConfig env))) (\<lambda>b.
     try_bind (pol_go (GetPolicy BlockValidation (buPolicyManager b))) (\<lambda>(policy, ex).
     if \<not> ex then Ret (Inl (PolicyNotFound BlockValidation))
     else if EvaluateSignedData (ccMspManager (buChannelConfig b)) policy sd then Ret (Inr ())
     else Ret (Inl BlockPolicyFailed)))"

section \<open>Processing of messages\<close>

datatype Classification = NormalMsg | ConfigUpdateMsg | ConfigMsg

definition ClassifyMsg :: "ChannelHeader \<Rightarrow> Classification" where
  "ClassifyMsg chdr =
     (if chType chdr = HeaderType_CONFIG_UPDATE then ConfigUpdateMsg
      else if chType chdr = HeaderType_ORDERER_TRANSACTION then ConfigMsg
      else if chType chdr = HeaderType_CONFIG then ConfigMsg
      else NormalMsg)"

text \<open>
  A \<open>StandardChannel\<close> is its support, the bundle, with its filters; the filters of reading \<open>i\<close> of the clock are \<open>filters i\<close>.  The system
  channel runs the same code with filters of its own.
\<close>

definition processNormalMsg :: "(nat \<Rightarrow> rule list) \<Rightarrow> Bundle \<Rightarrow> Envelope \<Rightarrow> (mp_err + u64) go" where
  "processNormalMsg filters bu env =
     (case OrdererConfig_of bu of
        None \<Rightarrow> Panic ''Missing orderer config''
      | Some oc \<Rightarrow>
          if OrdererConsensusTypeMigration (OrdererCapabilities oc) \<and> ConsensusState oc \<noteq> STATE_NORMAL
          then Ret (Inl ErrMaintenanceMode)
          else (let configSeq = viSequence (buConfigtxManager bu)
                in try_bind (RuleSet_Apply (filters 0) env) (\<lambda>_. Ret (Inr configSeq))))"

definition processConfigUpdateMsg ::
  "msg_env \<Rightarrow> (nat \<Rightarrow> rule list) \<Rightarrow> Bundle \<Rightarrow> Envelope option \<Rightarrow> (mp_err + Envelope \<times> u64) go"
where
  "processConfigUpdateMsg me filters bu update =
     (let sequence = viSequence (buConfigtxManager bu)
      in case update of
           None \<Rightarrow> Panic ''nil pointer dereference''
         | Some env \<Rightarrow>
             try_bind (RuleSet_Apply (filters 0) env) (\<lambda>_.
             try_bind (ProposeConfigUpdate me bu env) (\<lambda>configEnvelope.
             try_bind (tx_go (CreateSignedEnvelope (meCodec me) (meNow me 1 div 10 ^ 9) (meRnd me) HeaderType_CONFIG (ChannelID bu)
                         (Some (beSigner (meBw me))) (maConfigEnvelope (meCodec me) configEnvelope) 0 0)) (\<lambda>config.
             try_bind (RuleSet_Apply (filters 2) config) (\<lambda>_.
             try_bind (MaintenanceFilter_Apply me bu config) (\<lambda>_.
             Ret (Inr (config, sequence))))))))"

definition ProcessNormalMsg :: "msg_env \<Rightarrow> Bundle \<Rightarrow> Envelope \<Rightarrow> (mp_err + u64) go" where
  "ProcessNormalMsg me bu env = processNormalMsg (\<lambda>i. CreateStandardChannelFilters me i bu) bu env"

definition ProcessConfigUpdateMsg :: "msg_env \<Rightarrow> Bundle \<Rightarrow> Envelope option \<Rightarrow> (mp_err + Envelope \<times> u64) go" where
  "ProcessConfigUpdateMsg me bu update = processConfigUpdateMsg me (\<lambda>i. CreateStandardChannelFilters me i bu) bu update"

definition ProcessConfigMsg :: "msg_env \<Rightarrow> Bundle \<Rightarrow> Envelope \<Rightarrow> (mp_err + Envelope \<times> u64) go" where
  "ProcessConfigMsg me bu env =
     try_bind (try_res MpProto (UnmarshalEnvelopeOfType (meCodec me) env HeaderType_CONFIG ''ConfigEnvelope''
                 (unConfigEnvelope (meCodec me)))) (\<lambda>(_, configEnvelope).
     ProcessConfigUpdateMsg me bu (ceLastUpdate configEnvelope))"

section \<open>Lemmas\<close>

lemma RuleSet_Apply_Inr: "RuleSet_Apply rules m = Ret (Inr u) \<longleftrightarrow> (\<forall>r \<in> set rules. r m = Ret (Inr ()))"
  by (induction rules) auto

lemma MaxBytesRule_Inr:
  "MaxBytesRule bu m = Ret (Inr u) \<longleftrightarrow>
     (\<exists>oc. OrdererConfig_of bu = Some oc \<and> messageByteSize m \<le> AbsoluteMaxBytes (opBatchSize (ocProtos oc)))"
  by (auto simp: MaxBytesRule_def Let_def split: option.splits)

lemma filters_members:
  "{emptyRejectRule, MaxBytesRule bu, SigFilter ChannelWriters ChannelOrdererWriters (meCodec me) bu} \<subseteq> set (CreateStandardChannelFilters me i bu)"
  by (simp add: CreateStandardChannelFilters_def Let_def)

text \<open>What a signed envelope contains.\<close>

lemma CreateSignedEnvelope_unpack:
  assumes "CreateSignedEnvelope c now (Some rnd) typ chan (Some sg) (Some data) v ep = Ret (Inr env)"
    and ok: "codec_ok c" and "rnd \<noteq> []" and "typ \<noteq> 0"
  obtains pb hdr chb chdr where "Envelope.Payload env = Some pb" "pb \<noteq> []"
    "unPayload c pb = Some \<lparr>plHeader = Some hdr, plData = data\<rparr>" "hdrChannelHeader hdr = Some chb"
    "unChannelHeader c chb = Some chdr" "chType chdr = typ" "chChannelId chdr = chan"
proof -
  let ?ch = "(MakeChannelHeader now typ v chan ep)\<lparr>chTlsCertHash := None\<rparr>"
  from assms(1) obtain sh chb shb pb sig where
    sh: "NewSignatureHeader sg (Some rnd) = Inr sh" and ch: "maChannelHeader c ?ch = Some chb" and shb: "maSignatureHeader c sh = Some shb"
    and pb: "maPayload c \<lparr>plHeader = Some \<lparr>hdrChannelHeader = Some chb, hdrSignatureHeader = Some shb\<rparr>, plData = data\<rparr> = Some pb"
    and env: "env = \<lparr>Envelope.Payload = Some pb, Signature = sig\<rparr>"
    by (auto simp: CreateSignedEnvelope_def CreateSignedEnvelopeWithTLSBinding_def MakePayloadHeader_def Let_def)
  note d = codec_okD [OF ok]
  have "shNonce sh = rnd" using sh by (auto simp: NewSignatureHeader_def)
  then have ne: "chb \<noteq> []" "shb \<noteq> []" "pb \<noteq> []"
    using d(9) [OF ch] d(10) [OF shb] d(11) [OF pb] assms(3,4) by (simp_all add: MakeChannelHeader_def)
  have "unPayload c pb = Some \<lparr>plHeader = Some \<lparr>hdrChannelHeader = Some chb, hdrSignatureHeader = Some shb\<rparr>, plData = data\<rparr>"
    using d(2) [OF pb] ne by simp
  moreover have "unChannelHeader c chb = Some ?ch" using d(4) [OF ch] by (simp add: MakeChannelHeader_def)
  ultimately show thesis using that env ne by (simp add: MakeChannelHeader_def)
qed

lemma ProposeConfigUpdate_Inr:
  assumes "ProposeConfigUpdate me bu tx = Ret (Inr ce)"
  obtains bu' oc oc' where
    "proposeConfigUpdate (meCodec me) (ccMspManager (buChannelConfig bu)) (buConfigtxManager bu) tx = Inr ce"
    "NewBundle (beVc (meBw me)) (beMs (meBw me)) (ChannelID bu) (ceConfig ce) = Inr bu'"
    "checkResources bu' = None" "OrdererConfig_of bu = Some oc" "OrdererConfig_of bu' = Some oc'"
  using assms by (auto simp: ProposeConfigUpdate_def split: option.splits)

lemma ProcessConfigUpdateMsg_Inr:
  assumes "ProcessConfigUpdateMsg me bu (Some tx) = Ret (Inr (config, sq))"
  obtains ce data rnd where "ProposeConfigUpdate me bu tx = Ret (Inr ce)" "maConfigEnvelope (meCodec me) ce = Some data" "meRnd me = Some rnd"
    "CreateSignedEnvelope (meCodec me) (meNow me 1 div 10 ^ 9) (Some rnd) HeaderType_CONFIG (ChannelID bu)
        (Some (beSigner (meBw me))) (Some data) 0 0 = Ret (Inr config)"
    "MaintenanceFilter_Apply me bu config = Ret (Inr ())" "sq = viSequence (buConfigtxManager bu)"
proof -
  from assms obtain ce where ce: "ProposeConfigUpdate me bu tx = Ret (Inr ce)"
    and cs: "CreateSignedEnvelope (meCodec me) (meNow me 1 div 10 ^ 9) (meRnd me) HeaderType_CONFIG (ChannelID bu)
        (Some (beSigner (meBw me))) (maConfigEnvelope (meCodec me) ce) 0 0 = Ret (Inr config)"
    and mf: "MaintenanceFilter_Apply me bu config = Ret (Inr ())" and sq: "sq = viSequence (buConfigtxManager bu)"
    by (auto simp: ProcessConfigUpdateMsg_def processConfigUpdateMsg_def Let_def split: go.splits sum.splits)
  from cs obtain rnd data where "meRnd me = Some rnd" "maConfigEnvelope (meCodec me) ce = Some data"
    by (auto simp: CreateSignedEnvelope_def CreateSignedEnvelopeWithTLSBinding_def NewSignatureHeader_def Let_def)
  with that ce cs mf sq show thesis by simp
qed

text \<open>A configuration that was proposed is valid.\<close>

lemma Validate_proposed:
  assumes "proposeConfigUpdate c msp vi tx = Inr ce" and "updates_distinct c" and "map_distinct (viConfigMap vi)"
  shows "Validate c msp vi (Some ce) = None"
proof -
  obtain cue full g where p: "EnvelopeToConfigUpdate c tx = Inr cue" "authorizeUpdate c msp vi (Some cue) = Inr full"
    "configMapToConfig full (viNamespace vi) = Inr g"
    and ce: "ce = \<lparr>ceConfig = Some \<lparr>cfgSequence = viSequence vi + 1, cfgChannelGroup = Some g\<rparr>, ceLastUpdate = Some tx\<rparr>"
    by (rule proposeConfigUpdate_Inr [OF assms(1)])
  have "recurseConfigMap (pathString [viNamespace vi]) full = Inr g"
    using p(3) by (simp add: configMapToConfig_def pathString_def)
  then have "group_distinct g" by (rule recurseConfigMap_distinct) (rule authorizeUpdate_distinct [OF p(2) assms(2,3)])
  then have "protoEqual g g" by (rule protoEqual_refl)
  with p ce show ?thesis by (simp add: Validate_def wrap_def)
qed

text \<open>The rules of migration, as the maintenance filter checks them on the next configuration.\<close>

definition migration_ok :: "OrdererConfig \<Rightarrow> OrdererConfig \<Rightarrow> bool" where
  "migration_ok oc noc \<longleftrightarrow>
     (let ct = opConsensusType (ocProtos oc); nct = opConsensusType (ocProtos noc) in
      if \<not> OrdererConsensusTypeMigration (OrdererCapabilities oc) then ctType nct = ctType ct \<and> ctState nct = STATE_NORMAL
      else if ctType nct = ctType ct then ctState nct = ctState ct \<or> ctMetadata nct = ctMetadata ct
      else ctState nct = ctState ct \<and> ctState ct \<noteq> STATE_NORMAL \<and> ctType nct \<in> set permittedTargetConsensusTypes)"

lemma MaintenanceFilter_migration:
  assumes "MaintenanceFilter_Apply me bu config = Ret (Inr ())"
    and "UnmarshalEnvelopeOfType (meCodec me) config HeaderType_CONFIG ''ConfigEnvelope'' (unConfigEnvelope (meCodec me)) = Inr (chdr, ce)"
    and "NewBundle (beVc (meBw me)) (beMs (meBw me)) (ChannelID bu) (ceConfig ce) = Inr bu'"
    and "OrdererConfig_of bu = Some oc" and "OrdererConfig_of bu' = Some oc'"
  shows "migration_ok oc oc'"
proof -
  from assms have i: "inspect me (ChannelID bu) ce oc = Ret (Inr ())" by (simp add: MaintenanceFilter_Apply_def ChannelID_def)
  then obtain lu where lu: "ceLastUpdate ce = Some lu" by (auto simp: inspect_def split: option.splits)
  show ?thesis
  proof (cases "OrdererConsensusTypeMigration (OrdererCapabilities oc)")
    case False
    with i lu assms(3,5) show ?thesis
      by (auto simp: inspect_def migration_ok_def Let_def ConsensusState_def split: if_splits)
  next
    case True
    with i lu assms(3,5) have t: "inspectTypeChange me oc oc' = None"
      and s: "ConsensusState oc' = ConsensusState oc \<or> ctType (opConsensusType (ocProtos oc')) = ctType (opConsensusType (ocProtos oc))
        \<and> ctMetadata (opConsensusType (ocProtos oc')) = ctMetadata (opConsensusType (ocProtos oc))"
      by (auto simp: inspect_def Let_def split: if_splits option.splits)
    from True t s show ?thesis
      by (auto simp: inspectTypeChange_def migration_ok_def Let_def ConsensusState_def split: if_splits)
  qed
qed

section \<open>Properties\<close>

text \<open>Decoding of a configuration envelope, as \<open>codec_ok\<close> has it for the other messages.\<close>

definition config_codec_ok :: "codec \<Rightarrow> bool" where
  "config_codec_ok c \<longleftrightarrow>
     inverts_on (\<lambda>m. \<forall>tx. ceLastUpdate m = Some tx \<longrightarrow> Envelope.Payload tx \<noteq> Some []) (maConfigEnvelope c) (unConfigEnvelope c)"

text \<open>
  C28. A configuration update that the message processor accepts can be written.  If \<open>ProcessConfigUpdateMsg\<close> accepts a
  signed update against the current bundle and the resulting configuration message is put into the next block while
  the configuration is still the same, then \<open>WriteConfigBlock\<close> does not panic: the message decodes, validates, gives a
  bundle, and the binary has its capabilities.  The sequence number returned to the caller is the current one and that of
  the new bundle is the next one, and consensus type, state and metadata change only as the rules of migration allow.
\<close>

theorem accepted_config_applies:
  assumes proc: "ProcessConfigUpdateMsg me (bwBundle bw) (Some tx) = Ret (Inr (config, sq))"
    and ok: "codec_ok (meCodec me)" "config_codec_ok (meCodec me)" "updates_distinct (meCodec me)"
    and vi: "map_distinct (viConfigMap (buConfigtxManager (bwBundle bw)))"
    and tx: "Envelope.Payload tx \<noteq> Some []" and rnd: "meRnd me \<noteq> Some []"
    and blk: "CreateNextBlock (meBw me) [config] bw = Ret blk" and acq: "acquire (meBw me) bw = Ret bw1"
  shows "\<exists>bw' oc oc'. WriteConfigBlock (meBw me) blk md bw = Ret bw' \<and> sq = Sequence bw \<and> Sequence bw' = sq + 1
    \<and> OrdererConfig_of (bwBundle bw) = Some oc \<and> OrdererConfig_of (bwBundle bw') = Some oc' \<and> migration_ok oc oc'"
proof -
  let ?c = "meCodec me" and ?bu = "bwBundle bw"
  obtain ce data r where ce: "ProposeConfigUpdate me ?bu tx = Ret (Inr ce)" and data: "maConfigEnvelope ?c ce = Some data" and r: "meRnd me = Some r"
    and cs: "CreateSignedEnvelope ?c (meNow me 1 div 10 ^ 9) (Some r) HeaderType_CONFIG (ChannelID ?bu) (Some (beSigner (meBw me))) (Some data) 0 0 = Ret (Inr config)"
    and mf: "MaintenanceFilter_Apply me ?bu config = Ret (Inr ())" and sq: "sq = viSequence (buConfigtxManager ?bu)"
    by (rule ProcessConfigUpdateMsg_Inr [OF proc])
  obtain bu' oc oc' where p: "proposeConfigUpdate ?c (ccMspManager (buChannelConfig ?bu)) (buConfigtxManager ?bu) tx = Inr ce"
    and nb: "NewBundle (beVc (meBw me)) (beMs (meBw me)) (ChannelID ?bu) (ceConfig ce) = Inr bu'"
    and cr: "checkResources bu' = None" and oc: "OrdererConfig_of ?bu = Some oc" "OrdererConfig_of bu' = Some oc'"
    by (rule ProposeConfigUpdate_Inr [OF ce])
  obtain pb hdr chb chdr where env: "Envelope.Payload config = Some pb" "pb \<noteq> []"
    "unPayload ?c pb = Some \<lparr>plHeader = Some hdr, plData = data\<rparr>" "hdrChannelHeader hdr = Some chb"
    "unChannelHeader ?c chb = Some chdr" "chType chdr = HeaderType_CONFIG" "chChannelId chdr = ChannelID ?bu"
    by (rule CreateSignedEnvelope_unpack [OF cs ok(1)]) (use rnd r in auto)
  have "ceLastUpdate ce = Some tx" using p by (auto elim: proposeConfigUpdate_Inr)
  then have un: "unConfigEnvelope ?c data = Some ce" using ok(2) data tx by (auto simp: config_codec_ok_def inverts_on_def)
  have ty: "UnmarshalEnvelopeOfType ?c config HeaderType_CONFIG ''ConfigEnvelope'' (unConfigEnvelope ?c) = Inr (chdr, ce)"
    using env un by (simp add: UnmarshalEnvelopeOfType_def proto_accessors slice_bytes_def)
  from blk obtain eb where eb: "maEnvelope ?c config = Some eb" "blkData blk = Some [eb]"
    by (auto simp: CreateNextBlock_def NewBlock_def Let_def split: option.splits)
  have ex: "ExtractEnvelope ?c blk 0 = Inr config"
    using codec_okD(1) [OF ok(1) eb(1)] env(1,2) eb(2) by (simp add: ExtractEnvelope_def proto_accessors)
  obtain md' where nc: "newConfig (meBw me) chdr data md bw = Ret (bu', md')"
    using un Validate_proposed [OF p ok(3) vi] nb env(7) oc by (simp add: newConfig_def proto_accessors)
  have "WriteConfigBlock (meBw me) blk md bw = Ret (bw1\<lparr>bwBundle := bu', bwLastBlock := blk, bwPending := Some md'\<rparr>)"
    using ex env nc acq cr acquire_keeps(1) [OF acq]
    by (simp add: WriteConfigBlock_def proto_accessors slice_bytes_def Update_def WriteBlock_def)
  moreover have "viSequence (buConfigtxManager bu') = sq + 1"
    using newConfig_sequence [OF nc] sq by (simp add: Sequence_def)
  moreover have "migration_ok oc oc'" by (rule MaintenanceFilter_migration [OF mf ty nb oc])
  ultimately show ?thesis using sq oc by (simp add: Sequence_def)
qed

text \<open>A channel with a writers policy, an update of its batch timeout signed by its administrators, and a codec for the messages.\<close>

definition wit_channel :: "u64 \<Rightarrow> ConfigGroup" where
  "wit_channel v = ConfigGroup 0
     [(''Orderer'', ConfigGroup 0
         [(''OrdererOrg'', ConfigGroup 0 [] [(''MSP'', sample_value [1])] [sample_admins 1] ''Admins'')]
         [(''BatchSize'', sample_value []), (''BatchTimeout'', (sample_value [])\<lparr>cvVersion := v\<rparr>), (''ConsensusType'', sample_value [1]), (''Capabilities'', sample_value [])]
         [sample_admins 3] ''Admins'')]
     [(''HashingAlgorithm'', sample_value []), (''BlockDataHashingStructure'', sample_value []), (''Capabilities'', sample_value [])]
     [sample_admins 3, (''Writers'', \<lparr>cpVersion = 0, cpPolicy = Some \<lparr>PolicyType = 1, PolicyValue = [1]\<rparr>, cpModPolicy = ''Admins''\<rparr>)] ''Admins''"

definition wit_vc :: value_codec where
  "wit_vc = sample_vc\<lparr>unSignaturePolicy := (\<lambda>b. Some (if b = [1] then sample_policy\<lparr>SpRule := NOutOf 1 [SignedBy 0, SignedBy 1]\<rparr> else sample_policy))\<rparr>"

definition wit_bundle :: Bundle where
  "wit_bundle = (case NewBundle wit_vc sample_ms ''mychannel'' (Some \<lparr>cfgSequence = 6, cfgChannelGroup = Some (wit_channel 0)\<rparr>) of
     Inr b \<Rightarrow> b | Inl _ \<Rightarrow> sample_bundle)"

definition wit_tx :: Envelope where
  "wit_tx = \<lparr>Envelope.Payload = Some [1], Signature = [9]\<rparr>"

definition wit_ce :: ConfigEnvelope where
  "wit_ce = \<lparr>ceConfig = Some \<lparr>cfgSequence = 7, cfgChannelGroup = Some (wit_channel 1)\<rparr>, ceLastUpdate = Some wit_tx\<rparr>"

definition wit_config :: Envelope where
  "wit_config = \<lparr>Envelope.Payload = Some [11], Signature = [9]\<rparr>"

definition wit_headers :: "(Payload \<times> bytes) list" where
  "wit_headers =
     [(\<lparr>plHeader = Some \<lparr>hdrChannelHeader = Some [2], hdrSignatureHeader = Some [3]\<rparr>, plData = [4]\<rparr>, [1]),
      (\<lparr>plHeader = Some \<lparr>hdrChannelHeader = Some [12], hdrSignatureHeader = Some [3]\<rparr>, plData = [14]\<rparr>, [11])]"

definition wit_chdrs :: "(ChannelHeader \<times> bytes) list" where
  "wit_chdrs = [(MakeChannelHeader 0 HeaderType_CONFIG_UPDATE 0 ''mychannel'' 0, [2]), (MakeChannelHeader 0 HeaderType_CONFIG 0 ''mychannel'' 0, [12])]"

definition wit_codec :: codec where
  "wit_codec =
     (update_codec (ConfigGroup 0 [(''Orderer'', ConfigGroup 0 [] [] [] '''')] [] [] '''')
        (ConfigGroup 0 [(''Orderer'', ConfigGroup 0 [] [(''BatchTimeout'', (sample_value [])\<lparr>cvVersion := 1\<rparr>)] [] '''')] [] [] '''') [[1], [2]])
     \<lparr>unPayload := untable wit_headers, maPayload := table wit_headers,
      unChannelHeader := untable wit_chdrs, maChannelHeader := table wit_chdrs,
      unSignatureHeader := (\<lambda>b. Some (if b = [3] then \<lparr>shCreator = [1], shNonce = [8]\<rparr> else \<lparr>shCreator = b, shNonce = []\<rparr>)),
      maSignatureHeader := table [(\<lparr>shCreator = [1], shNonce = [8]\<rparr>, [3])],
      unConfigEnvelope := untable [(wit_ce, [14])], maConfigEnvelope := table [(wit_ce, [14])],
      unEnvelope := untable [(wit_config, [15])], maEnvelope := table [(wit_config, [15])]\<rparr>"

definition wit_env :: msg_env where
  "wit_env =
     \<lparr>meBw = \<lparr>beCodec = wit_codec, beVc = wit_vc, beMs = sample_ms, beSigner = sample_signer [1], beNonce = (\<lambda>_. Some [8])\<rparr>,
      meNow = (\<lambda>_. 0), meRnd = Some [8], meNoExpirationChecks = False, meIdBytes = (\<lambda>_. None), meNotAfter = (\<lambda>_. None),
      meRaftMetadata = (\<lambda>_. False)\<rparr>"

definition wit_bw :: BlockWriter where
  "wit_bw = sample_bw0\<lparr>bwBundle := wit_bundle\<rparr>"

lemma wit_process: "ProcessConfigUpdateMsg wit_env wit_bundle (Some wit_tx) = Ret (Inr (wit_config, 6))"
  by code_simp

lemma wit_distinct: "map_distinct (viConfigMap (buConfigtxManager wit_bundle))"
  unfolding map_distinct_def list_all_iff [symmetric] by code_simp

lemma wit_codec_ok: "codec_ok wit_codec" "config_codec_ok wit_codec" "updates_distinct wit_codec"
proof -
  show "codec_ok wit_codec"
    by (auto simp: codec_ok_def inverts_on_def wit_codec_def update_codec_def null_codec_def table_def untable_def wit_headers_def
        wit_chdrs_def MakeChannelHeader_def wit_config_def split: if_splits)
  show "config_codec_ok wit_codec"
    by (auto simp: config_codec_ok_def inverts_on_def wit_codec_def table_def untable_def split: if_splits)
  show "updates_distinct wit_codec"
    by (auto simp: updates_distinct_def wit_codec_def update_codec_def split: if_splits)
qed

theorem accepted_config_applies_witness:
  "\<exists>blk bw'. ProcessConfigUpdateMsg wit_env (bwBundle wit_bw) (Some wit_tx) = Ret (Inr (wit_config, 6))
     \<and> CreateNextBlock (meBw wit_env) [wit_config] wit_bw = Ret blk
     \<and> WriteConfigBlock (meBw wit_env) blk [3] wit_bw = Ret bw' \<and> Sequence wit_bw = 6 \<and> Sequence bw' = 7"
proof -
  have p: "ProcessConfigUpdateMsg wit_env (bwBundle wit_bw) (Some wit_tx) = Ret (Inr (wit_config, 6))"
    using wit_process by (simp add: wit_bw_def)
  have c: "meCodec wit_env = wit_codec" by (simp add: wit_env_def)
  have d: "map_distinct (viConfigMap (buConfigtxManager (bwBundle wit_bw)))" using wit_distinct by (simp add: wit_bw_def)
  have "\<exists>blk. CreateNextBlock (meBw wit_env) [wit_config] wit_bw = Ret blk"
    by (simp add: CreateNextBlock_def wit_bw_def sample_bw0_def sample_block0_def wit_env_def wit_codec_def table_def Let_def)
  then obtain blk where blk: "CreateNextBlock (meBw wit_env) [wit_config] wit_bw = Ret blk" by blast
  have a: "acquire (meBw wit_env) wit_bw = Ret wit_bw" by (simp add: wit_bw_def sample_bw0_def)
  from accepted_config_applies [OF p, unfolded c, OF wit_codec_ok d _ _ blk a, of "[3]"]
  obtain bw' where "WriteConfigBlock (meBw wit_env) blk [3] wit_bw = Ret bw'" "(6 :: u64) = Sequence wit_bw" "Sequence bw' = 6 + 1"
    by (auto simp: wit_tx_def wit_env_def)
  with p blk show ?thesis by auto
qed

lemma ordered_batch_cases:
  "ordered_result b m r = (bs, p, q, n) \<Longrightarrow> batch \<in> set bs \<Longrightarrow> batch \<in> {pendingBatch r, [m], pendingBatch r @ [m]}"
  by (auto simp: ordered_result_def Let_def split: if_splits)

text \<open>Bounds of a batch that the peers check: the absolute size and the number of messages.\<close>

definition within_limits :: "BatchSize \<Rightarrow> Envelope list \<Rightarrow> bool" where
  "within_limits b batch \<longleftrightarrow>
     batch_bytes batch \<le> unat (AbsoluteMaxBytes b) \<and> length batch \<le> unat (MaxMessageCount b)"

lemma Ordered_within_limits:
  assumes "receiver_inv b r" and "ChannelConfig.batch_ok b" and "unat (PreferredMaxBytes b) < 2 ^ 31"
    and "messageByteSize m \<le> AbsoluteMaxBytes b" and "Ordered (Some b) now m r = Ret (bs, p, r')"
  shows "receiver_inv b r' \<and> list_all (within_limits b) bs"
proof -
  note res = Ordered_resultI [OF assms(5)]
  note inv = ordered_result_inv [OF assms(1,3) res]
  have cnt: "1 \<le> unat (MaxMessageCount b)" and le: "unat (PreferredMaxBytes b) \<le> unat (AbsoluteMaxBytes b)"
    using assms(2) by (simp_all add: ChannelConfig.batch_ok_def word_le_nat_alt word_less_nat_alt)
  have m: "batch_bytes [m] \<le> unat (AbsoluteMaxBytes b)"
    using assms(4) by (simp add: word_le_nat_alt messageByteSize_def messageSizeBytes_def)
  have pb: "batch_bytes (pendingBatch r) \<le> unat (AbsoluteMaxBytes b)"
    using assms(1) le by (simp add: receiver_inv_def word_le_nat_alt)
  have "within_limits b batch" if "batch \<in> set bs" for batch
  proof -
    from inv that have ok: "BlockCutter.batch_ok b batch" by blast
    from ordered_batch_cases [OF res that] have "batch_bytes batch \<le> unat (AbsoluteMaxBytes b)"
      using ok m pb le by (auto simp: BlockCutter.batch_ok_def)
    with ok cnt show ?thesis by (auto simp: within_limits_def BlockCutter.batch_ok_def)
  qed
  with inv show ?thesis by (auto simp: receiver_inv_def list_all_iff)
qed

lemma ProcessNormalMsg_size:
  assumes "ProcessNormalMsg me bu m = Ret (Inr sq)" and "OrdererConfig_of bu = Some oc"
  shows "messageByteSize m \<le> AbsoluteMaxBytes (opBatchSize (ocProtos oc))"
proof -
  from assms have "RuleSet_Apply (CreateStandardChannelFilters me 0 bu) m = Ret (Inr ())"
    by (auto simp: ProcessNormalMsg_def processNormalMsg_def Let_def split: if_splits)
  then have "MaxBytesRule bu m = Ret (Inr ())" using filters_members [of bu me 0] by (simp add: RuleSet_Apply_Inr)
  with assms(2) show ?thesis by (simp add: MaxBytesRule_Inr)
qed

abbreviation cutter_run where
  "cutter_run \<equiv> run_calls (\<lambda>(cfg, now). Ordered cfg now) Cut"

fun calls_use :: "BatchSize \<Rightarrow> (BatchSize option \<times> (nat \<Rightarrow> time), time, Envelope) call list \<Rightarrow> bool" where
  "calls_use b [] \<longleftrightarrow> True"
| "calls_use b (CallOrdered c m # cs) \<longleftrightarrow> fst c = Some b \<and> calls_use b cs"
| "calls_use b (CallCut d # cs) \<longleftrightarrow> calls_use b cs"

lemma Cut_inv: "Cut d r = (batch, r') \<Longrightarrow> receiver_inv b r' \<and> batch = pendingBatch r"
  by (auto simp: Cut_def Let_def receiver_inv_def)

text \<open>
  C29. Accepted messages give blocks within the limits of the configuration.  Under a bundle whose orderer section passed its
  checks and has a preferred size below 2 GiB (with a larger one the 32-bit counter of pending bytes can wrap around), let any sequence of messages that \<open>ProcessNormalMsg\<close> accepts go through the block cutter, interleaved with any
  cuts.  Then every batch is within the absolute size, also the single messages that are larger than the preferred
  size, and within the message count.
\<close>

theorem accepted_messages_bound_blocks:
  assumes "OrdererConfig_of bu = Some oc" and "orderer_ok oc" and "unat (PreferredMaxBytes (opBatchSize (ocProtos oc))) < 2 ^ 31"
    and "list_all (\<lambda>m. \<exists>me sq. ProcessNormalMsg me bu m = Ret (Inr sq)) (call_msgs cs)"
    and "calls_use (opBatchSize (ocProtos oc)) cs" and "cutter_run cs NewReceiverImpl = Ret (bs, r)"
  shows "list_all (within_limits (opBatchSize (ocProtos oc))) bs"
proof -
  let ?b = "opBatchSize (ocProtos oc)"
  have b: "ChannelConfig.batch_ok ?b" using assms(2) by (simp add: orderer_ok_def)
  have "list_all (within_limits ?b) bs" if "receiver_inv ?b r0" "cutter_run cs r0 = Ret (bs, r)" for r0
    using that assms(4,5)
  proof (induction cs arbitrary: r0 bs)
    case Nil
    then show ?case by simp
  next
    case (Cons x cs)
    show ?case
    proof (cases x)
      case (CallOrdered c m)
      then obtain bs1 p r1 bs2 where o: "Ordered (Some ?b) (snd c) m r0 = Ret (bs1, p, r1)"
        and run: "cutter_run cs r1 = Ret (bs2, r)" and bs: "bs = bs1 @ bs2"
        using Cons.prems(2,4) by (cases c) auto
      from CallOrdered Cons.prems(3) have "messageByteSize m \<le> AbsoluteMaxBytes ?b"
        using ProcessNormalMsg_size [OF _ assms(1)] by auto
      from Ordered_within_limits [OF Cons.prems(1) b assms(3) this o]
      have 1: "receiver_inv ?b r1" "list_all (within_limits ?b) bs1" by blast+
      have u: "calls_use ?b cs" using Cons.prems(4) unfolding CallOrdered calls_use.simps ..
      have a: "list_all (\<lambda>m. \<exists>me sq. ProcessNormalMsg me bu m = Ret (Inr sq)) (call_msgs cs)"
        using Cons.prems(3) unfolding CallOrdered call_msgs.simps list.pred_inject ..
      have "list_all (within_limits ?b) bs2" by (rule Cons.IH [OF 1(1) run a u])
      with 1(2) bs show ?thesis by simp
    next
      case (CallCut d)
      obtain batch r1 where c: "Cut d r0 = (batch, r1)" by (cases "Cut d r0")
      have batch: "batch = pendingBatch r0" using Cut_inv [OF c] by blast
      obtain bs2 where run: "cutter_run cs r1 = Ret (bs2, r)" and bs: "bs = pendingBatch r0 # bs2"
        using Cons.prems(2) CallCut c batch by auto
      have l: "within_limits ?b (pendingBatch r0)"
        using Cons.prems(1) b by (auto simp: within_limits_def receiver_inv_def ChannelConfig.batch_ok_def word_le_nat_alt)
      have u: "calls_use ?b cs" and a: "list_all (\<lambda>m. \<exists>me sq. ProcessNormalMsg me bu m = Ret (Inr sq)) (call_msgs cs)"
        using Cons.prems(4,3) unfolding CallCut calls_use.simps call_msgs.simps .
      have "list_all (within_limits ?b) bs2" by (rule Cons.IH [OF _ run a u]) (use Cut_inv [OF c] in blast)
      with l show ?thesis using bs by simp
    qed
  qed
  from this [OF NewReceiverImpl_inv assms(6)] show ?thesis .
qed

theorem accepted_messages_bound_blocks_witness:
  "\<exists>oc bs r. OrdererConfig_of wit_bundle = Some oc \<and> ProcessNormalMsg wit_env wit_bundle wit_tx = Ret (Inr 6)
     \<and> cutter_run [CallOrdered (Some (opBatchSize (ocProtos oc)), \<lambda>_. 0) wit_tx, CallCut 1] NewReceiverImpl = Ret (bs, r)
     \<and> bs = [[wit_tx]] \<and> list_all (within_limits (opBatchSize (ocProtos oc))) bs"
proof -
  have "case OrdererConfig_of wit_bundle of None \<Rightarrow> False
      | Some oc \<Rightarrow> orderer_ok oc \<and> opBatchSize (ocProtos oc) = \<lparr>MaxMessageCount = 10, AbsoluteMaxBytes = 1000, PreferredMaxBytes = 500\<rparr>"
    unfolding orderer_ok_def ChannelConfig.batch_ok_def list_all_iff [symmetric] by code_simp
  then obtain oc where oc: "OrdererConfig_of wit_bundle = Some oc" "orderer_ok oc"
    and b: "opBatchSize (ocProtos oc) = \<lparr>MaxMessageCount = 10, AbsoluteMaxBytes = 1000, PreferredMaxBytes = 500\<rparr>"
    by (auto split: option.splits)
  have p: "ProcessNormalMsg wit_env wit_bundle wit_tx = Ret (Inr 6)" by code_simp
  let ?cs = "[CallOrdered (Some (opBatchSize (ocProtos oc)), \<lambda>_. 0) wit_tx, CallCut 1]"
  have "\<exists>r. cutter_run ?cs NewReceiverImpl = Ret ([[wit_tx]], r)"
    by (simp add: b Ordered_def Cut_def NewReceiverImpl_def messageSizeBytes_def wit_tx_def Let_def word_le_nat_alt)
  then obtain r where run: "cutter_run ?cs NewReceiverImpl = Ret ([[wit_tx]], r)" by blast
  have "list_all (within_limits (opBatchSize (ocProtos oc))) [[wit_tx]]"
    by (rule accepted_messages_bound_blocks [OF oc _ _ _ run]) (use p in \<open>auto simp: b\<close>)
  with oc p run show ?thesis by blast
qed

end
