(* ===== verification/AppMsgProcessor.thy ===== *)
theory AppMsgProcessor
  imports HcsTypes "HOL-Library.AList" "HOL-Library.Multiset"
begin

text \<open>
  The application message processor (\<open>orderer/consensus/hcs/app_msg_processor.go\<close>).  \<open>Split\<close> wraps a
  message, its hash and a signature on the hash into an application message and cuts the
  encoded bytes into chunks that fit into HCS messages.  \<open>Reassemble\<close> collects the chunks of a
  message, in any order and interleaved with those of other messages, and returns the message
  when the last chunk has arrived and its hash and signature are right.  Holders of incomplete messages expire
  by age (\<open>expireByTimestamp\<close>) or when their sender restarts (\<open>ExpireByAppID\<close>).

  The Go code shares each chunk holder between the map \<open>holders\<close> and the list \<open>holderListByAge\<close>
  by pointer.  The model has an explicit store: \<open>heap\<close> maps addresses to holders, and the map and the
  list hold addresses.  The field \<open>el\<close> of a holder says that its list element pointer is not nil; the element
  of the holder at address \<open>a\<close> is the entry \<open>a\<close> of the list.  A Go map is an association list
  with distinct keys.

  The protobuf codec, SHA-256 and the signer are arguments.
\<close>

section \<open>State\<close>

record chunkHolder =
  chunks :: "ApplicationMessageChunk option list"
  holderAppID :: bytes
  holderKey :: string
  received :: int
  holderSize :: u32
  holderTimestamp :: time
  el :: bool

record appMsgProcessorImpl =
  accountID :: AccountID
  appID :: bytes
  chunkSize :: nat
  reassembleTimeout :: duration
  heap :: "nat \<Rightarrow> chunkHolder"
  nextAddr :: nat
  holders :: "(string \<times> nat) list"
  holdersByAppID :: "(string \<times> string list) list"
  holderListByAge :: "nat list"

text \<open>
  What the processor calls of other packages: encoders return \<open>None\<close> when they fail, decoders
  return \<open>None\<close> on malformed input.
\<close>

record amp_lib =
  MarshalAppMsg :: "ApplicationMessage \<Rightarrow> bytes option"
  UnmarshalAppMsg :: "bytes \<Rightarrow> ApplicationMessage option"
  MarshalAppSig :: "ApplicationSignature \<Rightarrow> bytes option"
  UnmarshalAppSig :: "bytes \<Rightarrow> ApplicationSignature option"
  Sum256 :: "bytes \<Rightarrow> bytes"

type_synonym sign_fun = "slice \<Rightarrow> string + bytes \<times> bytes"
type_synonym verify_fun = "slice \<Rightarrow> slice \<Rightarrow> slice \<Rightarrow> bool"

datatype amp_error =
    InvalidChunkSize int
  | AppIDNil
  | AppIDEmpty
  | NoSigner
  | MessageNil
  | MessageEmpty
  | SignFailed string
  | InvalidChunksCount int
  | InvalidChunkIndex int int
  | DuplicateChunk int
  | IncorrectChunksCount int
  | BadAppMsg
  | EncryptedPayload
  | HashMismatch
  | BadAppSig
  | VerifyFailed
  | InvalidAppID bytes

definition unusedHolder :: chunkHolder where
  "unusedHolder = \<lparr>chunks = [], holderAppID = [], holderKey = [], received = 0, holderSize = 0,
                   holderTimestamp = zeroTime, el = False\<rparr>"

definition newAppMsgProcessor ::
  "AccountID \<Rightarrow> slice \<Rightarrow> int \<Rightarrow> duration \<Rightarrow> bool \<Rightarrow> amp_error + appMsgProcessorImpl"
where
  "newAppMsgProcessor account app sz timeout signerIsNil =
     (if sz \<le> 0 then Inl (InvalidChunkSize sz)
      else case app of
        None \<Rightarrow> Inl AppIDNil
      | Some b \<Rightarrow>
          if length b = 0 then Inl AppIDEmpty
          else if signerIsNil then Inl NoSigner
          else Inr \<lparr>accountID = account, appID = b, chunkSize = nat sz, reassembleTimeout = timeout,
                    heap = (\<lambda>_. unusedHolder), nextAddr = 0, holders = [], holdersByAppID = [],
                    holderListByAge = []\<rparr>)"

section \<open>Splitting\<close>

definition orPanic :: "'a option \<Rightarrow> 'a go" where
  "orPanic m = (case m of None \<Rightarrow> Panic ''proto: Marshal failed'' | Some b \<Rightarrow> Ret b)"

definition newAppMessageID :: "appMsgProcessorImpl \<Rightarrow> Timestamp \<Rightarrow> ApplicationMessageID" where
  "newAppMessageID p validStart =
     \<lparr>ValidStart = Some validStart, IdAccountID = Some (accountID p),
      IdMetadata = Some \<lparr>TypeUrl = [], AnyValue = appID p\<rparr>\<rparr>"

definition wrapMessage ::
  "ApplicationMessageID \<Rightarrow> bytes \<Rightarrow> bytes \<Rightarrow> bytes \<Rightarrow> ApplicationMessage"
where
  "wrapMessage i message msgHash sigOnHash =
     \<lparr>ApplicationMessageId = Some i, BusinessProcessMessage = Some message,
      UnencryptedBusinessProcessMessageHash = Some msgHash,
      BusinessProcessSignatureOnHash = Some sigOnHash, EncryptionRandom = None, AppMetadata = None,
      MetadataHash = None, MetadataSignatureOnHash = None\<rparr>"

definition sliceChunk :: "bytes \<Rightarrow> nat \<Rightarrow> nat \<Rightarrow> bytes" where
  "sliceChunk data sz i =
     (let first = i * sz; lst = min ((i + 1) * sz) (length data)
      in take (lst - first) (drop first data))"

definition cutChunks :: "ApplicationMessageID \<Rightarrow> nat \<Rightarrow> bytes \<Rightarrow> ApplicationMessageChunk list" where
  "cutChunks i sz data =
     (let n = (length data + sz - 1) div sz
      in map (\<lambda>k. \<lparr>ChunkMessageId = Some i, ChunksCount = to_int32 (int n), ChunkIndex = to_int32 (int k),
                   MessageChunk = sliceChunk data sz k, ChunkMetadata = None\<rparr>) [0..<n])"

definition Split ::
  "amp_lib \<Rightarrow> sign_fun \<Rightarrow> slice \<Rightarrow> time \<Rightarrow> appMsgProcessorImpl \<Rightarrow>
   (amp_error + ApplicationMessageChunk list \<times> bytes) go"
where
  "Split lib sign message validStart p =
     (case message of
        None \<Rightarrow> Ret (Inl MessageNil)
      | Some m \<Rightarrow>
          if length m = 0 then Ret (Inl MessageEmpty)
          else go_bind (timestampProtoOrPanic validStart) (\<lambda>ts.
            let msgId = newAppMessageID p ts;
                msgHash = Sum256 lib m
            in case sign (Some msgHash) of
                 Inl e \<Rightarrow> Ret (Inl (SignFailed e))
               | Inr (publicKey, signature) \<Rightarrow>
                   go_bind (orPanic (MarshalAppSig lib
                     \<lparr>PublicKey = Some publicKey, SignatureBytes = Some signature\<rparr>)) (\<lambda>sigOnHash.
                   go_bind (orPanic (MarshalAppMsg lib (wrapMessage msgId m msgHash sigOnHash))) (\<lambda>data.
                   if chunkSize p = 0 then Panic ''integer divide by zero''
                   else Ret (Inr (cutChunks msgId (chunkSize p) data, msgHash))))))"

section \<open>Holders\<close>

definition makeHolderKey :: "ApplicationMessageID \<Rightarrow> string go" where
  "makeHolderKey i =
     (case (IdMetadata i, ValidStart i) of
        (Some md, Some vs) \<Rightarrow>
          Ret (hex_EncodeToString (AnyValue md) @ '':'' @ show_int (Seconds vs) @ ''s'' @ show_int (Nanos vs))
      | _ \<Rightarrow> Panic ''invalid memory address or nil pointer dereference'')"

definition newChunkHolder :: "int \<Rightarrow> string \<Rightarrow> bytes \<Rightarrow> chunkHolder" where
  "newChunkHolder n k app =
     \<lparr>chunks = replicate (nat n) None, holderAppID = app, holderKey = k, received = 0,
      holderSize = 0, holderTimestamp = zeroTime, el = False\<rparr>"

definition updHolder :: "nat \<Rightarrow> (chunkHolder \<Rightarrow> chunkHolder) \<Rightarrow> appMsgProcessorImpl \<Rightarrow> appMsgProcessorImpl" where
  "updHolder a f p = p\<lparr>heap := (heap p)(a := f (heap p a))\<rparr>"

definition IsPending :: "appMsgProcessorImpl \<Rightarrow> bool" where
  "IsPending p \<longleftrightarrow> length (holders p) \<noteq> 0"

definition removeHolder :: "nat \<Rightarrow> bool \<Rightarrow> appMsgProcessorImpl \<Rightarrow> appMsgProcessorImpl" where
  "removeHolder a removeFromAppHolders p =
     (let h = heap p a;
          p1 = p\<lparr>holders := AList.delete (holderKey h) (holders p)\<rparr>;
          p2 = (if el h then p1\<lparr>holderListByAge := remove1 a (holderListByAge p1)\<rparr> else p1);
          appKey = hex_EncodeToString (holderAppID h)
      in if removeFromAppHolders
         then (case map_of (holdersByAppID p2) appKey of
                 None \<Rightarrow> p2
               | Some appHolders \<Rightarrow>
                   p2\<lparr>holdersByAppID :=
                       AList.update appKey (removeAll (holderKey h) appHolders) (holdersByAppID p2)\<rparr>)
         else p2)"

text \<open>
  \<open>expireByTimestamp\<close>: the loop removes the oldest holder until it is younger than the timeout.
  If removing the front holder left the list as it is, the Go loop would never end; the
  model reports that as a panic, and the invariant below excludes it.
\<close>

function expireByTimestamp ::
  "time \<Rightarrow> appMsgProcessorImpl \<Rightarrow> (int \<times> int \<times> appMsgProcessorImpl) go"
where
  "expireByTimestamp now p =
     (case holderListByAge p of
        [] \<Rightarrow> Ret (0, 0, p)
      | oldest # _ \<Rightarrow>
          (let holder = heap p oldest;
               diff = time_Sub now (holderTimestamp holder);
               p' = removeHolder oldest True p
           in if reassembleTimeout p \<le> diff
              then (if length (holderListByAge p') < length (holderListByAge p)
                    then go_bind (expireByTimestamp now p') (\<lambda>(m, c, q).
                           Ret (1 + m, received holder + c, q))
                    else Panic ''endless loop'')
              else Ret (0, 0, p)))"
  by pat_completeness auto
termination
  by (relation "measure (\<lambda>(now, p). length (holderListByAge p))") auto

declare expireByTimestamp.simps [simp del]

fun expireKeys :: "string list \<Rightarrow> appMsgProcessorImpl \<Rightarrow> int \<times> int \<times> appMsgProcessorImpl" where
  "expireKeys [] p = (0, 0, p)"
| "expireKeys (k # ks) p =
     (case map_of (holders p) k of
        None \<Rightarrow> expireKeys ks p
      | Some a \<Rightarrow>
          (case expireKeys ks (removeHolder a False p) of
             (m, c, q) \<Rightarrow> (1 + m, received (heap p a) + c, q)))"

definition ExpireByAppID ::
  "bytes \<Rightarrow> appMsgProcessorImpl \<Rightarrow> amp_error + int \<times> int \<times> appMsgProcessorImpl"
where
  "ExpireByAppID app p =
     (if length app = 0 then Inl (InvalidAppID app)
      else (let key = hex_EncodeToString app
            in case map_of (holdersByAppID p) key of
                 None \<Rightarrow> Inr (0, 0, p)
               | Some appHolders \<Rightarrow>
                   Inr (expireKeys appHolders
                          (p\<lparr>holdersByAppID := AList.delete key (holdersByAppID p)\<rparr>))))"

section \<open>Reassembling\<close>

text \<open>The second half of \<open>Reassemble\<close>: decode the application message, check hash and signature.\<close>

definition openAppMsg ::
  "amp_lib \<Rightarrow> verify_fun \<Rightarrow> bytes \<Rightarrow> amp_error + slice \<times> slice"
where
  "openAppMsg lib verify protoMsg =
     (case UnmarshalAppMsg lib protoMsg of
        None \<Rightarrow> Inl BadAppMsg
      | Some appMsg \<Rightarrow>
          if EncryptionRandom appMsg \<noteq> None then Inl EncryptedPayload
          else if Sum256 lib (slice_bytes (BusinessProcessMessage appMsg))
                  \<noteq> slice_bytes (UnencryptedBusinessProcessMessageHash appMsg) then Inl HashMismatch
          else (case UnmarshalAppSig lib (slice_bytes (BusinessProcessSignatureOnHash appMsg)) of
                  None \<Rightarrow> Inl BadAppSig
                | Some appSig \<Rightarrow>
                    if verify (UnencryptedBusinessProcessMessageHash appMsg) (PublicKey appSig) (SignatureBytes appSig)
                    then Inr (BusinessProcessMessage appMsg, UnencryptedBusinessProcessMessageHash appMsg)
                    else Inl VerifyFailed))"

text \<open>Find the holder of a chunk, or allocate one and enter it into both maps.\<close>

definition findHolder ::
  "ApplicationMessageChunk \<Rightarrow> string \<Rightarrow> bytes \<Rightarrow> appMsgProcessorImpl \<Rightarrow> nat \<times> appMsgProcessorImpl"
where
  "findHolder chunk key app p =
     (case map_of (holders p) key of
        Some a \<Rightarrow> (a, p)
      | None \<Rightarrow>
          (let a = nextAddr p;
               appIDKey = hex_EncodeToString app;
               appHolders = (case map_of (holdersByAppID p) appIDKey of None \<Rightarrow> [] | Some ks \<Rightarrow> ks)
           in (a, p\<lparr>heap := (heap p)(a := newChunkHolder (ChunksCount chunk) key app),
                    nextAddr := Suc a,
                    holders := AList.update key a (holders p),
                    holdersByAppID := AList.update appIDKey (List.insert key appHolders) (holdersByAppID p)\<rparr>)))"

text \<open>
  Store a chunk in its holder.  The result is the new state and, when the message is complete,
  its bytes; the holder is then removed.  No slot of a complete holder is nil (by the
  invariant below), so the empty contribution of a nil slot never occurs.
\<close>

definition storeChunk ::
  "ApplicationMessageChunk \<Rightarrow> nat \<Rightarrow> appMsgProcessorImpl \<Rightarrow> appMsgProcessorImpl \<times> bytes option"
where
  "storeChunk chunk a p =
     (let p1 = updHolder a (\<lambda>h. h\<lparr>chunks := (chunks h)[nat (ChunkIndex chunk) := Some chunk],
                                  received := to_int32 (received h + 1),
                                  holderSize := holderSize h + of_nat (length (MessageChunk chunk))\<rparr>) p;
          holder = heap p1 a
      in if received holder \<noteq> to_int32 (int (length (chunks holder)))
         then (if el holder
               then (p1\<lparr>holderListByAge :=
                        (if a \<in> set (holderListByAge p1) then remove1 a (holderListByAge p1) @ [a]
                         else holderListByAge p1)\<rparr>, None)
               else ((updHolder a (\<lambda>h. h\<lparr>el := True\<rparr>) p1)\<lparr>holderListByAge := holderListByAge p1 @ [a]\<rparr>, None))
         else (removeHolder a True p1,
               Some (concat (map (\<lambda>f. case f of None \<Rightarrow> [] | Some c \<Rightarrow> MessageChunk c) (chunks holder)))))"

text \<open>
  The deferred function of \<open>Reassemble\<close>, run after a valid chunk: the holder gets the timestamp of
  the chunk, then holders that are too old expire.
\<close>

definition finishValid ::
  "nat option \<Rightarrow> time \<Rightarrow> appMsgProcessorImpl \<Rightarrow> (int \<times> int \<times> appMsgProcessorImpl) go"
where
  "finishValid holder timestamp p =
     expireByTimestamp timestamp
       (case holder of None \<Rightarrow> p | Some a \<Rightarrow> updHolder a (\<lambda>h. h\<lparr>holderTimestamp := timestamp\<rparr>) p)"

record reassembled =
  resMessage :: slice
  resHash :: slice
  expiredMessages :: int
  expiredChunks :: int
  resErr :: "amp_error option"

definition openResult :: "amp_lib \<Rightarrow> verify_fun \<Rightarrow> bytes option \<Rightarrow> slice \<times> slice \<times> amp_error option" where
  "openResult lib verify protoMsg =
     (case protoMsg of
        None \<Rightarrow> (None, None, None)
      | Some b \<Rightarrow>
          (case openAppMsg lib verify b of
             Inl e \<Rightarrow> (None, None, Some e)
           | Inr (m, h) \<Rightarrow> (m, h, None)))"

definition validResult ::
  "amp_lib \<Rightarrow> verify_fun \<Rightarrow> bytes option \<Rightarrow> nat option \<Rightarrow> time \<Rightarrow> appMsgProcessorImpl \<Rightarrow>
   (reassembled \<times> appMsgProcessorImpl) go"
where
  "validResult lib verify protoMsg holder timestamp p =
     (case openResult lib verify protoMsg of
        (m, h, e) \<Rightarrow>
          go_bind (finishValid holder timestamp p) (\<lambda>(em, ec, q).
            Ret (\<lparr>resMessage = m, resHash = h, expiredMessages = em, expiredChunks = ec, resErr = e\<rparr>, q)))"

definition rejectChunk :: "amp_error \<Rightarrow> appMsgProcessorImpl \<Rightarrow> (reassembled \<times> appMsgProcessorImpl) go" where
  "rejectChunk e p =
     Ret (\<lparr>resMessage = None, resHash = None, expiredMessages = 0, expiredChunks = 0, resErr = Some e\<rparr>, p)"

definition Reassemble ::
  "amp_lib \<Rightarrow> verify_fun \<Rightarrow> ApplicationMessageChunk \<Rightarrow> time \<Rightarrow> appMsgProcessorImpl \<Rightarrow>
   (reassembled \<times> appMsgProcessorImpl) go"
where
  "Reassemble lib verify chunk timestamp p =
     (if ChunksCount chunk < 1 then rejectChunk (InvalidChunksCount (ChunksCount chunk)) p
      else if ChunkIndex chunk < 0 \<or> ChunksCount chunk \<le> ChunkIndex chunk
      then rejectChunk (InvalidChunkIndex (ChunkIndex chunk) (ChunksCount chunk)) p
      else if ChunksCount chunk = 1
      then validResult lib verify (Some (MessageChunk chunk)) None timestamp p
      else case ChunkMessageId chunk of
        None \<Rightarrow> Panic ''invalid memory address or nil pointer dereference''
      | Some msgId \<Rightarrow>
          go_bind (makeHolderKey msgId) (\<lambda>key.
            case IdMetadata msgId of
              None \<Rightarrow> Panic ''invalid memory address or nil pointer dereference''
            | Some md \<Rightarrow>
                (let (a, p1) = findHolder chunk key (AnyValue md) p;
                     holder = heap p1 a;
                     index = ChunkIndex chunk
                 in if int (length (chunks holder)) \<le> index then Panic ''index out of range''
                    else if chunks holder ! nat index \<noteq> None then rejectChunk (DuplicateChunk index) p1
                    else if ChunksCount chunk \<noteq> to_int32 (int (length (chunks holder)))
                    then rejectChunk (IncorrectChunksCount (ChunksCount chunk)) p1
                    else (case storeChunk chunk a p1 of
                            (p2, protoMsg) \<Rightarrow> validResult lib verify protoMsg (Some a) timestamp p2))))"

section \<open>The invariant\<close>

text \<open>
  \<open>amp_links\<close>: how the two maps, the list and the store agree.  Every holder in the map is filed
  under its own key, has a list element, and is in the list; the list holds nothing else and
  has no duplicates; the index by application holds exactly the keys of the holders.
  \<open>holder_ok\<close>: the counters of a holder agree with its slots, and it is incomplete.
\<close>

abbreviation hmap :: "appMsgProcessorImpl \<Rightarrow> string \<rightharpoonup> nat" where
  "hmap p \<equiv> map_of (holders p)"

abbreviation appKey :: "appMsgProcessorImpl \<Rightarrow> nat \<Rightarrow> string" where
  "appKey p a \<equiv> hex_EncodeToString (holderAppID (heap p a))"

definition byApp :: "appMsgProcessorImpl \<Rightarrow> string \<Rightarrow> string set" where
  "byApp p x = (case map_of (holdersByAppID p) x of None \<Rightarrow> {} | Some ks \<Rightarrow> set ks)"

definition amp_links :: "appMsgProcessorImpl \<Rightarrow> bool" where
  "amp_links p \<longleftrightarrow>
     distinct (map fst (holders p)) \<and> distinct (map fst (holdersByAppID p)) \<and>
     distinct (holderListByAge p) \<and> set (holderListByAge p) = ran (hmap p) \<and>
     (\<forall>k a. hmap p k = Some a \<longrightarrow>
        a < nextAddr p \<and> holderKey (heap p a) = k \<and> el (heap p a)) \<and>
     (\<forall>x k. k \<in> byApp p x \<longleftrightarrow> (\<exists>a. hmap p k = Some a \<and> appKey p a = x))"

abbreviation present :: "ApplicationMessageChunk option list \<Rightarrow> nat" where
  "present cs \<equiv> length (filter (\<lambda>c. c \<noteq> None) cs)"

definition slot_bytes :: "ApplicationMessageChunk option \<Rightarrow> bytes" where
  "slot_bytes f = (case f of None \<Rightarrow> [] | Some c \<Rightarrow> MessageChunk c)"

definition holder_ok :: "chunkHolder \<Rightarrow> bool" where
  "holder_ok h \<longleftrightarrow>
     2 \<le> length (chunks h) \<and> length (chunks h) < 2 ^ 31 \<and>
     received h = int (present (chunks h)) \<and>
     0 < present (chunks h) \<and> present (chunks h) < length (chunks h) \<and>
     holderSize h = of_nat (sum_list (map (\<lambda>f. length (slot_bytes f)) (chunks h))) \<and>
     (\<forall>i < length (chunks h). \<forall>c. chunks h ! i = Some c \<longrightarrow>
        ChunkIndex c = int i \<and> ChunksCount c = int (length (chunks h)))"

definition amp_inv :: "appMsgProcessorImpl \<Rightarrow> bool" where
  "amp_inv p \<longleftrightarrow> amp_links p \<and> (\<forall>k a. hmap p k = Some a \<longrightarrow> holder_ok (heap p a))"

lemma amp_linksD:
  assumes "amp_links p"
  shows "distinct (map fst (holders p))" "distinct (map fst (holdersByAppID p))"
    "distinct (holderListByAge p)" "set (holderListByAge p) = ran (hmap p)"
    "hmap p k = Some a \<Longrightarrow> a < nextAddr p"
    "hmap p k = Some a \<Longrightarrow> holderKey (heap p a) = k"
    "hmap p k = Some a \<Longrightarrow> el (heap p a)"
    "k \<in> byApp p x \<longleftrightarrow> (\<exists>a. hmap p k = Some a \<and> appKey p a = x)"
  using assms unfolding amp_links_def by blast+

lemma amp_links_inj: "amp_links p \<Longrightarrow> hmap p k = Some a \<Longrightarrow> hmap p k' = Some a \<Longrightarrow> k = k'"
  by (metis amp_linksD(6))

lemma byApp_update:
  "byApp (p\<lparr>holdersByAppID := AList.update x ks (holdersByAppID p)\<rparr>) y = (if y = x then set ks else byApp p y)"
  by (simp add: byApp_def update_conv')

lemma byApp_cong: "holdersByAppID p = holdersByAppID q \<Longrightarrow> byApp p = byApp q"
  by (simp add: byApp_def fun_eq_iff)

text \<open>What removing a holder does to the four containers.\<close>

lemma removeHolder_simps [simp]:
  "heap (removeHolder a f p) = heap p"
  "nextAddr (removeHolder a f p) = nextAddr p"
  "reassembleTimeout (removeHolder a f p) = reassembleTimeout p"
  "appID (removeHolder a f p) = appID p"
  "accountID (removeHolder a f p) = accountID p"
  "chunkSize (removeHolder a f p) = chunkSize p"
  "holders (removeHolder a f p) = AList.delete (holderKey (heap p a)) (holders p)"
  "holderListByAge (removeHolder a f p) = (if el (heap p a) then remove1 a (holderListByAge p) else holderListByAge p)"
  "holdersByAppID (removeHolder a False p) = holdersByAppID p"
  by (auto simp: removeHolder_def Let_def split: option.splits)

lemma byApp_removeHolder:
  "byApp (removeHolder a True p) x = byApp p x - (if x = appKey p a then {holderKey (heap p a)} else {})"
  by (auto simp: removeHolder_def byApp_def Let_def update_conv' split: option.splits)

lemma distinct_byApp_removeHolder:
  "distinct (map fst (holdersByAppID p)) \<Longrightarrow> distinct (map fst (holdersByAppID (removeHolder a True p)))"
  by (auto simp: removeHolder_def Let_def distinct_update split: option.splits)

lemma ran_delete:
  assumes "\<And>k'. m k' = Some a \<Longrightarrow> k' = k" and "m k = Some a"
  shows "ran (m(k := None)) = ran m - {a}"
proof (rule set_eqI)
  fix b
  have del: "b \<in> ran (m(k := None)) \<longleftrightarrow> (\<exists>k'. k' \<noteq> k \<and> m k' = Some b)"
    by (auto simp: ran_def)
  show "b \<in> ran (m(k := None)) \<longleftrightarrow> b \<in> ran m - {a}"
  proof (cases "b = a")
    case True
    with assms(1) del show ?thesis by blast
  next
    case False
    with assms(2) have "k' \<noteq> k" if "m k' = Some b" for k' using that by auto
    with False del show ?thesis by (auto simp: ran_def)
  qed
qed

lemma amp_links_removeHolder:
  assumes l: "amp_links p" and k: "hmap p k = Some a"
  shows "amp_links (removeHolder a True p)"
proof -
  note D = amp_linksD [OF l]
  have key: "holderKey (heap p a) = k" and el: "el (heap p a)" using D(6,7) [OF k] by auto
  have hm: "hmap (removeHolder a True p) = (hmap p)(k := None)" by (simp add: key delete_conv')
  have ran: "ran ((hmap p)(k := None)) = ran (hmap p) - {a}"
    by (rule ran_delete) (auto intro: amp_links_inj [OF l _ k] k)
  show ?thesis
    unfolding amp_links_def hm
  proof (intro conjI allI impI)
    show "distinct (map fst (holders (removeHolder a True p)))"
      using D(1) by (simp add: distinct_delete)
    show "distinct (map fst (holdersByAppID (removeHolder a True p)))"
      using D(2) by (rule distinct_byApp_removeHolder)
    show "distinct (holderListByAge (removeHolder a True p))" using D(3) by (simp add: el)
    show "set (holderListByAge (removeHolder a True p)) = ran ((hmap p)(k := None))"
      using D(3,4) by (simp add: el ran)
  next
    fix k' b assume "((hmap p)(k := None)) k' = Some b"
    then have "hmap p k' = Some b" by (simp split: if_splits)
    then show "b < nextAddr (removeHolder a True p)" "holderKey (heap (removeHolder a True p) b) = k'"
      "el (heap (removeHolder a True p) b)"
      using D(5,6,7) by auto
  next
    fix x k'
    show "k' \<in> byApp (removeHolder a True p) x \<longleftrightarrow>
        (\<exists>b. ((hmap p)(k := None)) k' = Some b \<and> appKey (removeHolder a True p) b = x)"
      using D(8) [of k' x] k by (auto simp: byApp_removeHolder key)
  qed
qed

section \<open>Expiry\<close>

definition expired :: "time \<Rightarrow> appMsgProcessorImpl \<Rightarrow> nat \<Rightarrow> bool" where
  "expired now p a \<longleftrightarrow> reassembleTimeout p \<le> time_Sub now (holderTimestamp (heap p a))"

definition keep_addrs :: "nat set \<Rightarrow> (string \<rightharpoonup> nat) \<Rightarrow> (string \<rightharpoonup> nat)" where
  "keep_addrs A m = (\<lambda>k. case m k of None \<Rightarrow> None | Some a \<Rightarrow> if a \<in> A then Some a else None)"

lemma keep_addrs_ran [simp]: "ran m \<subseteq> A \<Longrightarrow> keep_addrs A m = m"
  by (auto simp: keep_addrs_def fun_eq_iff ran_def split: option.splits)

text \<open>The parts of the state that removing holders does not touch.\<close>

definition amp_frame :: "appMsgProcessorImpl \<Rightarrow> appMsgProcessorImpl \<Rightarrow> bool" where
  "amp_frame p q \<longleftrightarrow>
     heap q = heap p \<and> nextAddr q = nextAddr p \<and> reassembleTimeout q = reassembleTimeout p \<and>
     appID q = appID p \<and> accountID q = accountID p \<and> chunkSize q = chunkSize p"

lemma amp_frameD [dest]:
  assumes "amp_frame p q"
  shows "heap q = heap p" "nextAddr q = nextAddr p" "reassembleTimeout q = reassembleTimeout p"
    "appID q = appID p" "accountID q = accountID p" "chunkSize q = chunkSize p"
  using assms by (simp_all add: amp_frame_def)

lemma amp_frame_refl [simp]: "amp_frame p p"
  by (simp add: amp_frame_def)

lemma amp_frame_removeHolder: "amp_frame (removeHolder a f p) q \<longleftrightarrow> amp_frame p q"
  by (simp add: amp_frame_def)

text \<open>
  What the expiry loop keeps of the parts it does not work on, and what it does to the list:
  it drops the longest prefix of expired holders.
\<close>

lemma expireByTimestamp_spec:
  assumes "amp_links p"
  shows "\<exists>q. expireByTimestamp now p =
       Ret (int (length (takeWhile (expired now p) (holderListByAge p))),
            sum_list (map (\<lambda>a. received (heap p a)) (takeWhile (expired now p) (holderListByAge p))), q) \<and>
     amp_links q \<and> amp_frame p q \<and>
     holderListByAge q = dropWhile (expired now p) (holderListByAge p) \<and>
     hmap q = keep_addrs (set (dropWhile (expired now p) (holderListByAge p))) (hmap p)"
  using assms
proof (induction now p rule: expireByTimestamp.induct)
  case (1 now p)
  note D = amp_linksD [OF "1.prems"]
  show ?case
  proof (cases "holderListByAge p")
    case Nil
    with D(4) have "hmap p = Map.empty" by (auto simp: ran_def fun_eq_iff) (metis option.exhaust)
    with Nil "1.prems" show ?thesis
      by (simp add: expireByTimestamp.simps [of now p] keep_addrs_def)
  next
    case (Cons a as)
    from Cons D(4) obtain k where k: "hmap p k = Some a" by (force simp: ran_def)
    have key: "holderKey (heap p a) = k" and el: "el (heap p a)" using D(6,7) [OF k] by auto
    show ?thesis
    proof (cases "expired now p a")
      case False
      moreover have "keep_addrs (set (holderListByAge p)) (hmap p) = hmap p" using D(4) by simp
      ultimately show ?thesis
        using Cons "1.prems"
        by (simp add: expireByTimestamp.simps [of now p] expired_def Let_def)
    next
      case True
      let ?p = "removeHolder a True p"
      have list: "holderListByAge ?p = as" using Cons by (simp add: el)
      have old: "reassembleTimeout p \<le> time_Sub now (holderTimestamp (heap p a))"
        using True by (simp add: expired_def)
      have exp: "expired now ?p = expired now p" by (simp add: expired_def fun_eq_iff)
      have short: "length (holderListByAge ?p) < length (holderListByAge p)" using list Cons by simp
      have links: "amp_links ?p" by (rule amp_links_removeHolder [OF "1.prems" k])
      from "1.IH" [OF Cons refl refl refl old short links] obtain q where
        run: "expireByTimestamp now ?p =
          Ret (int (length (takeWhile (expired now p) as)),
               sum_list (map (\<lambda>b. received (heap p b)) (takeWhile (expired now p) as)), q)"
        and q: "amp_links q" "amp_frame p q"
          "holderListByAge q = dropWhile (expired now p) as"
          "hmap q = keep_addrs (set (dropWhile (expired now p) as)) (hmap ?p)"
        unfolding exp list by (auto simp: amp_frame_removeHolder)
      have notin: "a \<notin> set (dropWhile (expired now p) as)"
        using D(3) Cons by (auto dest: set_dropWhileD)
      have "keep_addrs (set (dropWhile (expired now p) as)) (hmap ?p) =
          keep_addrs (set (dropWhile (expired now p) as)) (hmap p)"
        using notin k by (auto simp: keep_addrs_def key delete_conv' fun_eq_iff)
      with run q old short Cons True show ?thesis
        by (simp add: expireByTimestamp.simps [of now p] Let_def)
    qed
  qed
qed

text \<open>Removing the holders of a set of keys.\<close>

lemma filter_remove1:
  "distinct xs \<Longrightarrow> filter P (remove1 a xs) = filter (\<lambda>x. P x \<and> x \<noteq> a) xs"
  by (auto simp: distinct_remove1_removeAll removeAll_filter_not_eq intro: filter_cong)

lemma expireKeys_Cons_Some:
  "hmap p k = Some a \<Longrightarrow>
   fst (expireKeys (k # ks) p) = 1 + fst (expireKeys ks (removeHolder a False p)) \<and>
   snd (snd (expireKeys (k # ks) p)) = snd (snd (expireKeys ks (removeHolder a False p)))"
  by (simp add: case_prod_beta)

lemma expireKeys_frame: "amp_frame p (snd (snd (expireKeys ks p)))"
proof (induction ks p rule: expireKeys.induct)
  case (2 k ks p)
  then show ?case
    by (auto simp: case_prod_beta amp_frame_def split: option.splits)
qed (simp add: amp_frame_def)

lemma expireKeys_spec:
  fixes ks :: "string list"
  assumes "\<forall>k a. hmap p k = Some a \<longrightarrow> holderKey (heap p a) = k \<and> el (heap p a)"
    and "distinct (holderListByAge p)" and "distinct (map fst (holders p))"
  defines "q \<equiv> snd (snd (expireKeys ks p))"
  shows "holdersByAppID q = holdersByAppID p \<and> distinct (map fst (holders q)) \<and>
     hmap q = hmap p |` (- set ks) \<and>
     holderListByAge q = filter (\<lambda>a. \<forall>k \<in> set ks. hmap p k \<noteq> Some a) (holderListByAge p) \<and>
     fst (expireKeys ks p) = int (card {k \<in> set ks. hmap p k \<noteq> None})"
  using assms(1-3) unfolding q_def
proof (induction ks arbitrary: p)
  case Nil
  then show ?case by (simp add: restrict_map_def)
next
  case (Cons k ks)
  show ?case
  proof (cases "hmap p k")
    case None
    then have eq: "expireKeys (k # ks) p = expireKeys ks p" by simp
    have m: "hmap p |` (- set (k # ks)) = hmap p |` (- set ks)"
      using None by (auto simp: restrict_map_def fun_eq_iff)
    have c: "{j \<in> set (k # ks). hmap p j \<noteq> None} = {j \<in> set ks. hmap p j \<noteq> None}"
      using None by auto
    have f: "filter (\<lambda>a. \<forall>j \<in> set (k # ks). hmap p j \<noteq> Some a) (holderListByAge p) =
        filter (\<lambda>a. \<forall>j \<in> set ks. hmap p j \<noteq> Some a) (holderListByAge p)"
      using None by (intro filter_cong) auto
    show ?thesis unfolding eq m c f by (rule Cons.IH [OF Cons.prems])
  next
    case (Some a)
    let ?p = "removeHolder a False p"
    have key: "holderKey (heap p a) = k" and el: "el (heap p a)" using Cons.prems(1) Some by auto
    have hm: "hmap ?p = (hmap p)(k := None)" by (simp add: key delete_conv')
    have pre: "\<forall>j b. hmap ?p j = Some b \<longrightarrow> holderKey (heap ?p b) = j \<and> el (heap ?p b)"
      using Cons.prems(1) unfolding hm by simp
    have "distinct (holderListByAge ?p)" "distinct (map fst (holders ?p))"
      using Cons.prems(2,3) by (simp_all add: distinct_delete)
    note IH = Cons.IH [OF pre this, unfolded hm]
    have m: "hmap p |` (- set (k # ks)) = (hmap p)(k := None) |` (- set ks)"
      by (auto simp: restrict_map_def fun_eq_iff)
    have list: "holderListByAge ?p = remove1 a (holderListByAge p)" using el by simp
    have f: "filter (\<lambda>b. \<forall>j \<in> set (k # ks). hmap p j \<noteq> Some b) (holderListByAge p) =
        filter (\<lambda>b. \<forall>j \<in> set ks. ((hmap p)(k := None)) j \<noteq> Some b) (holderListByAge ?p)"
      unfolding list filter_remove1 [OF Cons.prems(2)] using Some by (intro filter_cong) auto
    have "{j \<in> set (k # ks). hmap p j \<noteq> None} = insert k {j \<in> set ks. ((hmap p)(k := None)) j \<noteq> None}"
      using Some by auto
    then have c: "int (card {j \<in> set (k # ks). hmap p j \<noteq> None}) =
        1 + int (card {j \<in> set ks. ((hmap p)(k := None)) j \<noteq> None})"
      by simp
    note step = expireKeys_Cons_Some [OF Some, of ks]
    have b: "holdersByAppID ?p = holdersByAppID p" by simp
    show ?thesis
      unfolding step [THEN conjunct1] step [THEN conjunct2] m f c
      using IH by (elim conjE) (intro conjI; simp only: b)
  qed
qed

lemma appKey_eq: "appKey p a = hex_EncodeToString app \<longleftrightarrow> holderAppID (heap p a) = app"
  by (auto dest: hex_EncodeToString_inj)

lemma ran_restrict_keys:
  assumes "\<And>k k' a. m k = Some a \<Longrightarrow> m k' = Some a \<Longrightarrow> k = k'"
  shows "ran (m |` (- K)) = {a \<in> ran m. \<forall>k \<in> K. m k \<noteq> Some a}"
proof (rule set_eqI)
  fix a
  have "a \<in> ran (m |` (- K)) \<longleftrightarrow> (\<exists>k. k \<notin> K \<and> m k = Some a)"
    by (auto simp: ran_def restrict_map_def)
  also have "\<dots> \<longleftrightarrow> (\<exists>k. m k = Some a) \<and> (\<forall>k \<in> K. m k \<noteq> Some a)"
    using assms by blast
  finally show "a \<in> ran (m |` (- K)) \<longleftrightarrow> a \<in> {a \<in> ran m. \<forall>k \<in> K. m k \<noteq> Some a}"
    by (auto simp: ran_def)
qed

lemma ExpireByAppID_links:
  assumes l: "amp_links p" and run: "ExpireByAppID app p = Inr (m, c, q)"
  shows "amp_links q \<and> amp_frame p q \<and>
     hmap q = hmap p |` {k. \<forall>a. hmap p k = Some a \<longrightarrow> holderAppID (heap p a) \<noteq> app} \<and>
     m = int (card {k. \<exists>a. hmap p k = Some a \<and> holderAppID (heap p a) = app})"
proof (cases "map_of (holdersByAppID p) (hex_EncodeToString app)")
  case None
  have q: "q = p" "m = 0" using run None by (auto simp: ExpireByAppID_def Let_def split: if_splits)
  have "byApp p (hex_EncodeToString app) = {}" using None by (simp add: byApp_def)
  with amp_linksD(8) [OF l] have no: "hmap p k = Some a \<Longrightarrow> holderAppID (heap p a) \<noteq> app" for k a by auto
  then have all: "{k. \<forall>a. hmap p k = Some a \<longrightarrow> holderAppID (heap p a) \<noteq> app} = UNIV"
    and none: "{k. \<exists>a. hmap p k = Some a \<and> holderAppID (heap p a) = app} = {}" by auto
  show ?thesis unfolding all none using q l by (simp add: restrict_map_def)
next
  case (Some ks)
  note D = amp_linksD [OF l]
  let ?p = "p\<lparr>holdersByAppID := AList.delete (hex_EncodeToString app) (holdersByAppID p)\<rparr>"
  have q: "q = snd (snd (expireKeys ks ?p))" and m: "m = fst (expireKeys ks ?p)"
    using run Some by (auto simp: ExpireByAppID_def Let_def split: if_splits)
  have ks: "k \<in> set ks \<longleftrightarrow> (\<exists>a. hmap p k = Some a \<and> holderAppID (heap p a) = app)" for k
    using D(8) [of k "hex_EncodeToString app"] Some by (simp add: byApp_def appKey_eq)
  have frame: "amp_frame p q" using expireKeys_frame [of ?p ks] by (simp add: q amp_frame_def)
  have "\<forall>k a. hmap ?p k = Some a \<longrightarrow> holderKey (heap ?p a) = k \<and> el (heap ?p a)" using D(6,7) by auto
  from expireKeys_spec [OF this, of ks] D(1,3)
  have b: "holdersByAppID q = AList.delete (hex_EncodeToString app) (holdersByAppID p)"
    and dk: "distinct (map fst (holders q))" and hm: "hmap q = hmap p |` (- set ks)"
    and ls: "holderListByAge q = filter (\<lambda>a. \<forall>k \<in> set ks. hmap p k \<noteq> Some a) (holderListByAge p)"
    and card: "m = int (card {k \<in> set ks. hmap p k \<noteq> None})"
    by (simp_all add: q m)
  have byq: "byApp q x = (if x = hex_EncodeToString app then {} else byApp p x)" for x
    by (simp add: byApp_def b delete_conv')
  have "amp_links q"
    unfolding amp_links_def
  proof (intro conjI allI impI)
    show "distinct (map fst (holders q))" by (rule dk)
    show "distinct (map fst (holdersByAppID q))" unfolding b using D(2) by (rule distinct_delete)
    show "distinct (holderListByAge q)" unfolding ls using D(3) by simp
    show "set (holderListByAge q) = ran (hmap q)"
      unfolding ls hm using D(4) amp_links_inj [OF l] by (subst ran_restrict_keys) auto
  next
    fix k a assume "hmap q k = Some a"
    then have "hmap p k = Some a" by (simp add: hm restrict_map_def split: if_splits)
    then show "a < nextAddr q" "holderKey (heap q a) = k" "el (heap q a)"
      using D(5,6,7) frame by (auto simp: amp_frame_def)
  next
    fix x k
    have heap: "heap q = heap p" using frame by auto
    show "k \<in> byApp q x \<longleftrightarrow> (\<exists>a. hmap q k = Some a \<and> appKey q a = x)"
      unfolding byq hm heap using D(8) [of k x] ks [of k]
      by (auto simp: restrict_map_def appKey_eq)
  qed
  moreover have "- set ks = {k. \<forall>a. hmap p k = Some a \<longrightarrow> holderAppID (heap p a) \<noteq> app}"
    using ks by auto
  moreover have "{k \<in> set ks. hmap p k \<noteq> None} = {k. \<exists>a. hmap p k = Some a \<and> holderAppID (heap p a) = app}"
    using ks by auto
  ultimately show ?thesis using frame hm card by simp
qed

lemma ExpireByAppID_inv:
  assumes "amp_inv p" and "ExpireByAppID app p = Inr (m, c, q)"
  shows "amp_inv q"
  using ExpireByAppID_links [of p app m c q] assms
  by (auto simp: amp_inv_def amp_frame_def restrict_map_def split: if_splits)

section \<open>Storing a chunk: refinement of the abstract pending table\<close>

text \<open>
  Abstractly the processor keeps, per message key, the sender and the vector of chunks seen so far.
  \<open>spec_store\<close> is what storing a chunk means: fill the slot; a full vector yields the
  concatenated bytes and leaves the table.
\<close>

type_synonym pending = "string \<rightharpoonup> bytes \<times> ApplicationMessageChunk option list"

definition abs_pending :: "appMsgProcessorImpl \<Rightarrow> pending" where
  "abs_pending p = (\<lambda>k. map_option (\<lambda>a. (holderAppID (heap p a), chunks (heap p a))) (hmap p k))"

definition spec_slots :: "ApplicationMessageChunk \<Rightarrow> string \<Rightarrow> bytes \<Rightarrow> pending \<Rightarrow> bytes \<times> ApplicationMessageChunk option list" where
  "spec_slots c k app st =
     (case st k of None \<Rightarrow> (app, replicate (nat (ChunksCount c)) None) | Some v \<Rightarrow> v)"

definition spec_store :: "ApplicationMessageChunk \<Rightarrow> string \<Rightarrow> bytes \<Rightarrow> pending \<Rightarrow> pending \<times> bytes option" where
  "spec_store c k app st =
     (case spec_slots c k app st of (app', cs) \<Rightarrow>
        let cs' = cs[nat (ChunkIndex c) := Some c]
        in if None \<in> set cs' then (st(k \<mapsto> (app', cs')), None)
           else (st(k := None), Some (concat (map slot_bytes cs'))))"

lemma updHolder_simps [simp]:
  "holders (updHolder a f p) = holders p"
  "holdersByAppID (updHolder a f p) = holdersByAppID p"
  "holderListByAge (updHolder a f p) = holderListByAge p"
  "nextAddr (updHolder a f p) = nextAddr p"
  "reassembleTimeout (updHolder a f p) = reassembleTimeout p"
  "appID (updHolder a f p) = appID p"
  "accountID (updHolder a f p) = accountID p"
  "chunkSize (updHolder a f p) = chunkSize p"
  "heap (updHolder a f p) = (heap p)(a := f (heap p a))"
  by (simp_all add: updHolder_def)

lemma byApp_updHolder [simp]: "byApp (updHolder a f p) = byApp p"
  by (rule byApp_cong) simp

lemma amp_links_updHolder:
  assumes "amp_links p" and "holderKey (f (heap p a)) = holderKey (heap p a)"
    and "el (f (heap p a)) = el (heap p a)" and "holderAppID (f (heap p a)) = holderAppID (heap p a)"
  shows "amp_links (updHolder a f p)"
proof -
  have eq: "holderKey (heap (updHolder a f p) b) = holderKey (heap p b)"
    "el (heap (updHolder a f p) b) = el (heap p b)"
    "holderAppID (heap (updHolder a f p) b) = holderAppID (heap p b)" for b
    using assms(2-4) by simp_all
  show ?thesis
    unfolding amp_links_def eq updHolder_simps(1-4) byApp_updHolder
    by (rule assms(1) [unfolded amp_links_def])
qed

lemma amp_links_relist:
  assumes "amp_links p" and "distinct xs" and "set xs = set (holderListByAge p)"
  shows "amp_links (p\<lparr>holderListByAge := xs\<rparr>)"
proof -
  have "byApp (p\<lparr>holderListByAge := xs\<rparr>) = byApp p" by (rule byApp_cong) simp
  with assms show ?thesis unfolding amp_links_def by simp
qed

lemma amp_inv_timestamp:
  "amp_inv p \<Longrightarrow> amp_inv (updHolder a (\<lambda>h. h\<lparr>holderTimestamp := t\<rparr>) p)"
  by (auto simp: amp_inv_def holder_ok_def intro: amp_links_updHolder)

lemma present_full: "present cs = length cs \<longleftrightarrow> None \<notin> set cs"
  by (metis (mono_tags, lifting) all_filtered_iff)

lemma sum_slots_update:
  assumes "i < length cs" and "cs ! i = None"
  shows "sum_list (map (\<lambda>f. length (slot_bytes f)) (cs[i := Some c])) =
         length (MessageChunk c) + sum_list (map (\<lambda>f. length (slot_bytes f)) cs)"
  using assms
proof (induction cs arbitrary: i)
  case Nil
  then show ?case by simp
next
  case (Cons x cs)
  then show ?case by (cases i) (auto simp: slot_bytes_def)
qed

text \<open>The holder after a chunk has been written into a free slot.\<close>

definition stored :: "ApplicationMessageChunk \<Rightarrow> chunkHolder \<Rightarrow> chunkHolder" where
  "stored chunk h =
     h\<lparr>chunks := (chunks h)[nat (ChunkIndex chunk) := Some chunk],
       received := to_int32 (received h + 1),
       holderSize := holderSize h + of_nat (length (MessageChunk chunk))\<rparr>"

lemma stored_simps [simp]:
  "holderKey (stored c h) = holderKey h" "el (stored c h) = el h" "holderAppID (stored c h) = holderAppID h"
  "chunks (stored c h) = (chunks h)[nat (ChunkIndex c) := Some c]"
  "holderTimestamp (stored c h) = holderTimestamp h"
  by (simp_all add: stored_def)

text \<open>Slots that are free or hold a chunk with the right index and count.\<close>

definition slots_ok :: "chunkHolder \<Rightarrow> bool" where
  "slots_ok h \<longleftrightarrow>
     2 \<le> length (chunks h) \<and> length (chunks h) < 2 ^ 31 \<and>
     received h = int (present (chunks h)) \<and>
     holderSize h = of_nat (sum_list (map (\<lambda>f. length (slot_bytes f)) (chunks h))) \<and>
     (\<forall>i < length (chunks h). \<forall>c. chunks h ! i = Some c \<longrightarrow>
        ChunkIndex c = int i \<and> ChunksCount c = int (length (chunks h)))"

lemma holder_ok_iff:
  "holder_ok h \<longleftrightarrow> slots_ok h \<and> 0 < present (chunks h) \<and> present (chunks h) < length (chunks h)"
  by (auto simp: holder_ok_def slots_ok_def)

lemma holder_ok_el: "holder_ok (h\<lparr>el := b\<rparr>) = holder_ok h"
  by (simp add: holder_ok_def)

lemma slots_ok_new: "2 \<le> n \<Longrightarrow> n < 2 ^ 31 \<Longrightarrow> slots_ok (newChunkHolder n k app)"
  by (auto simp: slots_ok_def newChunkHolder_def slot_bytes_def sum_list_replicate)

lemma stored_ok:
  assumes ok: "slots_ok h" and i: "0 \<le> ChunkIndex c" "ChunkIndex c < int (length (chunks h))"
    and free: "chunks h ! nat (ChunkIndex c) = None" and n: "ChunksCount c = int (length (chunks h))"
  shows "slots_ok (stored c h)" and "present (chunks (stored c h)) = Suc (present (chunks h))"
proof -
  let ?i = "nat (ChunkIndex c)"
  have i': "?i < length (chunks h)" using i by simp
  have pr: "present ((chunks h)[?i := Some c]) = Suc (present (chunks h))"
    by (rule length_filter_update [OF i']) (simp_all add: free)
  then show "present (chunks (stored c h)) = Suc (present (chunks h))" by simp
  have "present ((chunks h)[?i := Some c]) \<le> length (chunks h)"
    by (metis length_filter_le length_list_update)
  then have "int (present (chunks h)) + 1 < 2 ^ 31" using pr ok by (simp add: slots_ok_def)
  then have rc: "to_int32 (received h + 1) = int (Suc (present (chunks h)))"
    using ok by (simp add: slots_ok_def to_int32_id)
  have ok': "2 \<le> length (chunks h)" "length (chunks h) < 2 ^ 31"
    "holderSize h = of_nat (sum_list (map (\<lambda>f. length (slot_bytes f)) (chunks h)))"
    "\<And>j d. j < length (chunks h) \<Longrightarrow> chunks h ! j = Some d \<Longrightarrow>
       ChunkIndex d = int j \<and> ChunksCount d = int (length (chunks h))"
    using ok by (auto simp: slots_ok_def)
  show "slots_ok (stored c h)"
    unfolding slots_ok_def
  proof (intro conjI allI impI)
    show "2 \<le> length (chunks (stored c h))" "length (chunks (stored c h)) < 2 ^ 31"
      using ok'(1,2) by simp_all
    show "received (stored c h) = int (present (chunks (stored c h)))"
      using rc pr by (simp add: stored_def)
    show "holderSize (stored c h) = of_nat (sum_list (map (\<lambda>f. length (slot_bytes f)) (chunks (stored c h))))"
      using sum_slots_update [OF i' free, of c] ok'(3) by (simp add: stored_def)
  next
    fix j d assume j: "j < length (chunks (stored c h))" and d: "chunks (stored c h) ! j = Some d"
    show "ChunkIndex d = int j" "ChunksCount d = int (length (chunks (stored c h)))"
      using ok'(4) [of j d] j d i n by (auto simp: nth_list_update split: if_splits)
  qed
qed

lemma complete_iff:
  assumes "slots_ok h"
  shows "received h \<noteq> to_int32 (int (length (chunks h))) \<longleftrightarrow> None \<in> set (chunks h)"
proof -
  have "to_int32 (int (length (chunks h))) = int (length (chunks h))"
    using assms by (simp add: slots_ok_def to_int32_id)
  then show ?thesis using assms present_full [of "chunks h"] by (simp add: slots_ok_def)
qed

lemma storeChunk_alt:
  "storeChunk c a p =
     (let p1 = updHolder a (stored c) p; h = stored c (heap p a)
      in if received h \<noteq> to_int32 (int (length (chunks h)))
         then (if el h
               then (p1\<lparr>holderListByAge :=
                        (if a \<in> set (holderListByAge p) then remove1 a (holderListByAge p) @ [a]
                         else holderListByAge p)\<rparr>, None)
               else ((updHolder a (\<lambda>h. h\<lparr>el := True\<rparr>) p1)\<lparr>holderListByAge := holderListByAge p @ [a]\<rparr>, None))
         else (removeHolder a True p1, Some (concat (map slot_bytes (chunks h)))))"
proof -
  have "(\<lambda>h. h\<lparr>chunks := (chunks h)[nat (ChunkIndex c) := Some c], received := to_int32 (received h + 1),
      holderSize := holderSize h + of_nat (length (MessageChunk c))\<rparr>) = stored c"
    by (simp add: stored_def fun_eq_iff)
  moreover have "(\<lambda>f. case f of None \<Rightarrow> [] | Some c \<Rightarrow> MessageChunk c) = slot_bytes"
    by (simp add: slot_bytes_def fun_eq_iff)
  ultimately show ?thesis by (simp add: storeChunk_def Let_def)
qed

lemma abs_pending_relist [simp]: "abs_pending (p\<lparr>holderListByAge := xs\<rparr>) = abs_pending p"
  by (simp add: abs_pending_def)

lemma abs_pending_updHolder:
  assumes l: "amp_links p" and k: "hmap p k = Some a" and id: "holderAppID (f (heap p a)) = holderAppID (heap p a)"
  shows "abs_pending (updHolder a f p) = (abs_pending p)(k \<mapsto> (holderAppID (heap p a), chunks (f (heap p a))))"
proof
  fix j
  show "abs_pending (updHolder a f p) j =
      ((abs_pending p)(k \<mapsto> (holderAppID (heap p a), chunks (f (heap p a))))) j"
  proof (cases "j = k")
    case True
    with k id show ?thesis by (simp add: abs_pending_def)
  next
    case False
    then have "hmap p j \<noteq> Some a" using amp_links_inj [OF l _ k] by blast
    with False show ?thesis by (cases "hmap p j") (auto simp: abs_pending_def)
  qed
qed

lemma abs_pending_removeHolder:
  "holderKey (heap p a) = k \<Longrightarrow> abs_pending (removeHolder a f p) = (abs_pending p)(k := None)"
  by (auto simp: abs_pending_def fun_eq_iff delete_conv')

text \<open>Storing into a holder that is in the map already.\<close>

lemma store_existing:
  assumes inv: "amp_inv p" and k: "hmap p k = Some a"
    and i: "0 \<le> ChunkIndex c" "ChunkIndex c < int (length (chunks (heap p a)))"
    and free: "chunks (heap p a) ! nat (ChunkIndex c) = None"
    and n: "ChunksCount c = int (length (chunks (heap p a)))"
    and run: "storeChunk c a p = (p2, msg)"
  shows "amp_inv p2 \<and> (abs_pending p2, msg) = spec_store c k app (abs_pending p) \<and>
         holderListByAge p2 = remove1 a (holderListByAge p) @ (if msg = None then [a] else []) \<and>
         (msg = None \<longrightarrow> hmap p2 k = Some a)"
proof -
  let ?h = "heap p a" and ?p1 = "updHolder a (stored c) p"
  have l: "amp_links p" and hok: "holder_ok ?h" using inv k by (auto simp: amp_inv_def)
  note D = amp_linksD [OF l]
  have el: "el ?h" and key: "holderKey ?h = k" using D(6,7) [OF k] by auto
  have a: "a \<in> set (holderListByAge p)" using D(4) k by (auto simp: ran_def)
  have sok: "slots_ok ?h" using hok by (simp add: holder_ok_iff)
  note st = stored_ok [OF sok i free n]
  have l1: "amp_links ?p1" by (rule amp_links_updHolder [OF l]) simp_all
  have spec: "spec_slots c k app (abs_pending p) = (holderAppID ?h, chunks ?h)"
    by (simp add: spec_slots_def abs_pending_def k)
  have abs1: "abs_pending ?p1 = (abs_pending p)(k \<mapsto> (holderAppID ?h, chunks (stored c ?h)))"
    by (rule abs_pending_updHolder [OF l k]) simp
  have others: "holder_ok (heap ?p1 b)" if "hmap p j = Some b" "b \<noteq> a" for j b
    using that inv by (simp add: amp_inv_def)
  show ?thesis
  proof (cases "None \<in> set (chunks (stored c ?h))")
    case True
    let ?xs = "remove1 a (holderListByAge p) @ [a]"
    have inc: "received (stored c ?h) \<noteq> to_int32 (int (length (chunks (stored c ?h))))"
      using True complete_iff [OF st(1)] by simp
    have p2: "p2 = ?p1\<lparr>holderListByAge := ?xs\<rparr>" and msg: "msg = None"
      using run inc el a unfolding storeChunk_alt Let_def by auto
    have "amp_links p2" unfolding p2 using D(3) a by (intro amp_links_relist [OF l1]) auto
    moreover have "present (chunks (stored c ?h)) < length (chunks (stored c ?h))"
      using True present_full [of "chunks (stored c ?h)"] by (metis le_neq_implies_less length_filter_le)
    then have "holder_ok (stored c ?h)" using st by (simp add: holder_ok_iff del: stored_simps(4))
    then have "\<forall>j b. hmap p2 j = Some b \<longrightarrow> holder_ok (heap p2 b)"
      using others by (auto simp: p2)
    ultimately show ?thesis
      using True abs1 k msg by (simp add: p2 amp_inv_def spec_store_def spec Let_def)
  next
    case False
    have com: "received (stored c ?h) = to_int32 (int (length (chunks (stored c ?h))))"
      using False complete_iff [OF st(1)] by blast
    have p2: "p2 = removeHolder a True ?p1"
      and msg: "msg = Some (concat (map slot_bytes (chunks (stored c ?h))))"
      using run com unfolding storeChunk_alt Let_def by auto
    have "amp_links p2" unfolding p2 using k by (intro amp_links_removeHolder [OF l1]) simp
    moreover have "\<forall>j b. hmap p2 j = Some b \<longrightarrow> holder_ok (heap p2 b)"
    proof (intro allI impI)
      fix j b assume j: "hmap p2 j = Some b"
      then have "hmap p j = Some b" "j \<noteq> k" by (auto simp: p2 key delete_conv' split: if_splits)
      moreover from this have "b \<noteq> a" using amp_links_inj [OF l _ k] by blast
      ultimately show "holder_ok (heap p2 b)" using others by (simp add: p2)
    qed
    moreover have "abs_pending p2 = (abs_pending p)(k := None)"
      unfolding p2 by (subst abs_pending_removeHolder [where k = k]) (simp_all add: key abs1)
    ultimately show ?thesis
      using False msg el by (simp add: p2 amp_inv_def spec_store_def spec Let_def)
  qed
qed

text \<open>Storing into a holder that \<open>findHolder\<close> has just allocated.\<close>

lemma store_new:
  assumes inv: "amp_inv p" and k: "hmap p k = None"
    and n: "2 \<le> ChunksCount c" "ChunksCount c < 2 ^ 31"
    and i: "0 \<le> ChunkIndex c" "ChunkIndex c < ChunksCount c"
    and find: "findHolder c k app p = (a, p1)" and run: "storeChunk c a p1 = (p2, msg)"
  shows "amp_inv p2 \<and> (abs_pending p2, msg) = spec_store c k app (abs_pending p) \<and>
         holderListByAge p2 = remove1 a (holderListByAge p) @ (if msg = None then [a] else []) \<and>
         (msg = None \<longrightarrow> hmap p2 k = Some a)"
proof -
  let ?fresh = "newChunkHolder (ChunksCount c) k app" and ?x = "hex_EncodeToString app"
  let ?h = "(stored c ?fresh)\<lparr>el := True\<rparr>"
  let ?ks = "case map_of (holdersByAppID p) ?x of None \<Rightarrow> [] | Some ks \<Rightarrow> ks"
  have l: "amp_links p" using inv by (simp add: amp_inv_def)
  note D = amp_linksD [OF l]
  have a: "a = nextAddr p" and p1: "p1 = p\<lparr>heap := (heap p)(a := ?fresh), nextAddr := Suc a,
      holders := AList.update k a (holders p),
      holdersByAppID := AList.update ?x (List.insert k ?ks) (holdersByAppID p)\<rparr>"
    using find k by (auto simp: findHolder_def Let_def)
  have len: "int (length (chunks ?fresh)) = ChunksCount c" and free: "chunks ?fresh ! nat (ChunkIndex c) = None"
    and un: "chunks ?fresh = replicate (nat (ChunksCount c)) None"
    using n i by (auto simp: newChunkHolder_def)
  have "ChunkIndex c < int (length (chunks ?fresh))" using len i by simp
  note st = stored_ok [OF slots_ok_new [OF n] i(1) this free len [symmetric]]
  have pr: "present (chunks (stored c ?fresh)) = 1" using st(2) by (simp add: un)
  have lt: "1 < length (chunks (stored c ?fresh))" using n by (simp add: un)
  have "present (chunks (stored c ?fresh)) \<noteq> length (chunks (stored c ?fresh))" using pr lt by linarith
  then have none: "None \<in> set (chunks (stored c ?fresh))" by (metis present_full)
  then have inc: "received (stored c ?fresh) \<noteq> to_int32 (int (length (chunks (stored c ?fresh))))"
    using complete_iff [OF st(1)] by blast
  have h1: "heap p1 a = ?fresh" and l1: "holderListByAge p1 = holderListByAge p" by (simp_all add: p1)
  have nel: "\<not> el (stored c ?fresh)" by (simp add: newChunkHolder_def)
  have p2: "p2 = (updHolder a (\<lambda>h. h\<lparr>el := True\<rparr>) (updHolder a (stored c) p1))
      \<lparr>holderListByAge := holderListByAge p @ [a]\<rparr>" and msg: "msg = None"
    using run inc nel unfolding storeChunk_alt Let_def h1 l1 by auto
  have heap2: "heap p2 = (heap p)(a := ?h)" by (simp add: p2 p1)
  have hm2: "hmap p2 = (hmap p)(k \<mapsto> a)" by (simp add: p2 p1 update_conv')
  have old: "b \<noteq> a" if "hmap p j = Some b" for j b using D(5) [OF that] a by simp
  have by2: "byApp p2 = (byApp p)(?x := insert k (byApp p ?x))"
    by (auto simp: p2 p1 byApp_def update_conv' fun_eq_iff split: option.splits)
  have notin: "a \<notin> set (holderListByAge p)" using D(4) old by (auto simp: ran_def)
  have links: "amp_links p2"
    unfolding amp_links_def hm2 by2
  proof (intro conjI allI impI)
    show "distinct (map fst (holders p2))" using D(1) by (simp add: p2 p1 distinct_update)
    show "distinct (map fst (holdersByAppID p2))" using D(2) by (simp add: p2 p1 distinct_update)
    show "distinct (holderListByAge p2)" using D(3) notin by (simp add: p2)
    show "set (holderListByAge p2) = ran ((hmap p)(k \<mapsto> a))" using D(4) k by (simp add: p2 ran_map_upd)
  next
    fix j b assume "((hmap p)(k \<mapsto> a)) j = Some b"
    then have "j = k \<and> b = a \<or> hmap p j = Some b \<and> b \<noteq> a" using old by (auto split: if_splits)
    then show "b < nextAddr p2" "holderKey (heap p2 b) = j" "el (heap p2 b)"
      using D(5,6,7) [of j b] by (auto simp: heap2 newChunkHolder_def p2 p1 a)
  next
    fix x j
    have "appKey p2 b = appKey p b" if "hmap p j = Some b" for b using old [OF that] by (simp add: heap2)
    moreover have "appKey p2 a = ?x" by (simp add: heap2 newChunkHolder_def)
    ultimately show "j \<in> ((byApp p)(?x := insert k (byApp p ?x))) x \<longleftrightarrow>
        (\<exists>b. ((hmap p)(k \<mapsto> a)) j = Some b \<and> appKey p2 b = x)"
      using D(8) [of j x] k by (cases "j = k") auto
  qed
  have "holder_ok (stored c ?fresh)" unfolding holder_ok_iff pr using st(1) lt zero_less_one by blast
  then have "holder_ok ?h" by (simp only: holder_ok_el)
  moreover have "holder_ok (heap p b)" if "hmap p j = Some b" for j b using that inv by (simp add: amp_inv_def)
  ultimately have "holder_ok (heap p2 b)" if "hmap p2 j = Some b" for j b
    using that old [of j b] by (cases "j = k") (simp_all add: hm2 heap2)
  then have inv2: "amp_inv p2" using links unfolding amp_inv_def by blast
  have "abs_pending p2 j = ((abs_pending p)(k \<mapsto> (app, chunks (stored c ?fresh)))) j" for j
    using old [of j] k
    by (cases "j = k"; cases "hmap p j") (simp_all add: abs_pending_def hm2 heap2 newChunkHolder_def)
  then have abs2: "abs_pending p2 = (abs_pending p)(k \<mapsto> (app, chunks (stored c ?fresh)))" by blast
  have "spec_slots c k app (abs_pending p) = (app, chunks ?fresh)"
    by (simp add: spec_slots_def abs_pending_def k un)
  then have "spec_store c k app (abs_pending p) = (abs_pending p2, msg)"
    using none by (simp add: spec_store_def abs2 msg)
  moreover have "holderListByAge p2 = holderListByAge p @ [a]" by (simp add: p2)
  ultimately show ?thesis using inv2 notin msg by (simp add: hm2 remove1_idem)
qed

section \<open>Reassembling refines a table ordered by age\<close>

text \<open>
  \<open>abs_ages\<close> is the abstract state of the processor: the incomplete messages from the oldest to the
  youngest, each with its sender, its slots and the consensus time of its last chunk.  \<open>spec_receive\<close> is what
  a valid chunk means for that table: it fills its slot, makes its message the youngest or, when the
  last slot is filled, takes the message out.  \<open>spec_valid\<close> then forgets the messages at the old end
  whose last chunk is at least \<open>timeout\<close> ago.  \<open>spec_Reassemble\<close> is the whole operation on the table.
\<close>

type_synonym ages = "(string \<times> bytes \<times> ApplicationMessageChunk option list \<times> time) list"

definition entry :: "chunkHolder \<Rightarrow> string \<times> bytes \<times> ApplicationMessageChunk option list \<times> time" where
  "entry h = (holderKey h, holderAppID h, chunks h, holderTimestamp h)"

definition abs_ages :: "appMsgProcessorImpl \<Rightarrow> ages" where
  "abs_ages p = map (\<lambda>a. entry (heap p a)) (holderListByAge p)"

definition spec_receive ::
  "ApplicationMessageChunk \<Rightarrow> string \<Rightarrow> bytes \<Rightarrow> time \<Rightarrow> ages \<Rightarrow> ages \<times> bytes option"
where
  "spec_receive c k app now st =
     (let (app', cs) = (case map_of st k of
                          None \<Rightarrow> (app, replicate (nat (ChunksCount c)) None)
                        | Some (app', cs, t) \<Rightarrow> (app', cs));
          cs' = cs[nat (ChunkIndex c) := Some c];
          rest = filter (\<lambda>e. fst e \<noteq> k) st
      in if None \<in> set cs' then (rest @ [(k, app', cs', now)], None)
         else (rest, Some (concat (map slot_bytes cs'))))"

definition too_old :: "duration \<Rightarrow> time \<Rightarrow> string \<times> bytes \<times> ApplicationMessageChunk option list \<times> time \<Rightarrow> bool" where
  "too_old timeout now = (\<lambda>(k, app, cs, t). timeout \<le> time_Sub now t)"

definition spec_valid ::
  "amp_lib \<Rightarrow> verify_fun \<Rightarrow> duration \<Rightarrow> time \<Rightarrow> ages \<times> bytes option \<Rightarrow> (reassembled \<times> ages) go"
where
  "spec_valid lib verify timeout now = (\<lambda>(st, protoMsg).
     case openResult lib verify protoMsg of
       (m, h, e) \<Rightarrow>
         (let gone = takeWhile (too_old timeout now) st
          in Ret (\<lparr>resMessage = m, resHash = h, expiredMessages = int (length gone),
                   expiredChunks = sum_list (map (\<lambda>(k, app, cs, t). int (present cs)) gone), resErr = e\<rparr>,
                  dropWhile (too_old timeout now) st)))"

definition spec_reject :: "amp_error \<Rightarrow> ages \<Rightarrow> (reassembled \<times> ages) go" where
  "spec_reject e st =
     Ret (\<lparr>resMessage = None, resHash = None, expiredMessages = 0, expiredChunks = 0, resErr = Some e\<rparr>, st)"

definition spec_Reassemble ::
  "amp_lib \<Rightarrow> verify_fun \<Rightarrow> duration \<Rightarrow> ApplicationMessageChunk \<Rightarrow> time \<Rightarrow> ages \<Rightarrow> (reassembled \<times> ages) go"
where
  "spec_Reassemble lib verify timeout c now st =
     (if ChunksCount c < 1 then spec_reject (InvalidChunksCount (ChunksCount c)) st
      else if ChunkIndex c < 0 \<or> ChunksCount c \<le> ChunkIndex c
      then spec_reject (InvalidChunkIndex (ChunkIndex c) (ChunksCount c)) st
      else if ChunksCount c = 1 then spec_valid lib verify timeout now (st, Some (MessageChunk c))
      else case ChunkMessageId c of
        None \<Rightarrow> Panic ''invalid memory address or nil pointer dereference''
      | Some msgId \<Rightarrow>
          go_bind (makeHolderKey msgId) (\<lambda>k.
            case IdMetadata msgId of
              None \<Rightarrow> Panic ''invalid memory address or nil pointer dereference''
            | Some md \<Rightarrow>
                (let accept = spec_valid lib verify timeout now (spec_receive c k (AnyValue md) now st)
                 in case map_of st k of
                      None \<Rightarrow> accept
                    | Some (app, cs, t) \<Rightarrow>
                        if int (length cs) \<le> ChunkIndex c then Panic ''index out of range''
                        else if cs ! nat (ChunkIndex c) \<noteq> None then spec_reject (DuplicateChunk (ChunkIndex c)) st
                        else if ChunksCount c \<noteq> int (length cs)
                        then spec_reject (IncorrectChunksCount (ChunksCount c)) st
                        else accept)))"

lemma store_step:
  assumes inv: "amp_inv p" and n: "2 \<le> ChunksCount c" "ChunksCount c < 2 ^ 31"
    and i: "0 \<le> ChunkIndex c" "ChunkIndex c < ChunksCount c"
    and find: "findHolder c k app p = (a, p1)"
    and free: "chunks (heap p1 a) ! nat (ChunkIndex c) = None"
    and cnt: "ChunksCount c = int (length (chunks (heap p1 a)))"
    and run: "storeChunk c a p1 = (p2, msg)"
  shows "amp_inv p2 \<and> (abs_pending p2, msg) = spec_store c k app (abs_pending p) \<and>
         holderListByAge p2 = remove1 a (holderListByAge p) @ (if msg = None then [a] else []) \<and>
         (msg = None \<longrightarrow> hmap p2 k = Some a)"
proof (cases "hmap p k")
  case None
  from store_new [OF inv None n i find run] show ?thesis .
next
  case (Some b)
  then have eqs: "b = a" "p1 = p" using find by (simp_all add: findHolder_def)
  have "ChunkIndex c < int (length (chunks (heap p a)))" using i(2) cnt eqs by simp
  from store_existing [OF inv _ i(1) this _ _ run [unfolded eqs]] Some free cnt show ?thesis
    unfolding eqs by blast
qed

lemma findHolder_frame:
  assumes "findHolder c k app p = (a, p1)"
  shows "b \<noteq> a \<Longrightarrow> heap p1 b = heap p b" "reassembleTimeout p1 = reassembleTimeout p"
    "chunkSize p1 = chunkSize p" "appID p1 = appID p" "accountID p1 = accountID p"
  using assms by (auto simp: findHolder_def Let_def split: option.splits)

lemma storeChunk_frame:
  assumes "storeChunk c a p = (q, msg)"
  shows "b \<noteq> a \<Longrightarrow> heap q b = heap p b" "reassembleTimeout q = reassembleTimeout p"
    "chunkSize q = chunkSize p" "appID q = appID p" "accountID q = accountID p"
  using assms unfolding storeChunk_alt Let_def by (auto split: if_splits)

lemma findHolder_addr:
  assumes l: "amp_links p" and find: "findHolder c k app p = (a, p1)" and b: "b \<in> set (holderListByAge p)"
  shows "holderKey (heap p b) = k \<longleftrightarrow> b = a"
proof -
  note D = amp_linksD [OF l]
  from b D(4) obtain j where j: "hmap p j = Some b" by (auto simp: ran_def)
  have key: "holderKey (heap p b) = j" by (rule D(6) [OF j])
  show ?thesis
  proof (cases "hmap p k")
    case None
    then have "a = nextAddr p" using find by (auto simp: findHolder_def Let_def)
    with D(5) [OF j] None j key show ?thesis by auto
  next
    case (Some a')
    then have "a' = a" using find by (simp add: findHolder_def)
    with Some have k: "hmap p k = Some a" by simp
    show ?thesis
    proof
      assume "holderKey (heap p b) = k"
      then show "b = a" using key j k by simp
    next
      assume "b = a"
      then show "holderKey (heap p b) = k" using D(6) [OF k] by simp
    qed
  qed
qed

lemma filter_remove1_key:
  assumes "distinct xs" and "\<And>b. b \<in> set xs \<Longrightarrow> P b \<longleftrightarrow> b \<noteq> a"
  shows "filter P xs = remove1 a xs"
proof -
  have "filter P xs = filter ((\<noteq>) a) xs" using assms(2) by (intro filter_cong) auto
  also have "\<dots> = remove1 a xs"
    using assms(1) by (simp add: distinct_remove1_removeAll removeAll_filter_not_eq)
  finally show ?thesis .
qed

lemma abs_ages_lookup:
  assumes l: "amp_links p"
  shows "map_of (abs_ages p) k = map_option (\<lambda>a. snd (entry (heap p a))) (hmap p k)"
proof -
  note D = amp_linksD [OF l]
  have key: "\<exists>j. hmap p j = Some b \<and> holderKey (heap p b) = j" if "b \<in> set (holderListByAge p)" for b
    using that D(4,6) by (auto simp: ran_def)
  have "inj_on (\<lambda>a. holderKey (heap p a)) (set (holderListByAge p))"
  proof (rule inj_onI)
    fix a b
    assume "a \<in> set (holderListByAge p)" "b \<in> set (holderListByAge p)"
      "holderKey (heap p a) = holderKey (heap p b)"
    with key [of a] key [of b] show "a = b" by auto
  qed
  then have dist: "distinct (map fst (abs_ages p))"
    using D(3) by (simp add: abs_ages_def comp_def entry_def distinct_map)
  show ?thesis
  proof (cases "hmap p k")
    case None
    have "k \<notin> fst ` set (abs_ages p)" using key None by (fastforce simp: abs_ages_def entry_def)
    then have "map_of (abs_ages p) k = None" by (simp add: map_of_eq_None_iff)
    with None show ?thesis by (simp only: option.map)
  next
    case (Some a)
    have "a \<in> set (holderListByAge p)" using D(4) Some by (auto simp: ran_def)
    moreover have "fst (entry (heap p a)) = k" using D(6) [OF Some] by (simp add: entry_def)
    ultimately have "(k, snd (entry (heap p a))) \<in> set (abs_ages p)"
      unfolding abs_ages_def by (metis (mono_tags, lifting) image_eqI list.set_map prod.collapse)
    with dist Some show ?thesis by simp
  qed
qed

lemma abs_pending_ages:
  "amp_links p \<Longrightarrow> abs_pending p k = map_option (\<lambda>(app, cs, t). (app, cs)) (map_of (abs_ages p) k)"
  by (cases "hmap p k") (simp_all add: abs_ages_lookup abs_pending_def entry_def)

text \<open>The deferred function after a valid chunk, seen on the table.\<close>

lemma finishValid_spec:
  assumes inv: "amp_inv p"
    and p3_def: "p3 = (case ho of None \<Rightarrow> p | Some a \<Rightarrow> updHolder a (\<lambda>h. h\<lparr>holderTimestamp := now\<rparr>) p)"
  shows "\<exists>em ec q. finishValid ho now p = Ret (em, ec, q) \<and> amp_inv q \<and>
           abs_ages q = dropWhile (too_old (reassembleTimeout p) now) (abs_ages p3) \<and>
           em = int (length (takeWhile (too_old (reassembleTimeout p) now) (abs_ages p3))) \<and>
           ec = sum_list (map (\<lambda>(k, app, cs, t). int (present cs))
                  (takeWhile (too_old (reassembleTimeout p) now) (abs_ages p3))) \<and>
           reassembleTimeout q = reassembleTimeout p \<and> chunkSize q = chunkSize p \<and>
           appID q = appID p \<and> accountID q = accountID p"
proof -
  have inv3: "amp_inv p3" unfolding p3_def using inv by (auto simp: amp_inv_timestamp split: option.splits)
  have eq3: "reassembleTimeout p3 = reassembleTimeout p" "chunkSize p3 = chunkSize p"
    "appID p3 = appID p" "accountID p3 = accountID p"
    by (simp_all add: p3_def split: option.splits)
  from expireByTimestamp_spec [of p3 now] inv3 obtain q where
    run: "expireByTimestamp now p3 =
       Ret (int (length (takeWhile (expired now p3) (holderListByAge p3))),
            sum_list (map (\<lambda>a. received (heap p3 a)) (takeWhile (expired now p3) (holderListByAge p3))), q)"
    and q: "amp_links q" "amp_frame p3 q"
      "holderListByAge q = dropWhile (expired now p3) (holderListByAge p3)"
      "hmap q = keep_addrs (set (dropWhile (expired now p3) (holderListByAge p3))) (hmap p3)"
    unfolding amp_inv_def by blast
  let ?old = "too_old (reassembleTimeout p) now"
  have ex: "expired now p3 = ?old \<circ> (\<lambda>a. entry (heap p3 a))"
    by (simp add: expired_def too_old_def entry_def fun_eq_iff eq3)
  have ages: "abs_ages q = dropWhile ?old (abs_ages p3)"
    unfolding abs_ages_def q(3) amp_frameD(1) [OF q(2)] dropWhile_map ex ..
  have gone: "takeWhile ?old (abs_ages p3) =
      map (\<lambda>a. entry (heap p3 a)) (takeWhile (expired now p3) (holderListByAge p3))"
    unfolding abs_ages_def takeWhile_map ex ..
  have "received (heap p3 a) = int (present (chunks (heap p3 a)))"
    if "a \<in> set (takeWhile (expired now p3) (holderListByAge p3))" for a
    using set_takeWhileD [OF that] inv3 amp_linksD(4) [of p3] by (auto simp: amp_inv_def holder_ok_def ran_def)
  then have sums: "sum_list (map (\<lambda>a. received (heap p3 a)) (takeWhile (expired now p3) (holderListByAge p3))) =
      sum_list (map (\<lambda>(k, app, cs, t). int (present cs)) (takeWhile ?old (abs_ages p3)))"
    unfolding gone by (auto simp: comp_def entry_def intro!: arg_cong [where f = sum_list])
  have "hmap q k = Some a \<Longrightarrow> hmap p3 k = Some a" for k a
    by (auto simp: q(4) keep_addrs_def split: option.splits if_splits)
  then have "amp_inv q"
    using q(1) inv3 amp_frameD(1) [OF q(2)] unfolding amp_inv_def by metis
  moreover have "finishValid ho now p = expireByTimestamp now p3" by (simp add: finishValid_def p3_def)
  ultimately show ?thesis
    using run ages sums amp_frameD(3-6) [OF q(2)] eq3 by (simp add: gone)
qed

lemma store_ages:
  assumes inv: "amp_inv p" and n: "2 \<le> ChunksCount c" "ChunksCount c < 2 ^ 31"
    and i: "0 \<le> ChunkIndex c" "ChunkIndex c < ChunksCount c"
    and find: "findHolder c k app p = (a, p1)"
    and free: "chunks (heap p1 a) ! nat (ChunkIndex c) = None"
    and cnt: "ChunksCount c = int (length (chunks (heap p1 a)))"
    and run: "storeChunk c a p1 = (p2, msg)"
  shows "(abs_ages (updHolder a (\<lambda>h. h\<lparr>holderTimestamp := now\<rparr>) p2), msg) =
         spec_receive c k app now (abs_ages p)"
proof -
  note st = store_step [OF assms]
  have l: "amp_links p" and l2: "amp_links p2" using inv st by (auto simp: amp_inv_def)
  let ?p3 = "updHolder a (\<lambda>h. h\<lparr>holderTimestamp := now\<rparr>) p2"
  let ?rest = "filter (\<lambda>e. fst e \<noteq> k) (abs_ages p)"
  have a: "a \<notin> set (remove1 a (holderListByAge p))" using amp_linksD(3) [OF l] by simp
  have fr: "heap ?p3 b = heap p b" if "b \<noteq> a" for b
    using that storeChunk_frame(1) [OF run that] findHolder_frame(1) [OF find that] by simp
  have "filter (\<lambda>b. holderKey (heap p b) \<noteq> k) (holderListByAge p) = remove1 a (holderListByAge p)"
    by (rule filter_remove1_key) (simp_all add: amp_linksD(3) [OF l] findHolder_addr [OF l find])
  then have "?rest = map (\<lambda>b. entry (heap p b)) (remove1 a (holderListByAge p))"
    by (simp add: abs_ages_def filter_map comp_def entry_def)
  also have "\<dots> = map (\<lambda>b. entry (heap ?p3 b)) (remove1 a (holderListByAge p))"
    using a fr by (intro map_cong refl) metis
  finally have ages: "abs_ages ?p3 = ?rest @ (if msg = None then [entry (heap ?p3 a)] else [])"
    using st by (simp add: abs_ages_def)
  define v where "v = spec_slots c k app (abs_pending p)"
  define cs' where "cs' = (snd v)[nat (ChunkIndex c) := Some c]"
  have v: "(case map_of (abs_ages p) k of None \<Rightarrow> (app, replicate (nat (ChunksCount c)) None)
      | Some (app', cs, t) \<Rightarrow> (app', cs)) = v"
    by (simp add: v_def spec_slots_def abs_pending_ages [OF l] split: option.splits prod.splits)
  have sp: "(abs_pending p2, msg) = (if None \<in> set cs' then ((abs_pending p)(k \<mapsto> (fst v, cs')), None)
      else ((abs_pending p)(k := None), Some (concat (map slot_bytes cs'))))"
    using st by (simp add: spec_store_def v_def cs'_def case_prod_beta Let_def)
  have rc: "spec_receive c k app now (abs_ages p) =
      (if None \<in> set cs' then (?rest @ [(k, fst v, cs', now)], None)
       else (?rest, Some (concat (map slot_bytes cs'))))"
    unfolding spec_receive_def v by (simp add: case_prod_beta Let_def cs'_def)
  show ?thesis
  proof (cases "None \<in> set cs'")
    case True
    then have msg: "msg = None" and ab: "abs_pending p2 k = Some (fst v, cs')" using sp by auto
    have k2: "hmap p2 k = Some a" using st msg by blast
    then have "holderAppID (heap p2 a) = fst v" "chunks (heap p2 a) = cs'"
      using ab by (simp_all add: abs_pending_def)
    then have "entry (heap ?p3 a) = (k, fst v, cs', now)"
      using amp_linksD(6) [OF l2 k2] by (simp add: entry_def)
    then show ?thesis unfolding rc ages using True msg by simp
  next
    case False
    then show ?thesis unfolding rc ages using sp by simp
  qed
qed

definition same_config :: "appMsgProcessorImpl \<Rightarrow> appMsgProcessorImpl \<Rightarrow> bool" where
  "same_config p q \<longleftrightarrow> reassembleTimeout q = reassembleTimeout p \<and> chunkSize q = chunkSize p \<and>
     appID q = appID p \<and> accountID q = accountID p"

text \<open>A run of the processor simulates a run on the table, and keeps the invariant and the configuration.\<close>

definition amp_sim ::
  "appMsgProcessorImpl \<Rightarrow> (reassembled \<times> appMsgProcessorImpl) go \<Rightarrow> (reassembled \<times> ages) go \<Rightarrow> bool"
where
  "amp_sim p x y \<longleftrightarrow>
     (case x of
        Panic e \<Rightarrow> y = Panic e
      | Ret (r, q) \<Rightarrow> amp_inv q \<and> same_config p q \<and> y = Ret (r, abs_ages q))"

lemma amp_sim_Panic [simp]: "amp_sim p (Panic e) (Panic e)"
  by (simp add: amp_sim_def)

lemma validResult_sim:
  assumes inv: "amp_inv p" and same: "same_config pin p"
    and pt: "pt = (case ho of None \<Rightarrow> p | Some a \<Rightarrow> updHolder a (\<lambda>h. h\<lparr>holderTimestamp := now\<rparr>) p)"
  shows "amp_sim pin (validResult lib verify msg ho now p)
           (spec_valid lib verify (reassembleTimeout pin) now (abs_ages pt, msg))"
proof -
  obtain em ec q where run: "finishValid ho now p = Ret (em, ec, q)" "amp_inv q"
    "abs_ages q = dropWhile (too_old (reassembleTimeout p) now) (abs_ages pt)"
    "em = int (length (takeWhile (too_old (reassembleTimeout p) now) (abs_ages pt)))"
    "ec = sum_list (map (\<lambda>(k, app, cs, t). int (present cs))
       (takeWhile (too_old (reassembleTimeout p) now) (abs_ages pt)))"
    "reassembleTimeout q = reassembleTimeout p" "chunkSize q = chunkSize p" "appID q = appID p"
    "accountID q = accountID p"
    using finishValid_spec [OF inv pt] by blast
  obtain m h e where o: "openResult lib verify msg = (m, h, e)" by (cases "openResult lib verify msg")
  have tmo: "reassembleTimeout pin = reassembleTimeout p" using same by (simp add: same_config_def)
  have "same_config pin q" using same run(6-9) by (simp add: same_config_def)
  then show ?thesis
    unfolding amp_sim_def validResult_def spec_valid_def tmo
    using run(1-5) by (simp add: Let_def o)
qed

lemma rejectChunk_sim: "amp_inv p \<Longrightarrow> amp_sim p (rejectChunk e p) (spec_reject e (abs_ages p))"
  by (simp add: amp_sim_def rejectChunk_def spec_reject_def same_config_def)

lemma same_config_store:
  assumes "findHolder c k app p = (a, p1)" and "storeChunk c a p1 = (p2, msg)"
  shows "same_config p p2"
  using findHolder_frame(2-5) [OF assms(1)] storeChunk_frame(2-5) [OF assms(2)]
  by (simp add: same_config_def)

lemma accept_sim:
  assumes inv: "amp_inv p" and n: "2 \<le> ChunksCount c" "ChunksCount c < 2 ^ 31"
    and i: "0 \<le> ChunkIndex c" "ChunkIndex c < ChunksCount c"
    and find: "findHolder c k app p = (a, p1)"
    and free: "chunks (heap p1 a) ! nat (ChunkIndex c) = None"
    and cnt: "ChunksCount c = int (length (chunks (heap p1 a)))"
  shows "amp_sim p (case storeChunk c a p1 of (p2, protoMsg) \<Rightarrow> validResult lib verify protoMsg (Some a) now p2)
           (spec_valid lib verify (reassembleTimeout p) now (spec_receive c k app now (abs_ages p)))"
proof -
  obtain p2 msg where run: "storeChunk c a p1 = (p2, msg)" by (cases "storeChunk c a p1")
  let ?p3 = "updHolder a (\<lambda>h. h\<lparr>holderTimestamp := now\<rparr>) p2"
  have "spec_receive c k app now (abs_ages p) = (abs_ages ?p3, msg)"
    by (rule store_ages [OF assms run, symmetric])
  moreover have "amp_inv p2" using store_step [OF assms run] by blast
  ultimately show ?thesis
    using validResult_sim [OF _ same_config_store [OF find run], where pt = ?p3 and ho = "Some a" and now = now and lib = lib and verify = verify and msg = msg]
    unfolding run by simp
qed

lemma Reassemble_sim:
  assumes inv: "amp_inv p" and n: "ChunksCount c < 2 ^ 31"
  shows "amp_sim p (Reassemble lib verify c now p)
           (spec_Reassemble lib verify (reassembleTimeout p) c now (abs_ages p))"
proof -
  have l: "amp_links p" using inv by (simp add: amp_inv_def)
  consider "ChunksCount c < 1 \<or> ChunkIndex c < 0 \<or> ChunksCount c \<le> ChunkIndex c"
    | "ChunksCount c = 1" "0 \<le> ChunkIndex c" "ChunkIndex c < ChunksCount c"
    | "2 \<le> ChunksCount c" "0 \<le> ChunkIndex c" "ChunkIndex c < ChunksCount c" by linarith
  then show ?thesis
  proof cases
    case 1
    then show ?thesis using rejectChunk_sim [OF inv]
      by (auto simp: Reassemble_def spec_Reassemble_def)
  next
    case 2
    then show ?thesis
      using validResult_sim [OF inv, where pin = p and pt = p and ho = None and now = now and lib = lib and verify = verify and msg = "Some (MessageChunk c)"]
      by (simp add: Reassemble_def spec_Reassemble_def same_config_def)
  next
    case 3
    show ?thesis
    proof (cases "\<exists>i md vs. ChunkMessageId c = Some i \<and> IdMetadata i = Some md \<and> ValidStart i = Some vs")
      case False
      then show ?thesis using 3
        by (auto simp: Reassemble_def spec_Reassemble_def amp_sim_def makeHolderKey_def split: option.splits)
    next
      case True
      then obtain i md k where i: "ChunkMessageId c = Some i" "IdMetadata i = Some md" "makeHolderKey i = Ret k"
        by (auto simp: makeHolderKey_def)
      obtain a p1 where find: "findHolder c k (AnyValue md) p = (a, p1)"
        by (cases "findHolder c k (AnyValue md) p")
      note acc = accept_sim [OF inv 3(1) n 3(2,3) find]
      show ?thesis
      proof (cases "hmap p k")
        case None
        have h: "heap p1 a = newChunkHolder (ChunksCount c) k (AnyValue md)"
          using find None by (auto simp: findHolder_def Let_def)
        have g: "length (chunks (heap p1 a)) = nat (ChunksCount c)" "chunks (heap p1 a) ! nat (ChunkIndex c) = None"
          using 3 by (simp_all add: h newChunkHolder_def)
        have "to_int32 (ChunksCount c) = ChunksCount c" using 3 n by (simp add: to_int32_id)
        moreover have "map_of (abs_ages p) k = None" by (simp only: abs_ages_lookup [OF l] None option.map)
        ultimately show ?thesis using 3 acc [OF g(2), of lib verify now] g
          by (simp add: Reassemble_def spec_Reassemble_def i find Let_def)
      next
        case (Some b)
        then have p1: "p1 = p" and b: "b = a" using find by (simp_all add: findHolder_def)
        have ok: "holder_ok (heap p a)" using inv Some b by (simp add: amp_inv_def)
        have len: "to_int32 (int (length (chunks (heap p a)))) = int (length (chunks (heap p a)))"
          using ok by (simp add: holder_ok_def to_int32_id)
        have look: "map_of (abs_ages p) k =
            Some (holderAppID (heap p a), chunks (heap p a), holderTimestamp (heap p a))"
          by (simp only: abs_ages_lookup [OF l] Some b option.map entry_def snd_conv)
        show ?thesis using 3 acc [of lib verify now] rejectChunk_sim [OF inv]
          unfolding p1 by (simp add: Reassemble_def spec_Reassemble_def i find [unfolded p1] look len Let_def)
      qed
    qed
  qed
qed

section \<open>The processor as an implementation of the table\<close>

abbreviation reassemble_event :: "amp_lib \<Rightarrow> verify_fun \<Rightarrow> ApplicationMessageChunk \<times> time \<Rightarrow>
    appMsgProcessorImpl \<Rightarrow> (reassembled \<times> appMsgProcessorImpl) go" where
  "reassemble_event lib verify e p \<equiv> Reassemble lib verify (fst e) (snd e) p"

interpretation amp: go_refinement "reassemble_event lib verify"
  "\<lambda>e. spec_Reassemble lib verify timeout (fst e) (snd e)"
  "\<lambda>p. amp_inv p \<and> reassembleTimeout p = timeout" abs_ages "\<lambda>e. ChunksCount (fst e) < 2 ^ 31"
  for lib verify timeout
proof (unfold_locales, goal_cases)
  case (1 p e)
  then show ?case using Reassemble_sim [of p "fst e" lib verify "snd e"]
    by (cases "Reassemble lib verify (fst e) (snd e) p") (auto simp: amp_sim_def)
next
  case (2 p e r q)
  then show ?case using Reassemble_sim [of p "fst e" lib verify "snd e"]
    by (auto simp: amp_sim_def same_config_def)
qed

text \<open>The states a processor can be in: a new one, then chunks and restarts of senders in any order.\<close>

inductive amp_reachable :: "amp_lib \<Rightarrow> verify_fun \<Rightarrow> appMsgProcessorImpl \<Rightarrow> bool" for lib verify where
  amp_new: "newAppMsgProcessor account app sz timeout sn = Inr p \<Longrightarrow> amp_reachable lib verify p"
| amp_chunk: "amp_reachable lib verify p \<Longrightarrow> ChunksCount c < 2 ^ 31 \<Longrightarrow>
    Reassemble lib verify c now p = Ret (r, q) \<Longrightarrow> amp_reachable lib verify q"
| amp_restart: "amp_reachable lib verify p \<Longrightarrow> ExpireByAppID app p = Inr (m, c, q) \<Longrightarrow>
    amp_reachable lib verify q"

lemma amp_inv_empty:
  assumes "holders p = []" and "holdersByAppID p = []" and "holderListByAge p = []"
  shows "amp_inv p"
proof -
  have "byApp p x = {}" for x by (simp add: byApp_def assms)
  then show ?thesis unfolding amp_inv_def amp_links_def by (simp add: assms)
qed

lemma newAppMsgProcessor_inv:
  assumes "newAppMsgProcessor account app sz timeout sn = Inr p"
  shows "amp_inv p"
proof (rule amp_inv_empty)
  show "holders p = []" "holdersByAppID p = []" "holderListByAge p = []"
    using assms by (auto simp: newAppMsgProcessor_def split: if_splits option.splits)
qed

lemma Reassemble_inv:
  assumes "amp_inv p" and "ChunksCount c < 2 ^ 31" and "Reassemble lib verify c now p = Ret (r, q)"
  shows "amp_inv q"
  using Reassemble_sim [OF assms(1,2), of lib verify now] unfolding assms(3) by (simp add: amp_sim_def)

lemma amp_reachable_inv: "amp_reachable lib verify p \<Longrightarrow> amp_inv p"
proof (induction rule: amp_reachable.induct)
  case (amp_new account app sz timeout sn p)
  then show ?case by (rule newAppMsgProcessor_inv)
next
  case (amp_chunk p c now r q)
  from Reassemble_inv [OF amp_chunk.IH amp_chunk.hyps(2,3)] show ?case .
next
  case (amp_restart p app m c q)
  from ExpireByAppID_inv [OF amp_restart.IH amp_restart.hyps(2)] show ?case .
qed

end
