(* ===== verification/ChunkTransport.thy ===== *)
theory ChunkTransport
  imports AppMsgProcessor
begin

text \<open>
  Messages as chunks on a consensus topic: what \<open>Split\<close> sends, \<open>Reassemble\<close> gives back, whatever order the
  chunks arrive in and whatever other chunks lie between them.  The argument runs on the abstract table
  of \<open>AppMsgProcessor\<close> and reaches the code's model through the refinement proved there.
\<close>

section \<open>Cutting\<close>

lemma sliceChunk_take: "sliceChunk data sz i = take sz (drop (i * sz) data)"
proof (cases "(i + 1) * sz \<le> length data")
  case True
  then show ?thesis by (simp add: sliceChunk_def min_def algebra_simps)
next
  case False
  then have "min ((i + 1) * sz) (length data) - i * sz = length (drop (i * sz) data)" by (simp add: min_def)
  moreover have "take sz (drop (i * sz) data) = drop (i * sz) data"
    using False by (intro take_all) (simp add: algebra_simps)
  ultimately show ?thesis by (simp add: sliceChunk_def)
qed

lemma concat_slices: "concat (map (sliceChunk data sz) [0..<n]) = take (n * sz) data"
proof (induction n)
  case (Suc n)
  then show ?case
    using take_add [of "n * sz" sz data] by (simp add: sliceChunk_take add.commute)
qed simp

lemma slices_cover:
  fixes l sz :: nat
  assumes "0 < sz"
  shows "l \<le> (l + sz - 1) div sz * sz"
proof -
  have "(l + sz - 1) div sz * sz + (l + sz - 1) mod sz = l + sz - 1" by (rule div_mult_mod_eq)
  moreover have "(l + sz - 1) mod sz < sz" using assms by simp
  ultimately show ?thesis by linarith
qed

lemma slices_needed:
  fixes k l sz :: nat
  assumes "0 < sz" and "k < (l + sz - 1) div sz"
  shows "k * sz < l"
proof -
  have "Suc k * sz \<le> (l + sz - 1) div sz * sz" using assms(2) by (intro mult_le_mono1) simp
  moreover have "(l + sz - 1) div sz * sz \<le> l + sz - 1" by simp
  ultimately show ?thesis using assms(1) unfolding mult_Suc by linarith
qed

lemma length_cutChunks: "length (cutChunks i sz data) = (length data + sz - 1) div sz"
  by (simp add: cutChunks_def Let_def)

lemma nth_cutChunks:
  assumes "k < length (cutChunks i sz data)" and "length (cutChunks i sz data) < 2 ^ 31"
  shows "cutChunks i sz data ! k =
    \<lparr>ChunkMessageId = Some i, ChunksCount = int (length (cutChunks i sz data)), ChunkIndex = int k,
     MessageChunk = sliceChunk data sz k, ChunkMetadata = None\<rparr>"
  using assms by (simp add: cutChunks_def Let_def to_int32_id)

lemma concat_cutChunks:
  "0 < sz \<Longrightarrow> concat (map MessageChunk (cutChunks i sz data)) = data"
  using slices_cover [of sz "length data"]
  by (simp add: cutChunks_def Let_def comp_def concat_slices)

lemma orPanic_Ret [simp]: "orPanic m = Ret b \<longleftrightarrow> m = Some b"
  by (cases m) (simp_all add: orPanic_def)

lemma Split_Ret:
  assumes run: "Split lib sign (Some m) vs p = Ret (Inr (cs, h))"
  obtains ts pk sg so data where "timestampProtoOrPanic vs = Ret ts" "m \<noteq> []" "h = Sum256 lib m"
    "sign (Some h) = Inr (pk, sg)"
    "MarshalAppSig lib \<lparr>PublicKey = Some pk, SignatureBytes = Some sg\<rparr> = Some so"
    "MarshalAppMsg lib (wrapMessage (newAppMessageID p ts) m h so) = Some data"
    "0 < chunkSize p" "cs = cutChunks (newAppMessageID p ts) (chunkSize p) data"
proof -
  have m: "m \<noteq> []" using run by (auto simp: Split_def)
  obtain ts where ts: "timestampProtoOrPanic vs = Ret ts"
    using run m by (cases "timestampProtoOrPanic vs") (simp_all add: Split_def)
  obtain pk sg where sg: "sign (Some (Sum256 lib m)) = Inr (pk, sg)"
    using run m ts by (cases "sign (Some (Sum256 lib m))") (auto simp: Split_def)
  show ?thesis
    using run m ts sg that [OF ts m] by (auto simp: Split_def Let_def split: if_splits)
qed
section \<open>Collecting the chunks of one message from a stream\<close>

definition chunkKey :: "ApplicationMessageChunk \<Rightarrow> string option" where
  "chunkKey c =
     (case ChunkMessageId c of
        None \<Rightarrow> None
      | Some i \<Rightarrow> (case makeHolderKey i of Ret k \<Rightarrow> Some k | Panic _ \<Rightarrow> None))"

text \<open>
  A stream is consistent when every chunk of a multi-chunk message has an id and the chunks of a message agree on
  their count: \<open>cnt\<close> gives the count of the message with a key.
\<close>

definition stream_ok :: "(string \<Rightarrow> nat) \<Rightarrow> ApplicationMessageChunk \<Rightarrow> bool" where
  "stream_ok cnt c \<longleftrightarrow>
     ChunksCount c < 2 ^ 31 \<and>
     (ChunksCount c \<le> 1 \<or>
      (case chunkKey c of None \<Rightarrow> False | Some k \<Rightarrow> ChunksCount c = int (cnt k)))"

definition table_ok :: "(string \<Rightarrow> nat) \<Rightarrow> ages \<Rightarrow> bool" where
  "table_ok cnt st \<longleftrightarrow> distinct (map fst st) \<and> list_all (\<lambda>(k, app, cs, t). length cs = cnt k) st"

lemma chunkKey_Some:
  assumes "chunkKey c = Some k"
  obtains i md where "ChunkMessageId c = Some i" "makeHolderKey i = Ret k" "IdMetadata i = Some md"
  using assms by (auto simp: chunkKey_def makeHolderKey_def split: option.splits)

lemma table_ok_lookup: "table_ok cnt st \<Longrightarrow> map_of st k = Some (app, cs, t) \<Longrightarrow> length cs = cnt k"
  by (auto simp: table_ok_def list_all_iff dest!: map_of_SomeD)

lemma table_ok_dropWhile: "table_ok cnt st \<Longrightarrow> table_ok cnt (dropWhile P st)"
proof -
  assume "table_ok cnt st"
  moreover have "st = takeWhile P st @ dropWhile P st" by simp
  ultimately have "table_ok cnt (takeWhile P st @ dropWhile P st)" by simp
  then show ?thesis by (simp add: table_ok_def del: takeWhile_dropWhile_id)
qed

lemma map_of_dropWhile:
  assumes d: "distinct (map fst st)" and keep: "\<And>v. map_of st k = Some v \<Longrightarrow> \<not> P (k, v)"
  shows "map_of (dropWhile P st) k = map_of st k"
  using assms
proof (induction st)
  case (Cons e st)
  obtain j w where e: "e = (j, w)" by (cases e)
  show ?case
  proof (cases "P e")
    case True
    with Cons.prems(2) e have "j \<noteq> k" by auto
    with True Cons e show ?thesis by simp
  next
    case False
    then show ?thesis by simp
  qed
qed simp

lemma map_of_filter_other: "map_of (filter (\<lambda>e. fst e \<noteq> k) st) j = (if j = k then None else map_of st j)"
  by (induction st) auto

lemma table_ok_receive:
  assumes ok: "table_ok cnt st" and c: "2 \<le> ChunksCount c" "ChunksCount c = int (cnt k)"
  shows "table_ok cnt (fst (spec_receive c k app now st))"
proof -
  have "distinct (map fst (filter (\<lambda>e. fst e \<noteq> k) st))"
    using ok by (simp add: table_ok_def distinct_map_filter)
  moreover have "list_all (\<lambda>(k, app, cs, t). length cs = cnt k) (filter (\<lambda>e. fst e \<noteq> k) st)"
    using ok by (auto simp: table_ok_def list_all_iff)
  ultimately show ?thesis
    using c table_ok_lookup [OF ok, of k]
    by (auto simp: spec_receive_def table_ok_def Let_def split: option.splits prod.splits)
qed

lemma spec_valid_Ret:
  "spec_valid lib verify timeout now (st, msg) = Ret (r, st') \<Longrightarrow>
   (resMessage r, resHash r, resErr r) = openResult lib verify msg \<and>
   st' = dropWhile (too_old timeout now) st"
  by (auto simp: spec_valid_def Let_def split: prod.splits)

lemma spec_valid_total: "\<exists>r. spec_valid lib verify timeout now x = Ret (r, dropWhile (too_old timeout now) (fst x))"
  by (cases x) (auto simp: spec_valid_def Let_def split: prod.splits)

text \<open>On a consistent stream the processor never panics.\<close>

lemma spec_Reassemble_total:
  assumes ok: "table_ok cnt st" and c: "stream_ok cnt c"
  shows "\<exists>r st'. spec_Reassemble lib verify timeout c now st = Ret (r, st') \<and> table_ok cnt st'"
proof -
  have val: "\<exists>r st'. spec_valid lib verify timeout now x = Ret (r, st') \<and> table_ok cnt st'"
    if "table_ok cnt (fst x)" for x
    using spec_valid_total [of lib verify timeout now x] table_ok_dropWhile [OF that] by blast
  consider "ChunksCount c < 1 \<or> ChunkIndex c < 0 \<or> ChunksCount c \<le> ChunkIndex c"
    | "ChunksCount c = 1" "0 \<le> ChunkIndex c" "ChunkIndex c < ChunksCount c"
    | "2 \<le> ChunksCount c" "0 \<le> ChunkIndex c" "ChunkIndex c < ChunksCount c" by linarith
  then show ?thesis
  proof cases
    case 1
    then show ?thesis using ok by (auto simp: spec_Reassemble_def spec_reject_def)
  next
    case 2
    then show ?thesis using val [of "(st, Some (MessageChunk c))"] ok by (simp add: spec_Reassemble_def)
  next
    case 3
    with c obtain k where k: "chunkKey c = Some k" "ChunksCount c = int (cnt k)"
      by (auto simp: stream_ok_def split: option.splits)
    obtain i md where i: "ChunkMessageId c = Some i" "makeHolderKey i = Ret k" "IdMetadata i = Some md"
      using chunkKey_Some [OF k(1)] .
    note acc = val [OF table_ok_receive [OF ok 3(1) k(2)], of "AnyValue md" now]
    show ?thesis
    proof (cases "map_of st k")
      case None
      with 3 i acc show ?thesis by (simp add: spec_Reassemble_def)
    next
      case (Some v)
      obtain app cs t where v: "v = (app, cs, t)" by (cases v)
      have "length cs = cnt k" using table_ok_lookup [OF ok] Some v by simp
      with 3 i acc Some v ok k show ?thesis
        by (auto simp: spec_Reassemble_def spec_reject_def)
    qed
  qed
qed
lemma too_old_iff: "too_old timeout now (k, app, cs, t) \<longleftrightarrow> timeout \<le> time_Sub now t"
  by (simp add: too_old_def)

text \<open>A chunk of another message leaves the entry of \<open>k\<close> alone, as long as it is not too old.\<close>

lemma spec_Reassemble_foreign:
  assumes run: "spec_Reassemble lib verify timeout c now st = Ret (r, st')"
    and d: "distinct (map fst st)" and other: "chunkKey c \<noteq> Some k"
    and young: "\<And>app cs t. map_of st k = Some (app, cs, t) \<Longrightarrow> time_Sub now t < timeout"
  shows "map_of st' k = map_of st k"
proof -
  have young': "\<not> too_old timeout now (k, v)" if "map_of st k = Some v" for v
    using young that by (cases v) (auto simp: too_old_iff not_le)
  have drop: "map_of (dropWhile (too_old timeout now) st) k = map_of st k"
    using young' by (intro map_of_dropWhile d)
  have recv: "map_of (dropWhile (too_old timeout now) (fst (spec_receive c j app now st))) k = map_of st k"
    if "j \<noteq> k" for j app
  proof -
    have eq: "map_of (fst (spec_receive c j app now st)) k = map_of st k"
      using that by (auto simp: spec_receive_def Let_def map_add_def map_of_filter_other split: option.splits prod.splits)
    have "distinct (map fst (fst (spec_receive c j app now st)))"
      using d by (auto simp: spec_receive_def Let_def distinct_map_filter split: option.splits prod.splits)
    then have "map_of (dropWhile (too_old timeout now) (fst (spec_receive c j app now st))) k =
        map_of (fst (spec_receive c j app now st)) k"
      by (rule map_of_dropWhile) (simp add: eq young')
    with eq show ?thesis by simp
  qed
  have val: "map_of st' k = map_of (dropWhile (too_old timeout now) (fst x)) k"
    if "spec_valid lib verify timeout now x = Ret (r, st')" for x
    using that spec_valid_Ret [of lib verify timeout now "fst x" "snd x"] by simp
  show ?thesis
  proof (cases "chunkKey c")
    case None
    then show ?thesis using run val drop
      by (auto simp: spec_Reassemble_def spec_reject_def chunkKey_def split: if_splits option.splits go.splits)
  next
    case (Some j)
    then obtain i md where i: "ChunkMessageId c = Some i" "makeHolderKey i = Ret j" "IdMetadata i = Some md"
      by (rule chunkKey_Some)
    have "j \<noteq> k" using other Some by simp
    with run drop recv [of j "AnyValue md"] i val [of "spec_receive c j (AnyValue md) now st"]
      val [of "(st, Some (MessageChunk c))"]
    show ?thesis by (auto simp: spec_Reassemble_def spec_reject_def Let_def split: if_splits option.splits)
  qed
qed

text \<open>The chunks \<open>cs\<close> of a message, and the slots when those in \<open>D\<close> have arrived.\<close>

definition message_chunks :: "string \<Rightarrow> ApplicationMessageChunk list \<Rightarrow> bool" where
  "message_chunks k cs \<longleftrightarrow>
     2 \<le> length cs \<and> length cs < 2 ^ 31 \<and>
     (\<forall>j < length cs. ChunkIndex (cs ! j) = int j \<and> ChunksCount (cs ! j) = int (length cs) \<and>
        chunkKey (cs ! j) = Some k)"

definition slots_of :: "ApplicationMessageChunk list \<Rightarrow> ApplicationMessageChunk list \<Rightarrow> ApplicationMessageChunk option list" where
  "slots_of cs D = map (\<lambda>c. if c \<in> set D then Some c else None) cs"

lemma message_chunks_distinct: "message_chunks k cs \<Longrightarrow> distinct cs"
  by (auto simp: message_chunks_def distinct_conv_nth) (metis nat_int)

lemma slots_of_Nil: "slots_of cs [] = replicate (length cs) None"
  by (simp add: slots_of_def map_replicate_const)

lemma slots_of_update:
  assumes "distinct cs" and "j < length cs"
  shows "(slots_of cs D)[j := Some (cs ! j)] = slots_of cs (cs ! j # D)"
  using assms by (intro nth_equalityI) (auto simp: slots_of_def nth_list_update nth_eq_iff_index_eq)

lemma slots_of_full: "None \<in> set (slots_of cs D) \<longleftrightarrow> \<not> set cs \<subseteq> set D"
  by (auto simp: slots_of_def)

lemma slots_of_bytes:
  "set cs \<subseteq> set D \<Longrightarrow> concat (map slot_bytes (slots_of cs D)) = concat (map MessageChunk cs)"
  by (auto simp: slots_of_def slot_bytes_def comp_def intro!: arg_cong [where f = concat])

text \<open>What the table has of a message of which the chunks in \<open>D\<close> have arrived, at times in \<open>T\<close>.\<close>

definition collected :: "string \<Rightarrow> ApplicationMessageChunk list \<Rightarrow> time set \<Rightarrow> ApplicationMessageChunk list \<Rightarrow> ages \<Rightarrow> bool" where
  "collected k cs T D st \<longleftrightarrow>
     (case map_of st k of
        None \<Rightarrow> D = []
      | Some (app, slots, t) \<Rightarrow> D \<noteq> [] \<and> slots = slots_of cs D \<and> t \<in> T)"

lemma spec_Reassemble_own:
  assumes m: "message_chunks k cs" and col: "collected k cs T D st"
    and d: "distinct (map fst st)" and c: "c \<in> set cs" "c \<notin> set D"
    and now: "now \<in> T" "time_Sub now now < timeout"
    and run: "spec_Reassemble lib verify timeout c now st = Ret (r, st')"
  shows "if set cs \<subseteq> set (c # D)
         then (resMessage r, resHash r, resErr r) = openResult lib verify (Some (concat (map MessageChunk cs)))
         else (resMessage r, resHash r, resErr r) = (None, None, None) \<and> collected k cs T (c # D) st'"
proof -
  from c(1) obtain j where j: "j < length cs" "c = cs ! j" by (auto simp: in_set_conv_nth)
  have cc: "ChunkIndex c = int j" "ChunksCount c = int (length cs)" "chunkKey c = Some k" "2 \<le> length cs"
    using m j by (auto simp: message_chunks_def)
  obtain i md where i: "ChunkMessageId c = Some i" "makeHolderKey i = Ret k" "IdMetadata i = Some md"
    using chunkKey_Some [OF cc(3)] .
  let ?v = "case map_of st k of None \<Rightarrow> (AnyValue md, replicate (nat (ChunksCount c)) None)
    | Some (app', cs, t) \<Rightarrow> (app', cs)"
  let ?rest = "filter (\<lambda>e. fst e \<noteq> k) st"
  have slots: "snd ?v = slots_of cs D" using col cc(2)
    by (auto simp: collected_def slots_of_Nil split: option.splits)
  have upd: "(snd ?v)[nat (ChunkIndex c) := Some c] = slots_of cs (c # D)"
    unfolding slots cc(1) using slots_of_update [OF message_chunks_distinct [OF m] j(1), of D] j(2) by simp
  have rc: "spec_receive c k (AnyValue md) now st =
      (if set cs \<subseteq> set (c # D) then (?rest, Some (concat (map MessageChunk cs)))
       else (?rest @ [(k, fst ?v, slots_of cs (c # D), now)], None))"
    unfolding spec_receive_def Let_def case_prod_beta upd slots_of_full
    using slots_of_bytes [of cs "c # D"] by auto
  have free: "slots_of cs D ! j = None" "length (slots_of cs D) = length cs"
    using c(2) j by (simp_all add: slots_of_def)
  have acc: "spec_valid lib verify timeout now (spec_receive c k (AnyValue md) now st) = Ret (r, st')"
  proof -
    have g: "\<not> ChunksCount c < 1" "\<not> (ChunkIndex c < 0 \<or> ChunksCount c \<le> ChunkIndex c)" "ChunksCount c \<noteq> 1"
      using cc j(1) by auto
    let ?acc = "spec_valid lib verify timeout now (spec_receive c k (AnyValue md) now st)"
    have "(case map_of st k of None \<Rightarrow> ?acc
       | Some (app, cs, t) \<Rightarrow>
           if int (length cs) \<le> ChunkIndex c then Panic ''index out of range''
           else if cs ! nat (ChunkIndex c) \<noteq> None then spec_reject (DuplicateChunk (ChunkIndex c)) st
           else if ChunksCount c \<noteq> int (length cs) then spec_reject (IncorrectChunksCount (ChunksCount c)) st
           else ?acc) = Ret (r, st')"
      using run by (simp add: spec_Reassemble_def g i Let_def)
    then show ?thesis using free cc j(1) col
      by (auto simp: collected_def split: option.splits)
  qed
  show ?thesis
  proof (cases "set cs \<subseteq> set (c # D)")
    case True
    then show ?thesis using spec_valid_Ret acc unfolding rc by auto
  next
    case False
    let ?st = "?rest @ [(k, fst ?v, slots_of cs (c # D), now)]"
    have eq: "spec_receive c k (AnyValue md) now st = (?st, None)" using False rc by simp
    have look: "map_of ?st k = Some (fst ?v, slots_of cs (c # D), now)"
      by (simp add: map_add_def map_of_filter_other)
    have "distinct (map fst ?st)" using d by (auto simp: distinct_map_filter)
    moreover have "\<not> too_old timeout now (k, v)" if "map_of ?st k = Some v" for v
      using that look now(2) by (simp add: too_old_iff not_le)
    ultimately have "map_of (dropWhile (too_old timeout now) ?st) k = map_of ?st k"
      by (rule map_of_dropWhile)
    with spec_valid_Ret [OF acc [unfolded eq]] look False now(1) show ?thesis
      by (auto simp: collected_def openResult_def)
  qed
qed

text \<open>
  The results that the chunks of one message get, out of the results of a stream: nothing until its last
  chunk, then the opened message.
\<close>

definition ownResults ::
  "string \<Rightarrow> (ApplicationMessageChunk \<times> time) list \<Rightarrow> reassembled list \<Rightarrow> (slice \<times> slice \<times> amp_error option) list"
where
  "ownResults k evs rs =
     map (\<lambda>(e, r). (resMessage r, resHash r, resErr r)) (filter (\<lambda>(e, r). chunkKey (fst e) = Some k) (zip evs rs))"

abbreviation own :: "string \<Rightarrow> (ApplicationMessageChunk \<times> time) list \<Rightarrow> ApplicationMessageChunk list" where
  "own k evs \<equiv> filter (\<lambda>c. chunkKey c = Some k) (map fst evs)"

abbreviation spec_event :: "amp_lib \<Rightarrow> verify_fun \<Rightarrow> duration \<Rightarrow> ApplicationMessageChunk \<times> time \<Rightarrow> ages \<Rightarrow> (reassembled \<times> ages) go" where
  "spec_event lib verify timeout \<equiv> \<lambda>e. spec_Reassemble lib verify timeout (fst e) (snd e)"

lemma collected_foreign:
  assumes "collected k cs T D st" and "map_of st' k = map_of st k"
  shows "collected k cs T D st'"
  using assms by (simp add: collected_def)

lemma stream_total:
  assumes "table_ok cnt st" and "list_all (\<lambda>e. stream_ok cnt (fst e)) evs"
  shows "\<exists>rs st'. run_go (spec_event lib verify timeout) evs st = Ret (rs, st')"
  using assms
proof (induction evs arbitrary: st)
  case (Cons e evs)
  from spec_Reassemble_total [of cnt st "fst e" lib verify timeout "snd e"] Cons.prems
  obtain r st1 where "spec_Reassemble lib verify timeout (fst e) (snd e) st = Ret (r, st1)" "table_ok cnt st1"
    by auto
  with Cons.IH [of st1] Cons.prems(2) show ?case by auto
qed simp

lemma stream_collects:
  assumes m: "message_chunks k cs" and T: "\<forall>t \<in> T. \<forall>t' \<in> T. time_Sub t t' < timeout"
    and "table_ok cnt st" and "list_all (\<lambda>e. stream_ok cnt (fst e) \<and> snd e \<in> T) evs"
    and "own k evs = [] \<or> collected k cs T D st" and "mset (own k evs) + mset D = mset cs"
  shows "\<exists>rs st'. run_go (spec_event lib verify timeout) evs st = Ret (rs, st') \<and>
     ownResults k evs rs =
       (if own k evs = [] then []
        else replicate (length (own k evs) - 1) (None, None, None) @
             [openResult lib verify (Some (concat (map MessageChunk cs)))])"
  using assms(3-6)
proof (induction evs arbitrary: st D)
  case Nil
  then show ?case by (simp add: ownResults_def)
next
  case (Cons e evs)
  obtain c now where e: "e = (c, now)" by (cases e)
  have now: "now \<in> T" using Cons.prems(2) e by simp
  have d: "distinct (map fst st)" using Cons.prems(1) by (simp add: table_ok_def)
  from spec_Reassemble_total [of cnt st c lib verify timeout now] Cons.prems(1,2) e
  obtain r st1 where r: "spec_Reassemble lib verify timeout c now st = Ret (r, st1)" "table_ok cnt st1"
    by auto
  have ok: "list_all (\<lambda>e. stream_ok cnt (fst e) \<and> snd e \<in> T) evs" using Cons.prems(2) by simp
  show ?case
  proof (cases "chunkKey c = Some k")
    case False
    have "own k evs = [] \<or> collected k cs T D st1"
    proof (cases "own k evs = []")
      case False
      then have col: "collected k cs T D st" using Cons.prems(3) \<open>chunkKey c \<noteq> Some k\<close> e by simp
      have "map_of st1 k = map_of st k"
        using col now T by (intro spec_Reassemble_foreign [OF r(1) d \<open>chunkKey c \<noteq> Some k\<close>])
          (auto simp: collected_def)
      with col show ?thesis by (auto intro: collected_foreign)
    qed simp
    with Cons.IH [OF r(2) ok, of D] Cons.prems(4) False e r(1) show ?thesis
      by (auto simp: ownResults_def)
  next
    case True
    then have own: "own k (e # evs) = c # own k evs" by (simp add: e)
    have ms: "mset (own k evs) + mset (c # D) = mset cs" using Cons.prems(4) own by simp
    have dis: "distinct (own k evs @ c # D)"
      using ms message_chunks_distinct [OF m] by (metis mset_append mset_eq_imp_distinct_iff)
    have set: "set cs = set (own k evs) \<union> set (c # D)"
      using ms by (metis set_mset_mset set_mset_union)
    then have c: "c \<in> set cs" "c \<notin> set D" using dis by auto
    have full: "set cs \<subseteq> set (c # D) \<longleftrightarrow> own k evs = []"
      using set dis by (cases "own k evs") auto
    have col: "collected k cs T D st" using Cons.prems(3) own by simp
    note step = spec_Reassemble_own [OF m col d c now _ r(1)]
    have tt: "time_Sub now now < timeout" using T now by blast
    have "own k evs = [] \<or> collected k cs T (c # D) st1" using step [OF tt] full by (auto split: if_splits)
    from Cons.IH [OF r(2) ok this ms] obtain rs st' where
      rs: "run_go (spec_event lib verify timeout) evs st1 = Ret (rs, st')"
      "ownResults k evs rs = (if own k evs = [] then []
        else replicate (length (own k evs) - 1) (None, None, None) @
             [openResult lib verify (Some (concat (map MessageChunk cs)))])" by blast
    have run: "run_go (spec_event lib verify timeout) (e # evs) st = Ret (r # rs, st')"
      using rs(1) r(1) by (simp add: e)
    have res: "ownResults k (e # evs) (r # rs) = (resMessage r, resHash r, resErr r) # ownResults k evs rs"
      using True by (simp add: ownResults_def e)
    have "ownResults k (e # evs) (r # rs) =
       (if own k (e # evs) = [] then []
        else replicate (length (own k (e # evs)) - 1) (None, None, None) @
             [openResult lib verify (Some (concat (map MessageChunk cs)))])"
      unfolding own res
    proof (cases "own k evs = []")
      case True
      then have "(resMessage r, resHash r, resErr r) = openResult lib verify (Some (concat (map MessageChunk cs)))"
        using step [OF tt] full by simp
      with True rs(2) show "(resMessage r, resHash r, resErr r) # ownResults k evs rs =
          (if c # own k evs = [] then []
           else replicate (length (c # own k evs) - 1) (None, None, None) @
             [openResult lib verify (Some (concat (map MessageChunk cs)))])" by simp
    next
      case False
      then have "(resMessage r, resHash r, resErr r) = (None, None, None)" using step [OF tt] full by simp
      moreover obtain n where "length (own k evs) = Suc n" using False by (cases "own k evs") auto
      ultimately show "(resMessage r, resHash r, resErr r) # ownResults k evs rs =
          (if c # own k evs = [] then []
           else replicate (length (c # own k evs) - 1) (None, None, None) @
             [openResult lib verify (Some (concat (map MessageChunk cs)))])" using False rs(2) by simp
    qed
    with run show ?thesis by blast
  qed
qed

lemma stream_single:
  assumes "table_ok cnt st" and "list_all (\<lambda>e. stream_ok cnt (fst e)) evs"
    and "\<forall>c \<in> set (own k evs). ChunksCount c = 1 \<and> ChunkIndex c = 0"
  shows "\<exists>rs st'. run_go (spec_event lib verify timeout) evs st = Ret (rs, st') \<and>
     ownResults k evs rs = map (\<lambda>c. openResult lib verify (Some (MessageChunk c))) (own k evs)"
  using assms
proof (induction evs arbitrary: st)
  case Nil
  then show ?case by (simp add: ownResults_def)
next
  case (Cons e evs)
  obtain c now where e: "e = (c, now)" by (cases e)
  from spec_Reassemble_total [of cnt st c lib verify timeout now] Cons.prems(1,2) e
  obtain r st1 where r: "spec_Reassemble lib verify timeout c now st = Ret (r, st1)" "table_ok cnt st1"
    by auto
  obtain rs st' where rs: "run_go (spec_event lib verify timeout) evs st1 = Ret (rs, st')"
    "ownResults k evs rs = map (\<lambda>c. openResult lib verify (Some (MessageChunk c))) (own k evs)"
    using Cons.IH [OF r(2)] Cons.prems(2,3) by auto
  have "(resMessage r, resHash r, resErr r) = openResult lib verify (Some (MessageChunk c))"
    if "chunkKey c = Some k"
  proof -
    have "ChunksCount c = 1" "ChunkIndex c = 0" using Cons.prems(3) e that by auto
    then have "spec_valid lib verify timeout now (st, Some (MessageChunk c)) = Ret (r, st1)"
      using r(1) by (simp add: spec_Reassemble_def)
    then show ?thesis by (simp add: spec_valid_Ret)
  qed
  with rs(2) have "ownResults k (e # evs) (r # rs) =
      map (\<lambda>c. openResult lib verify (Some (MessageChunk c))) (own k (e # evs))"
    by (simp add: ownResults_def e)
  moreover have "run_go (spec_event lib verify timeout) (e # evs) st = Ret (r # rs, st')"
    using r(1) rs(1) by (simp add: e)
  ultimately show ?case by blast
qed

section \<open>What is assumed of the codec and of the signer\<close>

text \<open>
  Protobuf decodes what it has encoded, except that an empty bytes field comes back as an absent one; a message
  with a field that is not empty has an encoding that is not empty.  SHA-256 has 32 bytes.
  A signer verifies its own signatures.
\<close>

definition amp_codec_ok :: "amp_lib \<Rightarrow> bool" where
  "amp_codec_ok lib \<longleftrightarrow>
     (\<forall>x b. MarshalAppMsg lib x = Some b \<longrightarrow>
        BusinessProcessMessage x \<noteq> Some [] \<longrightarrow> UnencryptedBusinessProcessMessageHash x \<noteq> Some [] \<longrightarrow>
        BusinessProcessSignatureOnHash x \<noteq> Some [] \<longrightarrow> EncryptionRandom x \<noteq> Some [] \<longrightarrow>
        MetadataHash x \<noteq> Some [] \<longrightarrow> MetadataSignatureOnHash x \<noteq> Some [] \<longrightarrow>
        UnmarshalAppMsg lib b = Some x \<and> (b = [] \<longrightarrow> BusinessProcessMessage x = None)) \<and>
     (\<forall>x b. MarshalAppSig lib x = Some b \<longrightarrow> PublicKey x \<noteq> Some [] \<longrightarrow> SignatureBytes x \<noteq> Some [] \<longrightarrow>
        UnmarshalAppSig lib b = Some x \<and> (b = [] \<longrightarrow> PublicKey x = None)) \<and>
     (\<forall>b. length (Sum256 lib b) = 32)"

definition signer_ok :: "sign_fun \<Rightarrow> verify_fun \<Rightarrow> bool" where
  "signer_ok sign verify \<longleftrightarrow>
     (\<forall>h pk sg. sign (Some h) = Inr (pk, sg) \<longrightarrow> pk \<noteq> [] \<and> sg \<noteq> [] \<and> verify (Some h) (Some pk) (Some sg))"

lemma open_roundtrip:
  assumes codec: "amp_codec_ok lib" and sgn: "signer_ok sign verify" and m: "m \<noteq> []"
    and h: "h = Sum256 lib m" and sg: "sign (Some h) = Inr (pk, sg)"
    and so: "MarshalAppSig lib \<lparr>PublicKey = Some pk, SignatureBytes = Some sg\<rparr> = Some so"
    and data: "MarshalAppMsg lib (wrapMessage i m h so) = Some data"
  shows "openResult lib verify (Some data) = (Some m, Some h, None)" and "data \<noteq> []"
proof -
  have pk: "pk \<noteq> []" "sg \<noteq> []" "verify (Some h) (Some pk) (Some sg)"
    using sgn sg by (auto simp: signer_ok_def)
  have so': "UnmarshalAppSig lib so = Some \<lparr>PublicKey = Some pk, SignatureBytes = Some sg\<rparr>" "so \<noteq> []"
    using codec so pk unfolding amp_codec_ok_def by force+
  have "length h = 32" using codec h by (simp add: amp_codec_ok_def)
  then have "h \<noteq> []" by auto
  then have d: "UnmarshalAppMsg lib data = Some (wrapMessage i m h so) \<and> (data = [] \<longrightarrow> Some m = None)"
    using codec data m so'(2) unfolding amp_codec_ok_def by (fastforce simp: wrapMessage_def)
  then show "openResult lib verify (Some data) = (Some m, Some h, None)" "data \<noteq> []"
    using so'(1) pk(3) h by (auto simp: openResult_def openAppMsg_def wrapMessage_def slice_bytes_def)
qed

lemma cutChunks_message:
  assumes sz: "0 < sz" and n: "2 \<le> length (cutChunks i sz data)" "length (cutChunks i sz data) < 2 ^ 31"
    and k: "makeHolderKey i = Ret k"
  shows "message_chunks k (cutChunks i sz data)"
  using nth_cutChunks [OF _ n(2)] n k by (auto simp: message_chunks_def chunkKey_def)

lemma table_ok_ages:
  "amp_links p \<Longrightarrow> (\<forall>j a. hmap p j = Some a \<longrightarrow> length (chunks (heap p a)) = cnt j) \<Longrightarrow> table_ok cnt (abs_ages p)"
proof -
  assume l: "amp_links p" and len: "\<forall>j a. hmap p j = Some a \<longrightarrow> length (chunks (heap p a)) = cnt j"
  note D = amp_linksD [OF l]
  have "inj_on (\<lambda>a. holderKey (heap p a)) (set (holderListByAge p))"
    unfolding D(4) by (rule inj_onI) (auto simp: ran_def D(6))
  then have "distinct (map fst (abs_ages p))"
    using D(3) by (simp add: abs_ages_def comp_def entry_def distinct_map)
  moreover have "length (chunks (heap p a)) = cnt (holderKey (heap p a))" if "a \<in> set (holderListByAge p)" for a
    using that len unfolding D(4) by (auto simp: ran_def D(6))
  ultimately show ?thesis by (simp add: table_ok_def abs_ages_def entry_def list_all_iff)
qed

lemma spec_roundtrip_many:
  assumes m: "message_chunks k cs" and fresh: "map_of st k = None" and tab: "table_ok cnt st"
    and ok: "list_all (\<lambda>e. stream_ok cnt (fst e)) evs" and own: "mset (own k evs) = mset cs"
    and T: "\<forall>t \<in> snd ` set evs. \<forall>t' \<in> snd ` set evs. time_Sub t t' < timeout"
  shows "\<exists>rs st'. run_go (spec_event lib verify timeout) evs st = Ret (rs, st') \<and>
     ownResults k evs rs = replicate (length cs - 1) (None, None, None) @
       [openResult lib verify (Some (concat (map MessageChunk cs)))]"
proof -
  have col: "collected k cs (snd ` set evs) [] st" by (simp add: collected_def fresh)
  have ok': "list_all (\<lambda>e. stream_ok cnt (fst e) \<and> snd e \<in> snd ` set evs) evs"
    using ok by (auto simp: list_all_iff)
  have len: "length (own k evs) = length cs" using own by (metis size_mset)
  have "2 \<le> length cs" using m by (simp add: message_chunks_def)
  then have "own k evs \<noteq> []" using len by (metis list.size(3) not_numeral_le_zero)
  with stream_collects [OF m T tab ok' disjI2 [OF col], of lib verify] own len show ?thesis
    by (simp only: if_False mset.simps add_0_right)
qed

text \<open>What \<open>Split\<close> sends, as the abstract table receives it.\<close>

lemma spec_roundtrip:
  assumes split: "Split lib sign (Some m) vs sender = Ret (Inr (cs, h))"
    and codec: "amp_codec_ok lib" and sgn: "signer_ok sign verify"
    and n: "length cs < 2 ^ 31" and key: "chunkKey (hd cs) = Some k"
    and fresh: "map_of st k = None" and tab: "table_ok cnt st"
    and ok: "list_all (\<lambda>e. stream_ok cnt (fst e)) evs" and own: "mset (own k evs) = mset cs"
    and T: "\<forall>t \<in> snd ` set evs. \<forall>t' \<in> snd ` set evs. time_Sub t t' < timeout"
  shows "\<exists>rs st'. run_go (spec_event lib verify timeout) evs st = Ret (rs, st') \<and>
     ownResults k evs rs = replicate (length cs - 1) (None, None, None) @ [(Some m, Some h, None)]"
proof -
  obtain ts pk sg so data where sp: "m \<noteq> []" "h = Sum256 lib m" "sign (Some h) = Inr (pk, sg)"
    "MarshalAppSig lib \<lparr>PublicKey = Some pk, SignatureBytes = Some sg\<rparr> = Some so"
    "MarshalAppMsg lib (wrapMessage (newAppMessageID sender ts) m h so) = Some data"
    "0 < chunkSize sender" and cs: "cs = cutChunks (newAppMessageID sender ts) (chunkSize sender) data"
    using Split_Ret [OF split] by metis
  note opn = open_roundtrip [OF codec sgn sp(1-5)]
  have cc: "concat (map MessageChunk cs) = data" unfolding cs by (rule concat_cutChunks [OF sp(6)])
  have ne: "cs \<noteq> []" using cc opn(2) by auto
  have nth: "cs ! j = \<lparr>ChunkMessageId = Some (newAppMessageID sender ts), ChunksCount = int (length cs), ChunkIndex = int j,
     MessageChunk = sliceChunk data (chunkSize sender) j, ChunkMetadata = None\<rparr>" if "j < length cs" for j
    using nth_cutChunks that n unfolding cs by blast
  have k: "makeHolderKey (newAppMessageID sender ts) = Ret k"
    using key ne nth [of 0] by (auto simp: hd_conv_nth chunkKey_def split: go.splits)
  show ?thesis
  proof (cases "2 \<le> length cs")
    case True
    have "message_chunks k cs" unfolding cs using True n k cs by (intro cutChunks_message sp(6)) auto
    from spec_roundtrip_many [OF this fresh tab ok own T, of lib verify] show ?thesis
      unfolding cc opn(1) .
  next
    case False
    moreover have "0 < length cs" using ne by simp
    ultimately have one: "length cs = 1" by linarith
    then obtain c where c: "cs = [c]" by (cases cs) auto
    have "length (own k evs) = 1" using own one by (metis size_mset)
    moreover have "set (own k evs) = {c}" using own c by (metis set_mset_mset list.simps(15) empty_set)
    ultimately have eq: "own k evs = [c]" by (cases "own k evs") auto
    then have "\<forall>c \<in> set (own k evs). ChunksCount c = 1 \<and> ChunkIndex c = 0" using nth [of 0] c by simp
    moreover have "MessageChunk c = data" using cc c by simp
    ultimately show ?thesis
      using stream_single [OF tab ok, of k lib verify timeout] unfolding eq by (simp add: one opn(1))
  qed
qed

section \<open>Properties\<close>

text \<open>
  C4. Round trip of the chunk transport.  Let \<open>Split\<close> cut a message that the processor has no chunk of into fewer than 2^31 chunks, with a
  signature that the receiver accepts.  Let each chunk arrive once, in any order, in a stream that also has chunks of other messages, at times that are all
  within the reassembly timeout of each other; and let every multi-chunk message of the stream, and of the processor before it, have chunks with a complete
  message id that agree on their count.  Then no chunk makes the processor panic, the chunks of the message but the
  last that arrives yield nothing, and the last one yields the message and its hash.
\<close>

theorem Split_Reassemble_roundtrip:
  assumes split: "Split lib sign (Some m) vs sender = Ret (Inr (cs, h))"
    and codec: "amp_codec_ok lib" and sgn: "signer_ok sign verify"
    and n: "length cs < 2 ^ 31" and key: "chunkKey (hd cs) = Some k"
    and inv: "amp_inv p" and fresh: "hmap p k = None"
    and cnt: "\<forall>j a. hmap p j = Some a \<longrightarrow> length (chunks (heap p a)) = cnt j"
    and ok: "list_all (\<lambda>e. stream_ok cnt (fst e)) evs" and own: "mset (own k evs) = mset cs"
    and T: "\<forall>t \<in> snd ` set evs. \<forall>t' \<in> snd ` set evs. time_Sub t t' < reassembleTimeout p"
  shows "\<exists>rs q. run_go (reassemble_event lib verify) evs p = Ret (rs, q) \<and> amp_inv q \<and>
     ownResults k evs rs = replicate (length cs - 1) (None, None, None) @ [(Some m, Some h, None)]"
proof -
  have l: "amp_links p" using inv by (simp add: amp_inv_def)
  have ok32: "list_all (\<lambda>e. ChunksCount (fst e) < 2 ^ 31) evs"
    using ok by (auto simp: list_all_iff stream_ok_def)
  have "map_of (abs_ages p) k = None" by (simp only: abs_ages_lookup [OF l] fresh option.map)
  from spec_roundtrip [OF split codec sgn n key this table_ok_ages [OF l cnt] ok own T]
  obtain rs st where run: "run_go (spec_event lib verify (reassembleTimeout p)) evs (abs_ages p) = Ret (rs, st)"
    and res: "ownResults k evs rs = replicate (length cs - 1) (None, None, None) @ [(Some m, Some h, None)]"
    by blast
  have "abs_go abs_ages (run_go (reassemble_event lib verify) evs p) = Ret (rs, st)"
    unfolding run [symmetric] using inv ok32 by (intro amp.run_sim) auto
  then obtain q where q: "run_go (reassemble_event lib verify) evs p = Ret (rs, q)"
    by (cases "run_go (reassemble_event lib verify) evs p") auto
  have "amp_inv q" using amp.run_keeps [OF _ ok32 q] inv by blast
  with q res show ?thesis by blast
qed

text \<open>A concrete sender, codec and stream: a message of two chunks with a chunk of another one in between.\<close>

definition sample_sender :: appMsgProcessorImpl where
  "sample_sender = \<lparr>accountID = \<lparr>ShardNum = 0, RealmNum = 0, AccountNum = 3\<rparr>, appID = [1], chunkSize = 2,
     reassembleTimeout = 100, heap = (\<lambda>_. unusedHolder), nextAddr = 0, holders = [], holdersByAppID = [],
     holderListByAge = []\<rparr>"

definition sample_id :: ApplicationMessageID where
  "sample_id = newAppMessageID sample_sender \<lparr>Seconds = 0, Nanos = 0\<rparr>"

definition sample_hash :: bytes where
  "sample_hash = replicate 32 0"

definition sample_lib :: amp_lib where
  "sample_lib =
     \<lparr>MarshalAppMsg = (\<lambda>x. if x = wrapMessage sample_id [7] sample_hash [9] then Some [1, 2, 3] else None),
      UnmarshalAppMsg = (\<lambda>b. if b = [1, 2, 3] then Some (wrapMessage sample_id [7] sample_hash [9]) else None),
      MarshalAppSig = (\<lambda>x. if x = \<lparr>PublicKey = Some [5], SignatureBytes = Some [6]\<rparr> then Some [9] else None),
      UnmarshalAppSig = (\<lambda>b. if b = [9] then Some \<lparr>PublicKey = Some [5], SignatureBytes = Some [6]\<rparr> else None),
      Sum256 = (\<lambda>_. sample_hash)\<rparr>"

definition sample_chunk :: "ApplicationMessageID \<Rightarrow> int \<Rightarrow> bytes \<Rightarrow> ApplicationMessageChunk" where
  "sample_chunk i j b = \<lparr>ChunkMessageId = Some i, ChunksCount = 2, ChunkIndex = j, MessageChunk = b, ChunkMetadata = None\<rparr>"

definition sample_stream :: "(ApplicationMessageChunk \<times> time) list" where
  "sample_stream =
     [(sample_chunk sample_id 1 [3], 10),
      (sample_chunk (sample_id\<lparr>IdMetadata := Some \<lparr>TypeUrl = [], AnyValue = [2]\<rparr>\<rparr>) 0 [4], 11),
      (sample_chunk sample_id 0 [1, 2], 12)]"

definition sample_sign :: sign_fun where
  "sample_sign h = Inr ([5], [6])"

definition sample_verify :: verify_fun where
  "sample_verify h pk sg \<longleftrightarrow> pk = Some [5] \<and> sg = Some [6]"

lemma sample_inv: "amp_inv sample_sender"
  by (rule amp_inv_empty) (simp_all add: sample_sender_def)

lemma sample_codec: "amp_codec_ok sample_lib" "signer_ok sample_sign sample_verify"
  by (auto simp: amp_codec_ok_def sample_lib_def sample_hash_def signer_ok_def sample_sign_def sample_verify_def)

lemma sample_split: "Split sample_lib sample_sign (Some [7]) 0 sample_sender =
    Ret (Inr ([sample_chunk sample_id 0 [1, 2], sample_chunk sample_id 1 [3]], sample_hash))"
  by code_simp

theorem Split_Reassemble_roundtrip_witness:
  "\<exists>rs q. run_go (reassemble_event sample_lib sample_verify) sample_stream sample_sender = Ret (rs, q) \<and>
     amp_inv q \<and>
     ownResults ''01:0s0'' sample_stream rs = [(None, None, None), (Some [7], Some sample_hash, None)]"
proof -
  have key: "chunkKey (hd [sample_chunk sample_id 0 [1, 2], sample_chunk sample_id 1 [3]]) = Some ''01:0s0''"
    by code_simp
  have own: "own ''01:0s0'' sample_stream = [sample_chunk sample_id 1 [3], sample_chunk sample_id 0 [1, 2]]"
    by code_simp
  have ok: "list_all (\<lambda>e. stream_ok (\<lambda>_. 2) (fst e)) sample_stream" by code_simp
  have T: "\<forall>t \<in> snd ` set sample_stream. \<forall>t' \<in> snd ` set sample_stream. time_Sub t t' < reassembleTimeout sample_sender"
    by code_simp
  have "mset (own ''01:0s0'' sample_stream) = mset [sample_chunk sample_id 0 [1, 2], sample_chunk sample_id 1 [3]]"
    by (simp add: own)
  from Split_Reassemble_roundtrip [OF sample_split sample_codec _ key sample_inv _ _ ok this T] show ?thesis
    by (simp add: sample_sender_def)
qed

text \<open>
  C5. \<open>Reassemble\<close> refines the table ordered by age: from every state that a processor can reach, its result, the error, the
  counts of expired messages and chunks, the panic it may end in, and the messages it keeps with their
  order are those of the abstract operation.
\<close>

theorem Reassemble_refines_table:
  assumes "amp_reachable lib verify p" and "ChunksCount c < 2 ^ 31"
  shows "abs_go abs_ages (Reassemble lib verify c now p) =
         spec_Reassemble lib verify (reassembleTimeout p) c now (abs_ages p)"
  using amp.sim [where s = p and e = "(c, now)"] amp_reachable_inv [OF assms(1)] assms(2) by simp

lemma sample_reachable: "amp_reachable lib verify sample_sender"
  by (rule amp_new [where account = "\<lparr>ShardNum = 0, RealmNum = 0, AccountNum = 3\<rparr>" and app = "Some [1]"
        and sz = 2 and timeout = 100 and sn = False])
    (simp add: newAppMsgProcessor_def sample_sender_def)

theorem Reassemble_refines_table_witness:
  "abs_go abs_ages (Reassemble sample_lib sample_verify (sample_chunk sample_id 1 [3]) 10 sample_sender) =
     Ret (\<lparr>resMessage = None, resHash = None, expiredMessages = 0, expiredChunks = 0, resErr = None\<rparr>,
          [(''01:0s0'', [1], [None, Some (sample_chunk sample_id 1 [3])], 10)])"
proof -
  have "spec_Reassemble sample_lib sample_verify (reassembleTimeout sample_sender) (sample_chunk sample_id 1 [3]) 10
      (abs_ages sample_sender) =
     Ret (\<lparr>resMessage = None, resHash = None, expiredMessages = 0, expiredChunks = 0, resErr = None\<rparr>,
          [(''01:0s0'', [1], [None, Some (sample_chunk sample_id 1 [3])], 10)])"
    by code_simp
  moreover have "ChunksCount (sample_chunk sample_id 1 [3]) < 2 ^ 31" by (simp add: sample_chunk_def)
  ultimately show ?thesis using Reassemble_refines_table [OF sample_reachable] by metis
qed

text \<open>
  C6. The containers of a reachable processor agree: a holder is in the list by age exactly when the map has it under
  its own key, every holder is incomplete, its counter is the number of its filled slots, and the
  index by sender has the key of exactly the holders of that sender.
\<close>

theorem amp_reachable_consistent:
  assumes "amp_reachable lib verify p"
  shows "distinct (holderListByAge p) \<and>
     (a \<in> set (holderListByAge p) \<longleftrightarrow> hmap p (holderKey (heap p a)) = Some a) \<and>
     (a \<in> set (holderListByAge p) \<longrightarrow>
        None \<in> set (chunks (heap p a)) \<and> received (heap p a) = int (present (chunks (heap p a)))) \<and>
     (k \<in> byApp p (hex_EncodeToString app) \<longleftrightarrow> (\<exists>a. hmap p k = Some a \<and> holderAppID (heap p a) = app))"
proof (intro conjI impI)
  have inv: "amp_inv p" by (rule amp_reachable_inv [OF assms])
  then have l: "amp_links p" by (simp add: amp_inv_def)
  note D = amp_linksD [OF l]
  show "distinct (holderListByAge p)" by (rule D(3))
  show "a \<in> set (holderListByAge p) \<longleftrightarrow> hmap p (holderKey (heap p a)) = Some a"
    unfolding D(4) ran_def using D(6) by fastforce
  show "k \<in> byApp p (hex_EncodeToString app) \<longleftrightarrow> (\<exists>a. hmap p k = Some a \<and> holderAppID (heap p a) = app)"
    unfolding D(8) using hex_EncodeToString_inj by blast
  assume "a \<in> set (holderListByAge p)"
  then obtain j where "hmap p j = Some a" unfolding D(4) by (auto simp: ran_def)
  then have h: "holder_ok (heap p a)" using inv by (simp add: amp_inv_def)
  then show "received (heap p a) = int (present (chunks (heap p a)))" by (simp add: holder_ok_def)
  show "None \<in> set (chunks (heap p a))"
    using h present_full [of "chunks (heap p a)"] by (auto simp: holder_ok_iff)
qed

definition sample_busy :: appMsgProcessorImpl where
  "sample_busy = (case Reassemble sample_lib sample_verify (sample_chunk sample_id 1 [3]) 10 sample_sender of
     Ret (r, q) \<Rightarrow> q | Panic e \<Rightarrow> sample_sender)"

lemma sample_busy_reachable: "amp_reachable sample_lib sample_verify sample_busy"
proof (cases "Reassemble sample_lib sample_verify (sample_chunk sample_id 1 [3]) 10 sample_sender")
  case (Ret x)
  obtain r q where x: "x = (r, q)" by (cases x)
  with Ret have "sample_busy = q" by (simp add: sample_busy_def)
  moreover have "ChunksCount (sample_chunk sample_id 1 [3]) < 2 ^ 31" by (simp add: sample_chunk_def)
  ultimately show ?thesis using amp_chunk [OF sample_reachable _ Ret [unfolded x]] by simp
next
  case (Panic e)
  then show ?thesis using sample_reachable by (simp add: sample_busy_def)
qed

theorem amp_reachable_consistent_witness:
  "holderListByAge sample_busy = [0] \<and> hmap sample_busy (holderKey (heap sample_busy 0)) = Some 0 \<and>
   received (heap sample_busy 0) = 1 \<and> None \<in> set (chunks (heap sample_busy 0)) \<and>
   present (chunks (heap sample_busy 0)) = 1"
proof -
  have ev: "holderListByAge sample_busy = [0]" "received (heap sample_busy 0) = 1" by code_simp+
  with amp_reachable_consistent [OF sample_busy_reachable, of 0] show ?thesis by simp
qed

text \<open>
  C7. When \<open>Reassemble\<close> panics: exactly on a chunk of a multi-chunk message with a valid index that has no complete
  message id, or whose index is beyond the slots of the holder that the first chunk of its message
  allocated.  In the second case the chunk's own count is larger than that of the first chunk; the
  code reads the slot before it compares the counts.
\<close>

theorem Reassemble_panics_iff:
  assumes "amp_reachable lib verify p" and "ChunksCount c < 2 ^ 31"
  shows "is_panic (Reassemble lib verify c now p) \<longleftrightarrow>
     2 \<le> ChunksCount c \<and> 0 \<le> ChunkIndex c \<and> ChunkIndex c < ChunksCount c \<and>
     (case chunkKey c of
        None \<Rightarrow> True
      | Some k \<Rightarrow> (case hmap p k of None \<Rightarrow> False | Some a \<Rightarrow> int (length (chunks (heap p a))) \<le> ChunkIndex c))"
proof -
  have inv: "amp_inv p" by (rule amp_reachable_inv [OF assms(1)])
  then have l: "amp_links p" by (simp add: amp_inv_def)
  have val: "\<not> is_panic (spec_valid lib verify tmo now x)" for tmo x
    using spec_valid_total [of lib verify tmo now x] by auto
  have "abs_go abs_ages (Reassemble lib verify c now p) =
      spec_Reassemble lib verify (reassembleTimeout p) c now (abs_ages p)"
    using amp.sim [where s = p and e = "(c, now)"] inv assms(2) by simp
  then have "is_panic (Reassemble lib verify c now p) \<longleftrightarrow>
      is_panic (spec_Reassemble lib verify (reassembleTimeout p) c now (abs_ages p))"
    by (cases "Reassemble lib verify c now p") (metis abs_go_simps is_panic_simps surj_pair)+
  also have "\<dots> \<longleftrightarrow> 2 \<le> ChunksCount c \<and> 0 \<le> ChunkIndex c \<and> ChunkIndex c < ChunksCount c \<and>
     (case chunkKey c of None \<Rightarrow> True
      | Some k \<Rightarrow> (case map_of (abs_ages p) k of None \<Rightarrow> False
                   | Some (app, cs, t) \<Rightarrow> int (length cs) \<le> ChunkIndex c))"
  proof (cases "chunkKey c")
    case None
    then show ?thesis
      by (auto simp: spec_Reassemble_def spec_reject_def val chunkKey_def split: option.splits go.splits)
  next
    case (Some k)
    then obtain i md where "ChunkMessageId c = Some i" "makeHolderKey i = Ret k" "IdMetadata i = Some md"
      by (rule chunkKey_Some)
    with Some show ?thesis
      by (auto simp: spec_Reassemble_def spec_reject_def val Let_def split: option.splits)
  qed
  finally show ?thesis
    unfolding abs_ages_lookup [OF l] by (auto simp: entry_def split: option.splits)
qed

theorem Reassemble_panics_iff_witness:
  "is_panic (Reassemble sample_lib sample_verify ((sample_chunk sample_id 2 [3])\<lparr>ChunksCount := 3\<rparr>) 11 sample_busy) \<and>
   \<not> is_panic (Reassemble sample_lib sample_verify (sample_chunk sample_id 0 [1, 2]) 11 sample_busy)"
proof -
  let ?c = "(sample_chunk sample_id 2 [3])\<lparr>ChunksCount := 3\<rparr>" and ?d = "sample_chunk sample_id 0 [1, 2]"
  have k: "chunkKey ?c = Some ''01:0s0''" "chunkKey ?d = Some ''01:0s0''" by code_simp+
  have a: "hmap sample_busy ''01:0s0'' = Some 0" "length (chunks (heap sample_busy 0)) = 2" by code_simp+
  have n: "ChunksCount ?c < 2 ^ 31" "ChunksCount ?d < 2 ^ 31" by (simp_all add: sample_chunk_def)
  show ?thesis
    using Reassemble_panics_iff [OF sample_busy_reachable n(1), of 11]
      Reassemble_panics_iff [OF sample_busy_reachable n(2), of 11]
    unfolding k by (simp add: a sample_chunk_def)
qed

text \<open>
  C10. The chunks that \<open>Split\<close> sends: put together they are the encoded application message; each has at least one byte and
  at most \<open>chunkSize\<close> of them, all but the last exactly \<open>chunkSize\<close>; they carry the same message id and
  count, and their positions as indexes.
\<close>

theorem Split_cuts_message:
  assumes split: "Split lib sign (Some m) vs p = Ret (Inr (cs, h))" and n: "length cs < 2 ^ 31"
  shows "h = Sum256 lib m \<and>
     (\<exists>i so. MarshalAppMsg lib (wrapMessage i m h so) = Some (concat (map MessageChunk cs)) \<and>
        (\<forall>j < length cs. ChunkMessageId (cs ! j) = Some i \<and> ChunkIndex (cs ! j) = int j \<and>
           ChunksCount (cs ! j) = int (length cs) \<and> 0 < length (MessageChunk (cs ! j)) \<and>
           length (MessageChunk (cs ! j)) \<le> chunkSize p \<and>
           (Suc j < length cs \<longrightarrow> length (MessageChunk (cs ! j)) = chunkSize p)))"
proof -
  obtain ts so data where sp: "h = Sum256 lib m"
    "MarshalAppMsg lib (wrapMessage (newAppMessageID p ts) m h so) = Some data"
    "0 < chunkSize p" and cs: "cs = cutChunks (newAppMessageID p ts) (chunkSize p) data"
    using Split_Ret [OF split] by metis
  let ?i = "newAppMessageID p ts" and ?sz = "chunkSize p"
  have cc: "concat (map MessageChunk cs) = data" unfolding cs by (rule concat_cutChunks [OF sp(3)])
  have len: "length cs = (length data + ?sz - 1) div ?sz" unfolding cs by (rule length_cutChunks)
  have bytes: "0 < length (sliceChunk data ?sz j) \<and> length (sliceChunk data ?sz j) \<le> ?sz \<and>
      (Suc j < length cs \<longrightarrow> length (sliceChunk data ?sz j) = ?sz)" if "j < length cs" for j
  proof -
    have "j * ?sz < length data" using that len by (intro slices_needed [OF sp(3)]) simp
    moreover have "Suc j * ?sz < length data" if "Suc j < length cs"
      using that len by (intro slices_needed [OF sp(3)]) simp
    ultimately show ?thesis using sp(3) by (auto simp: sliceChunk_take)
  qed
  have "\<forall>j < length cs. ChunkMessageId (cs ! j) = Some ?i \<and> ChunkIndex (cs ! j) = int j \<and>
      ChunksCount (cs ! j) = int (length cs) \<and> MessageChunk (cs ! j) = sliceChunk data ?sz j"
    using nth_cutChunks n unfolding cs by auto
  with bytes have "\<forall>j < length cs. ChunkMessageId (cs ! j) = Some ?i \<and> ChunkIndex (cs ! j) = int j \<and>
      ChunksCount (cs ! j) = int (length cs) \<and> 0 < length (MessageChunk (cs ! j)) \<and>
      length (MessageChunk (cs ! j)) \<le> chunkSize p \<and>
      (Suc j < length cs \<longrightarrow> length (MessageChunk (cs ! j)) = chunkSize p)" by simp
  with sp(1,2) cc show ?thesis by blast
qed

theorem Split_cuts_message_witness:
  "\<exists>i so. MarshalAppMsg sample_lib (wrapMessage i [7] sample_hash so) = Some [1, 2, 3]"
  using Split_cuts_message [OF sample_split] by (auto simp: sample_chunk_def)

lemma show_int_no_s: "CHR ''s'' \<notin> set (show_int i)"
  using show_int_chars [of "CHR ''s''" i] by (auto simp: digitchar_def)

text \<open>
  The key of a message identifies it: two message ids with the same key have the same application id and the same
  valid start time.  The account that sent the message is not part of the key.
\<close>

lemma makeHolderKey_identifies:
  "makeHolderKey i = Ret k \<and> makeHolderKey j = Ret k \<longleftrightarrow>
   (\<exists>m m' v. IdMetadata i = Some m \<and> IdMetadata j = Some m' \<and> AnyValue m = AnyValue m' \<and>
      ValidStart i = Some v \<and> ValidStart j = Some v \<and>
      k = hex_EncodeToString (AnyValue m) @ '':'' @ show_int (Seconds v) @ ''s'' @ show_int (Nanos v))"
proof
  assume "makeHolderKey i = Ret k \<and> makeHolderKey j = Ret k"
  then obtain m m' v v' where ij: "IdMetadata i = Some m" "IdMetadata j = Some m'" "ValidStart i = Some v"
    "ValidStart j = Some v'"
    and k: "k = hex_EncodeToString (AnyValue m) @ '':'' @ show_int (Seconds v) @ ''s'' @ show_int (Nanos v)"
    and k': "k = hex_EncodeToString (AnyValue m') @ '':'' @ show_int (Seconds v') @ ''s'' @ show_int (Nanos v')"
    by (auto simp: makeHolderKey_def split: option.splits)
  have "hex_EncodeToString (AnyValue m) @ CHR '':'' # (show_int (Seconds v) @ ''s'' @ show_int (Nanos v)) =
      hex_EncodeToString (AnyValue m') @ CHR '':'' # (show_int (Seconds v') @ ''s'' @ show_int (Nanos v'))"
    using k k' by simp
  from append_sep_inj [OF this colon_not_hex colon_not_hex]
  have hx: "hex_EncodeToString (AnyValue m) = hex_EncodeToString (AnyValue m')"
    and "show_int (Seconds v) @ CHR ''s'' # show_int (Nanos v) = show_int (Seconds v') @ CHR ''s'' # show_int (Nanos v')"
    by simp_all
  from append_sep_inj [OF this(2) show_int_no_s show_int_no_s]
  have "Seconds v = Seconds v'" "Nanos v = Nanos v'" by (auto dest: show_int_inj)
  then have "v = v'" by simp
  with ij k hex_EncodeToString_inj [OF hx] show "\<exists>m m' v. IdMetadata i = Some m \<and> IdMetadata j = Some m' \<and>
      AnyValue m = AnyValue m' \<and> ValidStart i = Some v \<and> ValidStart j = Some v \<and>
      k = hex_EncodeToString (AnyValue m) @ '':'' @ show_int (Seconds v) @ ''s'' @ show_int (Nanos v)"
    by blast
qed (auto simp: makeHolderKey_def)

text \<open>The table in the order of its timestamps, none of them after \<open>now\<close>.\<close>

definition ages_upto :: "time \<Rightarrow> ages \<Rightarrow> bool" where
  "ages_upto now st \<longleftrightarrow> sorted (map (\<lambda>e. snd (snd (snd e))) st) \<and> list_all (\<lambda>e. snd (snd (snd e)) \<le> now) st"

lemma ages_upto_mono: "ages_upto t st \<Longrightarrow> t \<le> now \<Longrightarrow> ages_upto now st"
  by (auto simp: ages_upto_def list_all_iff)

lemma ages_upto_filter: "ages_upto t st \<Longrightarrow> ages_upto t (filter P st)"
  by (auto simp: ages_upto_def list_all_iff sorted_filter)

lemma ages_upto_snoc: "ages_upto now st \<Longrightarrow> ages_upto now (st @ [(k, app, cs, now)])"
  by (auto simp: ages_upto_def list_all_iff sorted_append)

lemma ages_upto_dropWhile: "ages_upto t st \<Longrightarrow> ages_upto t (dropWhile P st)"
proof -
  assume "ages_upto t st"
  moreover have "st = takeWhile P st @ dropWhile P st" by simp
  ultimately have "ages_upto t (takeWhile P st @ dropWhile P st)" by simp
  then show ?thesis by (simp add: ages_upto_def sorted_append del: takeWhile_dropWhile_id)
qed

lemma spec_Reassemble_ordered:
  assumes "ages_upto t st" and "t \<le> now" and "spec_Reassemble lib verify timeout c now st = Ret (r, st')"
  shows "ages_upto now st'"
proof -
  have st: "ages_upto now st" by (rule ages_upto_mono [OF assms(1,2)])
  then have rc: "ages_upto now (fst (spec_receive c k app now st))" for k app
    by (auto simp: spec_receive_def Let_def intro: ages_upto_snoc ages_upto_filter split: option.splits prod.splits)
  have val: "ages_upto now st'" if "spec_valid lib verify timeout now x = Ret (r, st')" "ages_upto now (fst x)" for x
    using spec_valid_Ret [of lib verify timeout now "fst x" "snd x" r st'] that by (simp add: ages_upto_dropWhile)
  show ?thesis
  proof (cases "chunkKey c")
    case None
    then show ?thesis using assms(3) st val [of "(st, Some (MessageChunk c))"]
      by (auto simp: spec_Reassemble_def spec_reject_def chunkKey_def split: if_splits option.splits go.splits)
  next
    case (Some k)
    then obtain i md where "ChunkMessageId c = Some i" "makeHolderKey i = Ret k" "IdMetadata i = Some md"
      by (rule chunkKey_Some)
    then show ?thesis
      using assms(3) st val [of "(st, Some (MessageChunk c))"] val [of "spec_receive c k (AnyValue md) now st"] rc
      by (auto simp: spec_Reassemble_def spec_reject_def Let_def split: if_splits option.splits)
  qed
qed

lemma stream_ordered:
  assumes "ages_upto t st" and "sorted (t # map snd evs)"
    and "run_go (spec_event lib verify timeout) evs st = Ret (rs, st')"
  shows "\<exists>t'. ages_upto t' st'"
  using assms
proof (induction evs arbitrary: t st rs)
  case (Cons e evs)
  obtain r st1 rs' where r: "spec_Reassemble lib verify timeout (fst e) (snd e) st = Ret (r, st1)"
    "run_go (spec_event lib verify timeout) evs st1 = Ret (rs', st')" using Cons.prems(3) by auto
  have "ages_upto (snd e) st1" using spec_Reassemble_ordered [OF Cons.prems(1) _ r(1)] Cons.prems(2) by simp
  with Cons.IH [of "snd e" st1 rs'] Cons.prems(2) r(2) show ?case by simp
qed auto

lemma dropWhile_too_old:
  assumes "ages_upto t st"
  shows "dropWhile (too_old timeout now) st = filter (\<lambda>e. \<not> too_old timeout now e) st"
  using assms
proof (induction st)
  case (Cons e st)
  have up: "ages_upto t st" using Cons.prems by (simp add: ages_upto_def)
  show ?case
  proof (cases "too_old timeout now e")
    case True
    with Cons.IH [OF up] show ?thesis by simp
  next
    case False
    have "\<not> too_old timeout now e'" if "e' \<in> set st" for e'
    proof -
      have "snd (snd (snd e)) \<le> snd (snd (snd e'))" using Cons.prems that by (simp add: ages_upto_def)
      from time_Sub_mono [OF this, of now] False show ?thesis by (auto simp: too_old_def case_prod_beta)
    qed
    then have "filter (\<lambda>e. \<not> too_old timeout now e) st = st" by (simp add: filter_id_conv)
    with False show ?thesis by simp
  qed
qed simp

text \<open>
  C8. Expiry is exact when times do not run backwards.  After any stream of chunks with ordered consensus times,
  \<open>expireByTimestamp\<close> removes exactly the messages whose last chunk is at least the timeout ago, although it
  only looks at the front of the list, and reports how many they are.
\<close>

theorem expiry_is_exact:
  assumes new: "newAppMsgProcessor account app sz timeout sn = Inr p"
    and ok: "list_all (\<lambda>e. ChunksCount (fst e) < 2 ^ 31) evs" and ord: "sorted (map snd evs)"
    and run: "run_go (reassemble_event lib verify) evs p = Ret (rs, q)"
  shows "\<exists>ec q'. expireByTimestamp now q =
       Ret (int (length (filter (too_old timeout now) (abs_ages q))), ec, q') \<and>
     abs_ages q' = filter (\<lambda>e. \<not> too_old timeout now e) (abs_ages q)"
proof -
  have tmo: "reassembleTimeout p = timeout" and emp: "abs_ages p = []"
    using new by (auto simp: newAppMsgProcessor_def abs_ages_def split: if_splits option.splits)
  have inv: "amp_inv p" by (rule newAppMsgProcessor_inv [OF new])
  have q: "amp_inv q \<and> reassembleTimeout q = timeout"
    using amp.run_keeps [OF _ ok run] inv tmo by blast
  have sp: "run_go (spec_event lib verify timeout) evs [] = Ret (rs, abs_ages q)"
    using amp.run_sim [of p timeout evs lib verify] inv tmo ok run emp by simp
  obtain t where "sorted (t # map snd evs)" using ord by (cases evs) auto
  from stream_ordered [OF _ this sp] obtain t' where t': "ages_upto t' (abs_ages q)"
    by (auto simp: ages_upto_def)
  obtain em ec q' where fin: "finishValid None now q = Ret (em, ec, q')"
    "abs_ages q' = dropWhile (too_old timeout now) (abs_ages q)"
    "em = int (length (takeWhile (too_old timeout now) (abs_ages q)))"
    using finishValid_spec [where p = q and ho = None and now = now, OF _ refl] q by auto
  have "length (takeWhile (too_old timeout now) (abs_ages q)) + length (dropWhile (too_old timeout now) (abs_ages q)) =
      length (filter (too_old timeout now) (abs_ages q)) + length (filter (\<lambda>e. \<not> too_old timeout now e) (abs_ages q))"
    by (metis length_append sum_length_filter_compl takeWhile_dropWhile_id)
  then have "length (takeWhile (too_old timeout now) (abs_ages q)) = length (filter (too_old timeout now) (abs_ages q))"
    using dropWhile_too_old [OF t'] by simp
  with fin dropWhile_too_old [OF t'] show ?thesis by (simp add: finishValid_def)
qed

theorem expiry_is_exact_witness:
  "\<exists>ec q'. expireByTimestamp 150 sample_busy = Ret (1, ec, q') \<and> abs_ages q' = []"
proof -
  let ?evs = "[(sample_chunk sample_id 1 [3], 10)]"
  have new: "newAppMsgProcessor \<lparr>ShardNum = 0, RealmNum = 0, AccountNum = 3\<rparr> (Some [1]) 2 100 False = Inr sample_sender"
    by (simp add: newAppMsgProcessor_def sample_sender_def)
  have run: "\<exists>rs. run_go (reassemble_event sample_lib sample_verify) ?evs sample_sender = Ret (rs, sample_busy)"
  proof (cases "Reassemble sample_lib sample_verify (sample_chunk sample_id 1 [3]) 10 sample_sender")
    case (Ret x)
    then show ?thesis by (cases x) (simp add: sample_busy_def)
  next
    case (Panic e)
    moreover have "\<not> is_panic (Reassemble sample_lib sample_verify (sample_chunk sample_id 1 [3]) 10 sample_sender)"
      by code_simp
    ultimately show ?thesis by simp
  qed
  have ok: "list_all (\<lambda>e. ChunksCount (fst e) < 2 ^ 31) ?evs" "sorted (map snd ?evs)" by (simp_all add: sample_chunk_def)
  have ages: "abs_ages sample_busy = [(''01:0s0'', [1], [None, Some (sample_chunk sample_id 1 [3])], 10)]" by code_simp
  have old: "too_old 100 150 (''01:0s0'', [1], [None, Some (sample_chunk sample_id 1 [3])], 10)" by code_simp
  from run obtain rs where "run_go (reassemble_event sample_lib sample_verify) ?evs sample_sender = Ret (rs, sample_busy)" ..
  from expiry_is_exact [OF new ok this, of 150] old show ?thesis by (simp add: ages)
qed

text \<open>
  C9. When a sender restarts, \<open>ExpireByAppID\<close> forgets exactly the pending messages with the sender's id, reports how many
  they were, and leaves all others as they are.
\<close>

theorem ExpireByAppID_exact:
  assumes "amp_reachable lib verify p" and "app \<noteq> []"
  shows "\<exists>m c q. ExpireByAppID app p = Inr (m, c, q) \<and>
     abs_pending q = (\<lambda>k. case abs_pending p k of None \<Rightarrow> None | Some (a, cs) \<Rightarrow> if a = app then None else Some (a, cs)) \<and>
     m = int (card {k. \<exists>cs. abs_pending p k = Some (app, cs)})"
proof -
  have l: "amp_links p" using amp_reachable_inv [OF assms(1)] by (simp add: amp_inv_def)
  obtain x where "ExpireByAppID app p = Inr x"
    using assms(2) by (cases "map_of (holdersByAppID p) (hex_EncodeToString app)") (simp_all add: ExpireByAppID_def Let_def)
  then obtain m c q where run: "ExpireByAppID app p = Inr (m, c, q)" by (metis prod_cases3)
  note E = ExpireByAppID_links [OF l run]
  have "heap q = heap p" using E by (auto simp: amp_frame_def)
  then have ab: "abs_pending q k =
      (case abs_pending p k of None \<Rightarrow> None | Some (a, cs) \<Rightarrow> if a = app then None else Some (a, cs))" for k
    using E by (cases "hmap p k") (simp_all add: abs_pending_def restrict_map_def)
  have "{k. \<exists>a. hmap p k = Some a \<and> holderAppID (heap p a) = app} = {k. \<exists>cs. abs_pending p k = Some (app, cs)}"
    by (auto simp: abs_pending_def)
  with E run ab show ?thesis by auto
qed

theorem ExpireByAppID_exact_witness:
  "\<exists>m c q. ExpireByAppID [1] sample_busy = Inr (m, c, q) \<and> abs_pending q ''01:0s0'' = None"
proof -
  have "abs_pending sample_busy ''01:0s0'' = Some ([1], [None, Some (sample_chunk sample_id 1 [3])])" by code_simp
  with ExpireByAppID_exact [OF sample_busy_reachable, of "[1]"] show ?thesis by auto
qed

end
