(* ===== verification/HcsConsenter.thy ===== *)
theory HcsConsenter
  imports MsgProcessor ChunkTransport
begin

text \<open>
  The HCS consenter (\<open>orderer/consensus/hcs/consenter.go\<close>), the client factory and the subscription handle
  (\<open>hcs_factory_impl.go\<close>), and the configuration functions of \<open>chain.go\<close>: unique valid start times for transactions,
  the check that a topic serves one channel only, parsing of the operator, the nodes, the topic and the public keys.

  The Hedera SDK is a record of functions.  Its identifiers and keys are what the code uses of them: an account id, the
  bytes of a public key, and for a private key an opaque value.  \<open>crypto/md5\<close> is written out.
\<close>

section \<open>MD5\<close>

text \<open>
  RFC 1321.  The constants of the steps are the integer parts of \<open>2 ^ 32\<close> times the absolute value of the sine of
  1 to 64; they are computed in fixed-point arithmetic with 128 bits from the series for 1 and the addition theorems.
\<close>

definition md5_unit :: int where
  "md5_unit = 2 ^ 128"

fun md5_series :: "nat \<Rightarrow> int \<Rightarrow> int \<Rightarrow> int" where
  "md5_series 0 k t = 0"
| "md5_series (Suc n) k t = t - md5_series n (k + 2) (t div ((k + 1) * (k + 2)))"

fun md5_sines :: "nat \<Rightarrow> int \<Rightarrow> int \<Rightarrow> int list" where
  "md5_sines 0 s c = []"
| "md5_sines (Suc n) s c =
     (let s1 = md5_series 20 1 md5_unit; c1 = md5_series 20 0 md5_unit
      in s # md5_sines n ((s * c1 + c * s1) div md5_unit) ((c * c1 - s * s1) div md5_unit))"

definition md5_K :: "u32 list" where
  "md5_K = map (\<lambda>s. of_int (\<bar>s\<bar> * 2 ^ 32 div md5_unit)) (md5_sines 64 (md5_series 20 1 md5_unit) (md5_series 20 0 md5_unit))"

definition md5_shifts :: "nat list" where
  "md5_shifts = concat (map (\<lambda>q. concat (replicate 4 q)) [[7, 12, 17, 22], [5, 9, 14, 20], [4, 11, 16, 23], [6, 10, 15, 21]])"

definition rotl :: "nat \<Rightarrow> u32 \<Rightarrow> u32" where
  "rotl n w = or (push_bit n w) (drop_bit (32 - n) w)"

definition md5_mix :: "nat \<Rightarrow> u32 \<Rightarrow> u32 \<Rightarrow> u32 \<Rightarrow> u32 \<times> nat" where
  "md5_mix i b c d =
     (if i < 16 then (or (and b c) (and (not b) d), i)
      else if i < 32 then (or (and d b) (and (not d) c), (5 * i + 1) mod 16)
      else if i < 48 then (xor b (xor c d), (3 * i + 5) mod 16)
      else (xor c (or b (not d)), 7 * i mod 16))"

fun md5_step :: "u32 list \<Rightarrow> u32 \<times> u32 \<times> u32 \<times> u32 \<Rightarrow> nat \<times> u32 \<times> nat \<Rightarrow> u32 \<times> u32 \<times> u32 \<times> u32" where
  "md5_step ws (a, b, c, d) (i, k, s) =
     (case md5_mix i b c d of (f, g) \<Rightarrow> (d, b + rotl s (f + a + k + ws ! g), b, c))"

definition md5_block :: "u32 \<times> u32 \<times> u32 \<times> u32 \<Rightarrow> u32 list \<Rightarrow> u32 \<times> u32 \<times> u32 \<times> u32" where
  "md5_block st ws =
     (case st of (a, b, c, d) \<Rightarrow>
        (case foldl (md5_step ws) (a, b, c, d) (zip [0..<64] (zip md5_K md5_shifts)) of
           (a', b', c', d') \<Rightarrow> (a + a', b + b', c + c', d + d')))"

fun md5_blocks :: "u32 \<times> u32 \<times> u32 \<times> u32 \<Rightarrow> nat \<Rightarrow> u32 list \<Rightarrow> u32 \<times> u32 \<times> u32 \<times> u32" where
  "md5_blocks st 0 ws = st"
| "md5_blocks st (Suc n) ws = md5_blocks (md5_block st (take 16 ws)) n (drop 16 ws)"

fun le_words :: "bytes \<Rightarrow> u32 list" where
  "le_words (a # b # c # d # r) = sha_words [d, c, b, a] @ le_words r"
| "le_words _ = []"

definition le_bytes :: "u32 \<Rightarrow> bytes" where
  "le_bytes w = rev (word_bytes w)"

definition md5_pad :: "bytes \<Rightarrow> bytes" where
  "md5_pad m = m @ [0x80] @ replicate ((119 - length m mod 64) mod 64) 0 @ rev (length_bytes (8 * of_nat (length m)))"

definition md5_Sum :: "bytes \<Rightarrow> bytes" where
  "md5_Sum m =
     (let p = md5_pad m
      in case md5_blocks (0x67452301, 0xefcdab89, 0x98badcfe, 0x10325476) (length p div 64) (le_words p) of
           (a, b, c, d) \<Rightarrow> le_bytes a @ le_bytes b @ le_bytes c @ le_bytes d)"

lemma length_md5 [simp]: "length (md5_Sum m) = 16"
  by (simp add: md5_Sum_def le_bytes_def word_bytes_def Let_def split: prod.splits)

section \<open>The Hedera SDK\<close>

text \<open>
  A topic id is given by its canonical string, a public key by its bytes, a private key by an opaque value.
\<close>

record hedera_lib =
  TopicIDFromString :: "string \<Rightarrow> string option"
  AccountIDFromString :: "string \<Rightarrow> AccountID option"
  PublicKeyFromString :: "string \<Rightarrow> bytes option"
  PrivateKeyFromString :: "string \<Rightarrow> bytes option"
  PrivateKeyFromPem :: "string \<Rightarrow> bytes option"
  PublicKeyOf :: "bytes \<Rightarrow> bytes"
  EdSign :: "bytes \<Rightarrow> bytes \<Rightarrow> bytes"
  EdVerify :: "bytes \<Rightarrow> bytes \<Rightarrow> bytes \<Rightarrow> bool"
  unHcsConfigMetadata :: "bytes \<Rightarrow> HcsConfigMetadata option"

section \<open>Configuration\<close>

record HcsOperator =
  OperatorId :: string
  PrivateKeyType :: string
  PrivateKeyKey :: string

record HcsLocal =
  Nodes :: "(string \<times> string) list"
  MirrorNodeAddress :: string
  Operator :: HcsOperator

datatype hcs_err =
    UnsupportedPrivateKey string
  | InvalidOperatorKey
  | BadConfigMetadata
  | InvalidTopicID
  | UnsupportedKeyType string
  | InvalidPublicKey string
  | BadReassembleTimeout
  | ZeroReassembleTimeout
  | EmptyNodes
  | InvalidAccountID string
  | InvalidOperatorID
  | InvalidNetwork
  | EmptyMirrorEndpoint
  | TopicInUse string string
  | AmpError amp_error
  | JoinNotSupported

fun addPublicKeys :: "hedera_lib \<Rightarrow> HcsConfigPublicKey list \<Rightarrow> bytes list \<Rightarrow> hcs_err + bytes list" where
  "addPublicKeys hl [] keys = Inr keys"
| "addPublicKeys hl (k # ks) keys =
     (if KeyType k \<noteq> ''ed25519'' then Inl (UnsupportedKeyType (KeyType k))
      else case PublicKeyFromString hl (KeyString k) of
        None \<Rightarrow> Inl (InvalidPublicKey (KeyString k))
      | Some publicKey \<Rightarrow> addPublicKeys hl ks (List.insert publicKey keys))"

text \<open>The map of public keys is used for its keys only, the bytes of the public keys.\<close>

definition getPublicKeys :: "hedera_lib \<Rightarrow> HcsConfigPublicKey list \<Rightarrow> bytes \<Rightarrow> hcs_err + bytes list" where
  "getPublicKeys hl publicKeysIn extra = addPublicKeys hl publicKeysIn [extra]"

definition parseEd25519PrivateKey :: "hedera_lib \<Rightarrow> string \<Rightarrow> bytes option" where
  "parseEd25519PrivateKey hl str =
     (case PrivateKeyFromString hl str of
        Some k \<Rightarrow> Some k
      | None \<Rightarrow> PrivateKeyFromPem hl str)"

definition parseNodes :: "hedera_lib \<Rightarrow> (string \<times> string) list \<Rightarrow> hcs_err + (string \<times> AccountID) list" where
  "parseNodes hl nodes =
     res_map (\<lambda>(addr, acc). case AccountIDFromString hl acc of
                None \<Rightarrow> Inl (InvalidAccountID acc)
              | Some account \<Rightarrow> Inr (addr, account)) nodes"

record parsed_config =
  pcTopicID :: string
  pcPublicKeys :: "bytes list"
  pcReassembleTimeout :: duration
  pcNetwork :: "(string \<times> AccountID) list"
  pcOperatorID :: AccountID
  pcPrivateKey :: bytes

definition parseConfig :: "hedera_lib \<Rightarrow> bytes \<Rightarrow> HcsLocal \<Rightarrow> hcs_err + parsed_config" where
  "parseConfig hl configMetaData config =
     (if PrivateKeyType (Operator config) \<noteq> ''ed25519'' then Inl (UnsupportedPrivateKey (PrivateKeyType (Operator config)))
      else
      res_bind (or_err InvalidOperatorKey (parseEd25519PrivateKey hl (PrivateKeyKey (Operator config)))) (\<lambda>privateKey.
      res_bind (or_err BadConfigMetadata (unHcsConfigMetadata hl configMetaData)) (\<lambda>hcsConfigMetadata.
      res_bind (or_err InvalidTopicID (TopicIDFromString hl (TopicId hcsConfigMetadata))) (\<lambda>topicID.
      res_bind (getPublicKeys hl (PublicKeys hcsConfigMetadata) (PublicKeyOf hl privateKey)) (\<lambda>publicKeys.
      res_bind (or_err BadReassembleTimeout (ParseDuration (ReassembleTimeout hcsConfigMetadata))) (\<lambda>timeout.
      if timeout = 0 then Inl ZeroReassembleTimeout
      else if length (Nodes config) = 0 then Inl EmptyNodes
      else
      res_bind (parseNodes hl (Nodes config)) (\<lambda>network.
      res_bind (or_err InvalidOperatorID (AccountIDFromString hl (OperatorId (Operator config)))) (\<lambda>operatorID.
      Inr \<lparr>pcTopicID = topicID, pcPublicKeys = publicKeys, pcReassembleTimeout = timeout, pcNetwork = network,
           pcOperatorID = operatorID, pcPrivateKey = privateKey\<rparr>))))))))"

section \<open>The consenter\<close>

record consenterImpl =
  nextValidStart :: time
  sharedHcsConfigVal :: HcsLocal
  identityVal :: bytes
  topicChannelMap :: "(string \<times> string) list"

definition New :: "HcsLocal \<Rightarrow> bytes option \<Rightarrow> consenterImpl go" where
  "New config publicIdentity =
     (case publicIdentity of
        None \<Rightarrow> Panic ''Failed serializing public identity''
      | Some identity \<Rightarrow>
          Ret \<lparr>nextValidStart = zeroTime, sharedHcsConfigVal = config, identityVal = identity, topicChannelMap = []\<rparr>)"

definition getUniqueValidStart :: "time \<Rightarrow> consenterImpl \<Rightarrow> time \<times> consenterImpl" where
  "getUniqueValidStart wanted consenter =
     (let c1 = (if wanted > nextValidStart consenter then consenter\<lparr>nextValidStart := wanted\<rparr> else consenter);
          validStart = nextValidStart c1
      in (validStart, c1\<lparr>nextValidStart := nextValidStart c1 + 1\<rparr>))"

definition JoinChain :: "hcs_err + 'a" where
  "JoinChain = Inl JoinNotSupported"

text \<open>\<open>GetHcsClient\<close> checks its arguments; building a client from them is the SDK's.\<close>

definition GetHcsClient :: "(string \<times> AccountID) list \<Rightarrow> string \<Rightarrow> hcs_err option" where
  "GetHcsClient network mirrorEndpoint =
     (if length network = 0 then Some InvalidNetwork
      else if mirrorEndpoint = [] then Some EmptyMirrorEndpoint
      else None)"

text \<open>
  The subscription handle: three channels, the number of callbacks of the SDK that are blocked in a send on one of them, and
  how often the SDK was told to unsubscribe.  Closing a channel with a blocked sender makes the sender panic.
\<close>

record mirrorSubscriptionHandleImpl =
  hdErrChan :: latch
  hdMsgChan :: latch
  hdDone :: latch
  hdSending :: nat
  hdUnsubscribed :: nat

definition newMirrorSubscriptionHandle :: mirrorSubscriptionHandleImpl where
  "newMirrorSubscriptionHandle = \<lparr>hdErrChan = Open, hdMsgChan = Open, hdDone = Open, hdSending = 0, hdUnsubscribed = 0\<rparr>"

definition Unsubscribe :: "mirrorSubscriptionHandleImpl \<Rightarrow> mirrorSubscriptionHandleImpl go" where
  "Unsubscribe h =
     (case hdDone h of
        Closed \<Rightarrow> Ret h
      | Open \<Rightarrow>
          go_bind (close_latch (hdMsgChan h)) (\<lambda>m.
          go_bind (close_latch (hdErrChan h)) (\<lambda>e.
          if hdSending h > 0 then Panic ''send on closed channel''
          else go_bind (close_latch (hdDone h)) (\<lambda>d.
               Ret (h\<lparr>hdMsgChan := m, hdErrChan := e, hdDone := d, hdUnsubscribed := hdUnsubscribed h + 1\<rparr>)))))"

definition onNext :: "mirrorSubscriptionHandleImpl \<Rightarrow> mirrorSubscriptionHandleImpl go" where
  "onNext h = (if hdMsgChan h = Closed then Panic ''send on closed channel'' else Ret (h\<lparr>hdSending := hdSending h + 1\<rparr>))"

definition onError :: "mirrorSubscriptionHandleImpl \<Rightarrow> mirrorSubscriptionHandleImpl go" where
  "onError h = (if hdErrChan h = Closed then Panic ''send on closed channel'' else Ret (h\<lparr>hdSending := hdSending h + 1\<rparr>))"

end
