(* ===== verification/HcsChain.thy ===== *)
theory HcsChain
  imports HcsConsenter
begin

text \<open>
  The chain of the HCS consensus plugin (\<open>orderer/consensus/hcs/chain.go\<close>): submission of messages to the topic, the
  timers that ask for a block to be cut, and the loop that consumes the messages of the topic in consensus order and writes blocks.

  The state is a record with the fields of \<open>chainImpl\<close>, what the chain reaches through its support (the block writer with
  the bundle and the ledger, the block cutter), the local variables of the two loops, and the consenter.  Channels that are only
  closed are latches.  A send on \<open>timeToCutRequestChan\<close> is received by the loop of \<open>processTimeToCutRequests\<close>
  before the sender goes on, so it is a call of the handler of a request; the loop closes the channel when it exits, after the
  senders that are under way.  The two loops are event handlers: each iteration handles one event that its select may choose.

  The network and the clock are a world \<open>'w\<close> with functions of the environment acting on it: \<open>heClock\<close> gives the readings
  of one call, \<open>heSubmit\<close> what the SDK returns for a submission.  Metrics and logs are left out.
\<close>

section \<open>Environment\<close>

record TopicMessage =
  SequenceNumber :: u64
  ConsensusTimestamp :: time
  Contents :: bytes

datatype PreCheckStatus = StatusDuplicateTransaction | StatusBusy | OtherPreCheck nat

datatype submit_err =
    ErrHederaPreCheckStatus PreCheckStatus
  | ErrHederaNetwork "StatusCode option"
  | OtherSubmitErr

record TransactionID =
  tiAccountID :: AccountID
  tiValidStart :: time

record 'w hcs_env =
  heMsg :: msg_env
  heLib :: hedera_lib
  heAmp :: amp_lib
  unChunk :: "bytes \<Rightarrow> ApplicationMessageChunk option"
  maChunk :: "ApplicationMessageChunk \<Rightarrow> bytes option"
  unHcsMessage :: "bytes \<Rightarrow> HcsMessage option"
  maHcsMessage :: "HcsMessage \<Rightarrow> bytes option"
  unHcsMetadata :: "bytes \<Rightarrow> HcsMetadata option"
  maHcsMetadata :: "HcsMetadata \<Rightarrow> bytes option"
  heClock :: "'w \<Rightarrow> (nat \<Rightarrow> time) \<times> 'w"
  heNonce :: "'w \<Rightarrow> bytes option \<times> 'w"
  heSubmit :: "bytes \<Rightarrow> string \<Rightarrow> TransactionID \<Rightarrow> 'w \<Rightarrow> submit_err option \<times> 'w"
  heSubscribe :: "string \<Rightarrow> time \<Rightarrow> 'w \<Rightarrow> bool \<times> 'w"
  hePing :: "AccountID \<Rightarrow> 'w \<Rightarrow> bool \<times> 'w"
  heClose :: "'w \<Rightarrow> 'w"

abbreviation heBw :: "'w hcs_env \<Rightarrow> bw_env" where
  "heBw env \<equiv> meBw (heMsg env)"

datatype chain_err =
    BadEnvelope
  | DiscardNormal mp_err
  | RejectConfig mp_err
  | ResubmitNormal chain_err
  | ResubmitConfig chain_err
  | UnsupportedClass
  | LargerTimeToCut u64 u64
  | NoPendingTransactions
  | ChainHalted
  | NotBootstrapped
  | CannotMarshal
  | CannotEnqueue
  | TimeToCutNotSent
  | CannotConnect "string list"
  | SubscribeFailed

section \<open>State\<close>

record 'w chainImpl =
  chConsenter :: consenterImpl
  chWriter :: BlockWriter
  chCutter :: receiver
  chLastConsensusTimestampPersisted :: time
  chLastConsensusTimestamp :: time
  chLastOrderedConsensusTimestamp :: time
  chLastOriginalSequenceProcessed :: u64
  chLastResubmittedConfigSequence :: u64
  chLastChunkFreeConsensusTimestamp :: time
  chLastChunkFreeSequenceProcessed :: u64
  chLastSequenceProcessed :: u64
  chLastCutBlockNumber :: u64
  chDoneReprocessing :: latch
  chErrorChan :: latch
  chHaltChan :: latch
  chDoneProcessing :: "latch option"
  chStartChan :: latch
  chRequestChan :: latch
  chMessageHashes :: "bytes list"
  chNetwork :: "(string \<times> AccountID) list"
  chOperatorID :: AccountID
  chOperatorKey :: bytes
  chPublicKeys :: "bytes list"
  chTopicID :: string
  chHandle :: "mirrorSubscriptionHandleImpl option"
  chSubscribedFrom :: time
  chAmp :: appMsgProcessorImpl
  chAppID :: bytes
  chSendTimer :: "duration option"
  chSendHash :: bytes
  chRecvTimer :: "duration option"
  chRecvBlock :: u64
  chRetryTimer :: "duration option"
  chRetryTick :: bool
  chRetryCount :: nat
  chRecollect :: bool
  chWorld :: 'w

abbreviation chBundle :: "'w chainImpl \<Rightarrow> Bundle" where
  "chBundle ch \<equiv> bwBundle (chWriter ch)"

definition SharedConfig :: "Bundle \<Rightarrow> OrdererConfig go" where
  "SharedConfig bu =
     (case OrdererConfig_of bu of
        None \<Rightarrow> Panic ''has no orderer configuration''
      | Some oc \<Rightarrow> Ret oc)"

abbreviation consensusMetadata :: "OrdererConfig \<Rightarrow> bytes" where
  "consensusMetadata oc \<equiv> ctMetadata (opConsensusType (ocProtos oc))"

definition readClock :: "'w hcs_env \<Rightarrow> 'w chainImpl \<Rightarrow> (nat \<Rightarrow> time) \<times> 'w chainImpl" where
  "readClock env ch = (case heClock env (chWorld ch) of (now, w) \<Rightarrow> (now, ch\<lparr>chWorld := w\<rparr>))"

text \<open>The environment of one call of the message processor: its clock readings and its nonce.\<close>

definition msgEnv :: "'w hcs_env \<Rightarrow> 'w chainImpl \<Rightarrow> msg_env \<times> 'w chainImpl" where
  "msgEnv env ch =
     (case heClock env (chWorld ch) of
        (now, w) \<Rightarrow>
          (case heNonce env w of
             (rnd, w') \<Rightarrow> ((heMsg env)\<lparr>meNow := now, meRnd := rnd\<rparr>, ch\<lparr>chWorld := w'\<rparr>)))"

section \<open>Signing\<close>

definition chain_Sign :: "'w hcs_env \<Rightarrow> 'w chainImpl \<Rightarrow> sign_fun" where
  "chain_Sign env ch message =
     (case message of
        None \<Rightarrow> Inl ''invalid data''
      | Some m \<Rightarrow>
          if length m = 0 then Inl ''invalid data''
          else Inr (PublicKeyOf (heLib env) (chOperatorKey ch), EdSign (heLib env) (chOperatorKey ch) m))"

definition verifyWith :: "hedera_lib \<Rightarrow> bytes list \<Rightarrow> verify_fun" where
  "verifyWith hl keys message signerPublicKey signature =
     (case (message, signerPublicKey, signature) of
        (Some m, Some pk, Some sg) \<Rightarrow> pk \<in> set keys \<and> EdVerify hl pk m sg
      | _ \<Rightarrow> False)"

definition chain_Verify :: "'w hcs_env \<Rightarrow> 'w chainImpl \<Rightarrow> verify_fun" where
  "chain_Verify env ch = verifyWith (heLib env) (chPublicKeys ch)"

section \<open>Requests to the timers\<close>

record timeToCutRequest =
  ttcStart :: bool
  ttcNextBlockNumber :: u64
  ttcMessageHash :: slice

definition handleTimeToCutRequest :: "timeToCutRequest \<Rightarrow> 'w chainImpl \<Rightarrow> 'w chainImpl go" where
  "handleTimeToCutRequest request ch =
     (if chRequestChan ch = Closed then Panic ''send on closed channel''
      else case ttcMessageHash request of
        Some h \<Rightarrow>
          if chSendTimer ch = None
          then go_bind (SharedConfig (chBundle ch)) (\<lambda>oc.
               Ret (ch\<lparr>chSendTimer := Some (ocBatchTimeout oc), chSendHash := h\<rparr>))
          else Ret ch
      | None \<Rightarrow>
          if chRecvTimer ch \<noteq> None \<and> \<not> ttcStart request then Ret (ch\<lparr>chRecvTimer := None\<rparr>)
          else if chRecvTimer ch = None \<and> ttcStart request
          then go_bind (SharedConfig (chBundle ch)) (\<lambda>oc.
               Ret (ch\<lparr>chRecvTimer := Some (ocBatchTimeout oc), chRecvBlock := ttcNextBlockNumber request\<rparr>))
          else Ret ch)"

section \<open>Submitting messages\<close>

definition chain_validStart :: "time \<Rightarrow> 'w chainImpl \<Rightarrow> time \<times> 'w chainImpl" where
  "chain_validStart wanted ch =
     (case getUniqueValidStart wanted (chConsenter ch) of (t, con) \<Rightarrow> (t, ch\<lparr>chConsenter := con\<rparr>))"

abbreviation tenSeconds :: duration where
  "tenSeconds \<equiv> 10000000000"

definition retryable :: "submit_err \<Rightarrow> bool" where
  "retryable err =
     (case err of
        ErrHederaPreCheckStatus st \<Rightarrow> st = StatusDuplicateTransaction \<or> st = StatusBusy
      | ErrHederaNetwork code \<Rightarrow> code = Some Internal
      | OtherSubmitErr \<Rightarrow> False)"

text \<open>The attempts to submit one chunk; \<open>err\<close> is the error of the last attempt.\<close>

fun submitAttempts ::
  "'w hcs_env \<Rightarrow> nat \<Rightarrow> ApplicationMessageChunk \<Rightarrow> submit_err option \<Rightarrow> 'w chainImpl \<Rightarrow> (submit_err option \<times> 'w chainImpl) go"
where
  "submitAttempts env 0 chunk err ch = Ret (err, ch)"
| "submitAttempts env (Suc n) chunk err ch =
     (case readClock env ch of (now, ch1) \<Rightarrow>
     (case chain_validStart (now 0 - tenSeconds) ch1 of (validStart, ch2) \<Rightarrow>
     (case maChunk env chunk of
        None \<Rightarrow> Panic ''error marshaling''
      | Some b \<Rightarrow>
          (case heSubmit env b (chTopicID ch2) \<lparr>tiAccountID = chOperatorID ch2, tiValidStart = validStart\<rparr> (chWorld ch2) of
             (None, w) \<Rightarrow> Ret (None, ch2\<lparr>chWorld := w\<rparr>)
           | (Some e, w) \<Rightarrow>
               if retryable e then submitAttempts env n chunk (Some e) (ch2\<lparr>chWorld := w\<rparr>)
               else Ret (Some e, ch2\<lparr>chWorld := w\<rparr>)))))"

fun submitChunks ::
  "'w hcs_env \<Rightarrow> ApplicationMessageChunk list \<Rightarrow> 'w chainImpl \<Rightarrow> (bool \<times> 'w chainImpl) go"
where
  "submitChunks env [] ch = Ret (True, ch)"
| "submitChunks env (chunk # rest) ch =
     go_bind (submitAttempts env 3 chunk None ch) (\<lambda>(err, ch1).
     if err \<noteq> None then Ret (False, ch1) else submitChunks env rest ch1)"

definition enqueueChecked ::
  "'w hcs_env \<Rightarrow> HcsMessage \<Rightarrow> 'w chainImpl \<Rightarrow> ((bool \<times> slice) \<times> 'w chainImpl) go"
where
  "enqueueChecked env message ch =
     (case maHcsMessage env message of
        None \<Rightarrow> Ret ((False, None), ch)
      | Some payload \<Rightarrow>
          (case readClock env ch of (now, ch1) \<Rightarrow>
          (case chain_validStart (now 0 - tenSeconds) ch1 of (validStart, ch2) \<Rightarrow>
             go_bind (Split (heAmp env) (chain_Sign env ch2) (Some payload) validStart (chAmp ch2)) (\<lambda>r.
             case r of
               Inl e \<Rightarrow> Ret ((False, None), ch2)
             | Inr (parts, msgHash) \<Rightarrow>
                 go_bind (submitChunks env parts ch2) (\<lambda>(ok, ch3).
                 if ok then Ret ((True, Some msgHash), ch3) else Ret ((False, None), ch3))))))"

definition enqueue ::
  "'w hcs_env \<Rightarrow> HcsMessage \<Rightarrow> 'w chainImpl \<Rightarrow> ((bool \<times> slice) \<times> 'w chainImpl) go"
where
  "enqueue env message ch =
     (case chStartChan ch of
        Closed \<Rightarrow>
          (case chHaltChan ch of
             Closed \<Rightarrow> Ret ((False, None), ch)
           | Open \<Rightarrow> enqueueChecked env message ch)
      | Open \<Rightarrow> Ret ((False, None), ch))"

definition sendTimeToCut :: "'w hcs_env \<Rightarrow> HcsMessage \<Rightarrow> 'w chainImpl \<Rightarrow> (chain_err option \<times> 'w chainImpl) go" where
  "sendTimeToCut env msg ch =
     go_bind (enqueue env msg ch) (\<lambda>((ok, _), ch1).
     Ret (if \<not> ok then Some TimeToCutNotSent else None, ch1))"

definition order :: "'w hcs_env \<Rightarrow> Envelope \<Rightarrow> u64 \<Rightarrow> u64 \<Rightarrow> 'w chainImpl \<Rightarrow> (chain_err option \<times> 'w chainImpl) go" where
  "order env e configSeq originalOffset ch =
     (case maEnvelope (meCodec (heMsg env)) e of
        None \<Rightarrow> Ret (Some CannotMarshal, ch)
      | Some marshaledEnv \<Rightarrow>
          go_bind (enqueue env (newNormalMessage marshaledEnv configSeq originalOffset) ch) (\<lambda>((ok, msgHash), ch1).
          go_bind (if msgHash \<noteq> None
                   then handleTimeToCutRequest \<lparr>ttcStart = False, ttcNextBlockNumber = 0, ttcMessageHash = msgHash\<rparr> ch1
                   else Ret ch1) (\<lambda>ch2.
          Ret (if \<not> ok then Some CannotEnqueue else None, ch2))))"

definition configure :: "'w hcs_env \<Rightarrow> Envelope \<Rightarrow> u64 \<Rightarrow> u64 \<Rightarrow> 'w chainImpl \<Rightarrow> (chain_err option \<times> 'w chainImpl) go" where
  "configure env config configSeq originalOffset ch =
     (case maEnvelope (meCodec (heMsg env)) config of
        None \<Rightarrow> Ret (Some CannotMarshal, ch)
      | Some marshaledConfig \<Rightarrow>
          go_bind (enqueue env (newConfigMessage marshaledConfig configSeq originalOffset) ch) (\<lambda>((ok, _), ch1).
          Ret (if \<not> ok then Some CannotEnqueue else None, ch1)))"

definition Order :: "'w hcs_env \<Rightarrow> Envelope \<Rightarrow> u64 \<Rightarrow> 'w chainImpl \<Rightarrow> (chain_err option \<times> 'w chainImpl) go" where
  "Order env e configSeq ch = order env e configSeq 0 ch"

definition Configure :: "'w hcs_env \<Rightarrow> Envelope \<Rightarrow> u64 \<Rightarrow> 'w chainImpl \<Rightarrow> (chain_err option \<times> 'w chainImpl) go" where
  "Configure env config configSeq ch = configure env config configSeq 0 ch"

text \<open>The timers of \<open>processTimeToCutRequests\<close> fire when they run; a failed send is only logged.\<close>

definition sendTimerFired :: "'w hcs_env \<Rightarrow> 'w chainImpl \<Rightarrow> 'w chainImpl go" where
  "sendTimerFired env ch =
     (case chSendTimer ch of
        None \<Rightarrow> Ret ch
      | Some _ \<Rightarrow>
          go_bind (sendTimeToCut env (newTimeToCutMessageWithMessageHash (chSendHash ch)) (ch\<lparr>chSendTimer := None\<rparr>)) (\<lambda>(_, ch1).
          Ret ch1))"

definition recvTimerFired :: "'w hcs_env \<Rightarrow> 'w chainImpl \<Rightarrow> 'w chainImpl go" where
  "recvTimerFired env ch =
     (case chRecvTimer ch of
        None \<Rightarrow> Ret ch
      | Some _ \<Rightarrow>
          go_bind (sendTimeToCut env (newTimeToCutMessageWithBlockNumber (chRecvBlock ch)) (ch\<lparr>chRecvTimer := None\<rparr>)) (\<lambda>(_, ch1).
          Ret ch1))"

section \<open>Writing blocks\<close>

definition chain_WriteBlock :: "'w hcs_env \<Rightarrow> Block \<Rightarrow> bool \<Rightarrow> time \<Rightarrow> 'w chainImpl \<Rightarrow> 'w chainImpl go" where
  "chain_WriteBlock env block isConfig consensusTimestamp ch =
     (let ch1 = (if \<not> isConfig then ch\<lparr>chMessageHashes := []\<rparr> else ch) in
      go_bind (handleTimeToCutRequest \<lparr>ttcStart = False, ttcNextBlockNumber = 0, ttcMessageHash = None\<rparr> ch1) (\<lambda>ch2.
      let ch3 = ch2\<lparr>chLastCutBlockNumber := chLastCutBlockNumber ch2 + 1\<rparr> in
      go_bind (timestampProtoOrPanic consensusTimestamp) (\<lambda>ts.
      go_bind (timestampProtoOrPanic (chLastChunkFreeConsensusTimestamp ch3)) (\<lambda>us.
      go_bind (MarshalOrPanic (maHcsMetadata env)
                 (newHcsMetadata ts (chLastOriginalSequenceProcessed ch3) (chLastResubmittedConfigSequence ch3) us
                    (chLastChunkFreeSequenceProcessed ch3))) (\<lambda>marshaledMetadata.
      go_bind (if \<not> isConfig then WriteBlock (heBw env) block marshaledMetadata (chWriter ch3)
               else WriteConfigBlock (heBw env) block marshaledMetadata (chWriter ch3)) (\<lambda>bw.
      Ret (ch3\<lparr>chWriter := bw\<rparr>)))))))"

definition commitNormalMessage ::
  "'w hcs_env \<Rightarrow> Envelope \<Rightarrow> time \<Rightarrow> u64 \<Rightarrow> slice \<Rightarrow> 'w chainImpl \<Rightarrow> 'w chainImpl go"
where
  "commitNormalMessage env message curConsensusTimestamp newOriginalSequenceProcessed messageHash ch =
     (case readClock env ch of (now, ch0) \<Rightarrow>
      go_bind (Ordered (map_option (\<lambda>oc. opBatchSize (ocProtos oc)) (OrdererConfig_of (chBundle ch0))) now message (chCutter ch0)) (\<lambda>(batches, pending, cutter).
      let ch1 = ch0\<lparr>chCutter := cutter\<rparr>;
          advance = (\<lambda>c. c\<lparr>chLastOriginalSequenceProcessed := newOriginalSequenceProcessed,
                           chLastOrderedConsensusTimestamp := curConsensusTimestamp\<rparr>) in
      go_bind
        (if length batches = 0 then Ret (advance ch1)
         else
           let ch2 = (if pending \<or> length batches = 2 then ch1 else advance ch1) in
           go_bind (CreateNextBlock (heBw env) (batches ! 0) (chWriter ch2)) (\<lambda>block.
           go_bind (chain_WriteBlock env block False (chLastOrderedConsensusTimestamp ch2) ch2) (\<lambda>ch3.
           if length batches = 2 then
             let ch4 = advance ch3 in
             go_bind (CreateNextBlock (heBw env) (batches ! 1) (chWriter ch4)) (\<lambda>block2.
             chain_WriteBlock env block2 False (chLastOrderedConsensusTimestamp ch4) ch4)
           else Ret ch3))) (\<lambda>ch5.
      if pending then
        go_bind (handleTimeToCutRequest
                   \<lparr>ttcStart = True, ttcNextBlockNumber = chLastCutBlockNumber ch5 + 1, ttcMessageHash = None\<rparr> ch5) (\<lambda>ch6.
        Ret (ch6\<lparr>chMessageHashes := List.insert (slice_bytes messageHash) (chMessageHashes ch6)\<rparr>))
      else Ret ch5)))"

definition commitConfigMessage :: "'w hcs_env \<Rightarrow> Envelope \<Rightarrow> time \<Rightarrow> u64 \<Rightarrow> 'w chainImpl \<Rightarrow> 'w chainImpl go" where
  "commitConfigMessage env message curConsensusTimestamp newOriginalSequenceProcessed ch =
     (case readClock env ch of (now, ch0) \<Rightarrow>
     (case Cut (now 0) (chCutter ch0) of (batch, cutter) \<Rightarrow>
      let ch1 = ch0\<lparr>chCutter := cutter\<rparr> in
      go_bind
        (if batch \<noteq> [] then
           go_bind (CreateNextBlock (heBw env) batch (chWriter ch1)) (\<lambda>block.
           chain_WriteBlock env block False (chLastOrderedConsensusTimestamp ch1) ch1)
         else Ret ch1) (\<lambda>ch2.
      let ch3 = ch2\<lparr>chLastOriginalSequenceProcessed := newOriginalSequenceProcessed\<rparr> in
      go_bind (CreateNextBlock (heBw env) [message] (chWriter ch3)) (\<lambda>block.
      chain_WriteBlock env block True curConsensusTimestamp ch3))))"

section \<open>Processing ordered messages\<close>

definition reprocessComplete :: "'w chainImpl \<Rightarrow> 'w chainImpl go" where
  "reprocessComplete ch = go_bind (close_latch (chDoneReprocessing ch)) (\<lambda>c. Ret (ch\<lparr>chDoneReprocessing := c\<rparr>))"

definition reprocessPending :: "'w chainImpl \<Rightarrow> 'w chainImpl" where
  "reprocessPending ch = ch\<lparr>chDoneReprocessing := Open\<rparr>"

definition newSequence :: "HcsMessageRegular \<Rightarrow> 'w chainImpl \<Rightarrow> u64" where
  "newSequence msg ch = (if OriginalSeq msg = 0 then chLastOriginalSequenceProcessed ch else OriginalSeq msg)"

definition consumedAlready :: "HcsMessageRegular \<Rightarrow> 'w chainImpl \<Rightarrow> bool" where
  "consumedAlready msg ch \<longleftrightarrow> OriginalSeq msg \<noteq> 0 \<and> OriginalSeq msg \<le> chLastOriginalSequenceProcessed ch"

definition resubmitNormal ::
  "'w hcs_env \<Rightarrow> Envelope \<Rightarrow> u64 \<Rightarrow> 'w chainImpl \<Rightarrow> (chain_err option \<times> 'w chainImpl) go"
where
  "resubmitNormal env e receivedSequence ch =
     (case msgEnv env ch of (me, ch1) \<Rightarrow>
      go_bind (ProcessNormalMsg me (chBundle ch1) e) (\<lambda>r.
      case r of
        Inl err \<Rightarrow> Ret (Some (DiscardNormal err), ch1)
      | Inr configSeq \<Rightarrow>
          go_bind (order env e configSeq receivedSequence ch1) (\<lambda>(err, ch2).
          Ret (map_option ResubmitNormal err, ch2))))"

definition resubmitConfig ::
  "'w hcs_env \<Rightarrow> Envelope \<Rightarrow> u64 \<Rightarrow> 'w chainImpl \<Rightarrow> (chain_err option \<times> 'w chainImpl) go"
where
  "resubmitConfig env e receivedSequence ch =
     (case msgEnv env ch of (me, ch1) \<Rightarrow>
      go_bind (ProcessConfigMsg me (chBundle ch1) e) (\<lambda>r.
      case r of
        Inl err \<Rightarrow> Ret (Some (RejectConfig err), ch1)
      | Inr (configEnv, configSeq) \<Rightarrow>
          go_bind (configure env configEnv configSeq receivedSequence ch1) (\<lambda>(err, ch2).
          case err of
            Some e \<Rightarrow> Ret (Some (ResubmitConfig e), ch2)
          | None \<Rightarrow> Ret (None, reprocessPending (ch2\<lparr>chLastResubmittedConfigSequence := receivedSequence\<rparr>)))))"

definition reparsePublicKeys :: "'w hcs_env \<Rightarrow> 'w chainImpl \<Rightarrow> 'w chainImpl go" where
  "reparsePublicKeys env ch =
     go_bind (SharedConfig (chBundle ch)) (\<lambda>oc.
     case unHcsConfigMetadata (heLib env) (consensusMetadata oc) of
       None \<Rightarrow> Panic ''invalid consensus metadata in new channel configuration''
     | Some hcsConfigMetadata \<Rightarrow>
         (case getPublicKeys (heLib env) (PublicKeys hcsConfigMetadata) (PublicKeyOf (heLib env) (chOperatorKey ch)) of
            Inl e \<Rightarrow> Panic ''failed to parse public keys in consensus metadata''
          | Inr publicKeys \<Rightarrow> Ret (ch\<lparr>chPublicKeys := publicKeys\<rparr>)))"

definition noteResubmitted :: "HcsMessageRegular \<Rightarrow> u64 \<Rightarrow> 'w chainImpl \<Rightarrow> 'w chainImpl go" where
  "noteResubmitted msg curConfigSeq ch =
     (if OriginalSeq msg = 0 then Ret ch
      else
        go_bind (if OriginalSeq msg = chLastResubmittedConfigSequence ch \<and> ConfigSeq msg = curConfigSeq
                 then reprocessComplete ch else Ret ch) (\<lambda>ch1.
        Ret (if chLastResubmittedConfigSequence ch1 < OriginalSeq msg
             then ch1\<lparr>chLastResubmittedConfigSequence := OriginalSeq msg\<rparr> else ch1)))"

definition processRegularMessage ::
  "'w hcs_env \<Rightarrow> HcsMessageRegular \<Rightarrow> time \<Rightarrow> u64 \<Rightarrow> slice \<Rightarrow> 'w chainImpl \<Rightarrow> (chain_err option \<times> 'w chainImpl) go"
where
  "processRegularMessage env msg timestamp receivedSequence messageHash ch =
     (let curConfigSeq = Sequence (chWriter ch) in
      case unEnvelope (meCodec (heMsg env)) (RegularPayload msg) of
        None \<Rightarrow> Ret (Some BadEnvelope, ch)
      | Some e \<Rightarrow>
          (case MsgClass msg of
             NORMAL \<Rightarrow>
               if consumedAlready msg ch then Ret (None, ch)
               else if ConfigSeq msg < curConfigSeq then resubmitNormal env e receivedSequence ch
               else go_bind (commitNormalMessage env e timestamp (newSequence msg ch) messageHash ch) (\<lambda>ch1. Ret (None, ch1))
           | CONFIG \<Rightarrow>
               if consumedAlready msg ch then Ret (None, ch)
               else
                 go_bind (noteResubmitted msg curConfigSeq ch) (\<lambda>ch1.
                 if ConfigSeq msg < curConfigSeq then resubmitConfig env e receivedSequence ch1
                 else
                   go_bind (commitConfigMessage env e timestamp (newSequence msg ch1) ch1) (\<lambda>ch2.
                   go_bind (reparsePublicKeys env ch2) (\<lambda>ch3. Ret (None, ch3))))
           | UnknownClass _ \<Rightarrow> Ret (Some UnsupportedClass, ch)))"

definition processTimeToCutMessage ::
  "'w hcs_env \<Rightarrow> TimeToCutRequest option \<Rightarrow> time \<Rightarrow> u64 \<Rightarrow> 'w chainImpl \<Rightarrow> (chain_err option \<times> 'w chainImpl) go"
where
  "processTimeToCutMessage env request timestamp sequence ch =
     (let cutBlock =
        (case readClock env ch of (now, ch0) \<Rightarrow>
        (case Cut (now 0) (chCutter ch0) of (batch, cutter) \<Rightarrow>
          let ch1 = ch0\<lparr>chCutter := cutter\<rparr> in
          if length batch = 0 then Ret (Some NoPendingTransactions, ch1)
          else
            go_bind (CreateNextBlock (heBw env) batch (chWriter ch1)) (\<lambda>block.
            go_bind (chain_WriteBlock env block False timestamp (ch1\<lparr>chLastOriginalSequenceProcessed := sequence\<rparr>)) (\<lambda>ch2.
            Ret (None, ch2)))))
      in case request of
           Some (BlockNumber blockNumber) \<Rightarrow>
             if blockNumber = chLastCutBlockNumber ch + 1 then cutBlock
             else if blockNumber > chLastCutBlockNumber ch + 1
             then Ret (Some (LargerTimeToCut blockNumber (chLastCutBlockNumber ch + 1)), ch)
             else Ret (None, ch)
         | Some (MessageHash h) \<Rightarrow> if h \<in> set (chMessageHashes ch) then cutBlock else Ret (None, ch)
         | None \<Rightarrow> Ret (None, ch))"

definition processOrdererStartedMessage :: "bytes \<Rightarrow> 'w chainImpl \<Rightarrow> 'w chainImpl" where
  "processOrdererStartedMessage ordererIdentity ch =
     (case ExpireByAppID ordererIdentity (chAmp ch) of
        Inl err \<Rightarrow> ch
      | Inr (_, _, amp) \<Rightarrow> ch\<lparr>chAmp := amp\<rparr>)"

section \<open>The message loop\<close>

datatype loop_result = Continue | Exit "chain_err option"

datatype event =
    Halted
  | StreamError Status
  | RetryTimer
  | Message TopicMessage
  | StreamClosed

definition startSubscription :: "'w hcs_env \<Rightarrow> time \<Rightarrow> 'w chainImpl \<Rightarrow> bool \<times> 'w chainImpl" where
  "startSubscription env startTime ch =
     (let start = (if startTime = unixEpoch then startTime else startTime + 1) in
      case heSubscribe env (chTopicID ch) start (chWorld ch) of
        (ok, w) \<Rightarrow>
          if ok then (True, ch\<lparr>chHandle := Some newMirrorSubscriptionHandle, chSubscribedFrom := start, chWorld := w\<rparr>)
          else (False, ch\<lparr>chWorld := w\<rparr>))"

abbreviation subscriptionRetryMax :: nat where
  "subscriptionRetryMax \<equiv> 8"

abbreviation subscriptionRetryBaseDelay :: duration where
  "subscriptionRetryBaseDelay \<equiv> 100000000"

text \<open>
  The retry timer is a Go timer: \<open>chRetryTimer\<close> is the time until it expires, \<open>None\<close> when it is not running, and \<open>chRetryTick\<close> says that its channel
  holds a tick.  \<open>Reset\<close> starts the timer and leaves a tick that has not been received in the channel (as before Go 1.23; the module is built with
  Go 1.14).
\<close>

definition scheduleSubscriptionRetry :: "'w chainImpl \<Rightarrow> 'w chainImpl" where
  "scheduleSubscriptionRetry ch = ch\<lparr>chRetryTimer := Some (subscriptionRetryBaseDelay * 2 ^ chRetryCount ch)\<rparr>"

definition retryTimerExpires :: "'w chainImpl \<Rightarrow> 'w chainImpl" where
  "retryTimerExpires ch = ch\<lparr>chRetryTimer := None, chRetryTick := True\<rparr>"

definition closeHalt :: "'w chainImpl \<Rightarrow> 'w chainImpl go" where
  "closeHalt ch = go_bind (close_latch (chHaltChan ch)) (\<lambda>c. Ret (ch\<lparr>chHaltChan := c\<rparr>))"

definition handleStreamError :: "Status \<Rightarrow> 'w chainImpl \<Rightarrow> 'w chainImpl go" where
  "handleStreamError hcsErr ch =
     (let ch1 = ch\<lparr>chErrorChan := Closed\<rparr> in
      if chRetryCount ch1 < subscriptionRetryMax \<and> isSubscriptionErrorRecoverable hcsErr
      then Ret (scheduleSubscriptionRetry ch1)
      else closeHalt ch1)"

definition unsubscribeHandle :: "mirrorSubscriptionHandleImpl option \<Rightarrow> mirrorSubscriptionHandleImpl go" where
  "unsubscribeHandle h =
     (case h of None \<Rightarrow> Panic ''invalid memory address or nil pointer dereference'' | Some hnd \<Rightarrow> Unsubscribe hnd)"

definition handleRetryTimer :: "'w hcs_env \<Rightarrow> 'w chainImpl \<Rightarrow> 'w chainImpl go" where
  "handleRetryTimer env ch =
     (let ch1 = ch\<lparr>chRetryTick := False, chRetryCount := chRetryCount ch + 1\<rparr> in
      case startSubscription env (chLastConsensusTimestamp ch1) ch1 of
        (False, ch2) \<Rightarrow>
          if chRetryCount ch2 < subscriptionRetryMax then Ret (scheduleSubscriptionRetry ch2) else closeHalt ch2
      | (True, ch2) \<Rightarrow>
          go_bind (unsubscribeHandle (chHandle ch)) (\<lambda>_.
          go_bind (sendTimeToCut env (newTimeToCutMessageWithBlockNumber (chLastCutBlockNumber ch2)) ch2) (\<lambda>(_, ch3).
          Ret ch3)))"

definition processMessage ::
  "'w hcs_env \<Rightarrow> HcsMessage \<Rightarrow> time \<Rightarrow> u64 \<Rightarrow> slice \<Rightarrow> 'w chainImpl \<Rightarrow> (loop_result \<times> 'w chainImpl) go"
where
  "processMessage env msg timestamp sequence msgHash ch =
     (case msg of
        Regular regular \<Rightarrow>
          go_bind (processRegularMessage env regular timestamp sequence msgHash ch) (\<lambda>(_, ch1). Ret (Continue, ch1))
      | TimeToCut request \<Rightarrow>
          go_bind (processTimeToCutMessage env request timestamp sequence ch) (\<lambda>(err, ch1).
          Ret (if err \<noteq> None then Exit err else Continue, ch1))
      | OrdererStarted identity \<Rightarrow> Ret (Continue, processOrdererStartedMessage identity ch)
      | TypeNotSet \<Rightarrow> Ret (Continue, ch))"

definition recollect :: "time \<Rightarrow> 'w chainImpl \<Rightarrow> 'w chainImpl go" where
  "recollect timestamp ch =
     (if timestamp = chLastConsensusTimestampPersisted ch then
        let ch1 = ch\<lparr>chRecollect := False\<rparr> in
        if chLastResubmittedConfigSequence ch1 = 0
           \<or> chLastResubmittedConfigSequence ch1 \<le> chLastOriginalSequenceProcessed ch1
        then reprocessComplete ch1 else Ret ch1
      else if timestamp > chLastConsensusTimestampPersisted ch
      then Panic ''consensus timestamp of last processed message is later than chain.lastConsensusTimestampPersisted''
      else Ret ch)"

definition checkOrder :: "TopicMessage \<Rightarrow> 'w chainImpl \<Rightarrow> 'w chainImpl go" where
  "checkOrder resp ch =
     (if SequenceNumber resp \<noteq> chLastSequenceProcessed ch + 1 then Panic ''incorrect sequence number, exiting...''
      else if \<not> ConsensusTimestamp resp > chLastConsensusTimestamp ch
      then Panic ''resp.ConsensusTimestamp not after lastConsensusTimestamp''
      else Ret (ch\<lparr>chLastSequenceProcessed := chLastSequenceProcessed ch + 1,
                   chLastConsensusTimestamp := ConsensusTimestamp resp\<rparr>))"

definition noteChunkFree :: "'w chainImpl \<Rightarrow> 'w chainImpl" where
  "noteChunkFree ch =
     (if \<not> IsPending (chAmp ch)
      then ch\<lparr>chLastChunkFreeConsensusTimestamp := chLastConsensusTimestamp ch,
              chLastChunkFreeSequenceProcessed := chLastSequenceProcessed ch\<rparr>
      else ch)"

definition handleMessage :: "'w hcs_env \<Rightarrow> TopicMessage \<Rightarrow> 'w chainImpl \<Rightarrow> (loop_result \<times> 'w chainImpl) go" where
  "handleMessage env resp ch =
     go_bind (checkOrder resp (ch\<lparr>chRetryCount := 0, chErrorChan := Open\<rparr>)) (\<lambda>ch1.
     case unChunk env (Contents resp) of
       None \<Rightarrow> Ret (Continue, ch1)
     | Some chunk \<Rightarrow>
         go_bind (Reassemble (heAmp env) (chain_Verify env ch1) chunk (ConsensusTimestamp resp) (chAmp ch1)) (\<lambda>(r, amp).
         let ch2 = noteChunkFree (ch1\<lparr>chAmp := amp\<rparr>) in
         if resErr r \<noteq> None then Ret (Continue, ch2)
         else
           case resMessage r of
             None \<Rightarrow> Ret (Continue, ch2)
           | Some payload \<Rightarrow>
               (case unHcsMessage env payload of
                  None \<Rightarrow> Ret (Continue, ch2)
                | Some msg \<Rightarrow>
                    if \<not> chRecollect ch2
                    then processMessage env msg (ConsensusTimestamp resp) (SequenceNumber resp) (resHash r) ch2
                    else go_bind (recollect (ConsensusTimestamp resp) ch2) (\<lambda>ch3. Ret (Continue, ch3)))))"

text \<open>
  The deferred function of \<open>processMessages\<close>, followed by the exit of the loop of \<open>processTimeToCutRequests\<close>, which the close
  of \<open>doneProcessingMessages\<close> brings about.
\<close>

definition exitProcessing :: "'w hcs_env \<Rightarrow> 'w chainImpl \<Rightarrow> 'w chainImpl go" where
  "exitProcessing env ch =
     go_bind (unsubscribeHandle (chHandle ch)) (\<lambda>h.
     go_bind (case chDoneProcessing ch of
                None \<Rightarrow> Panic ''close of nil channel''
              | Some d \<Rightarrow> close_latch d) (\<lambda>d.
     go_bind (close_latch (chRequestChan ch)) (\<lambda>rq.
     Ret (ch\<lparr>chHandle := Some h, chDoneProcessing := Some d, chErrorChan := Closed, chRetryTimer := None,
             chRetryTick := (chRetryTimer ch \<noteq> None \<and> chRetryTick ch), chRequestChan := rq, chSendTimer := None, chRecvTimer := None, chWorld := heClose env (chWorld ch)\<rparr>))))"

text \<open>
  One iteration.  \<open>enabled\<close> says which events the select can choose in a state; the channels of a handle are closed only
  when the chain leaves the handle or the loop.
\<close>

definition enabled :: "event \<Rightarrow> 'w chainImpl \<Rightarrow> bool" where
  "enabled ev ch =
     (chDoneProcessing ch = Some Open
      \<and> (case ev of
           Halted \<Rightarrow> chHaltChan ch = Closed
         | RetryTimer \<Rightarrow> chRetryTick ch
         | StreamClosed \<Rightarrow> (case chHandle ch of None \<Rightarrow> False | Some h \<Rightarrow> hdMsgChan h = Closed)
         | Message _ \<Rightarrow> (case chHandle ch of None \<Rightarrow> False | Some h \<Rightarrow> hdMsgChan h = Open)
         | StreamError _ \<Rightarrow> (case chHandle ch of None \<Rightarrow> False | Some h \<Rightarrow> hdErrChan h = Open)))"

definition loopStep :: "'w hcs_env \<Rightarrow> event \<Rightarrow> 'w chainImpl \<Rightarrow> (loop_result \<times> 'w chainImpl) go" where
  "loopStep env ev ch =
     go_bind
       (case ev of
          Halted \<Rightarrow> Ret (Exit None, ch)
        | StreamError st \<Rightarrow> go_bind (handleStreamError st ch) (\<lambda>ch1. Ret (Continue, ch1))
        | RetryTimer \<Rightarrow> go_bind (handleRetryTimer env ch) (\<lambda>ch1. Ret (Continue, ch1))
        | StreamClosed \<Rightarrow> Ret (Exit None, ch)
        | Message resp \<Rightarrow> handleMessage env resp ch) (\<lambda>(r, ch1).
     case r of
       Continue \<Rightarrow> Ret (Continue, ch1)
     | Exit err \<Rightarrow> go_bind (exitProcessing env ch1) (\<lambda>ch2. Ret (Exit err, ch2)))"

text \<open>The iterations over a list of events, until the loop exits.\<close>

fun processMessages :: "'w hcs_env \<Rightarrow> event list \<Rightarrow> 'w chainImpl \<Rightarrow> (loop_result \<times> 'w chainImpl) go" where
  "processMessages env [] ch = Ret (Continue, ch)"
| "processMessages env (ev # evs) ch =
     go_bind (loopStep env ev ch) (\<lambda>(r, ch1).
     case r of Continue \<Rightarrow> processMessages env evs ch1 | Exit err \<Rightarrow> Ret (Exit err, ch1))"

section \<open>Starting, halting and queries\<close>

definition startThread :: "'w hcs_env \<Rightarrow> 'w chainImpl \<Rightarrow> 'w chainImpl go" where
  "startThread env ch =
     (if GetHcsClient (chNetwork ch) (MirrorNodeAddress (sharedHcsConfigVal (chConsenter ch))) \<noteq> None
      then Panic ''failed to create hcsClient''
      else if chLastChunkFreeConsensusTimestamp ch > chLastConsensusTimestampPersisted ch
      then Panic ''corrupted metadata? chain.lastChunkFreeConsensusTimestamp is after chain.lastConsensusTimestampPersisted''
      else
        case startSubscription env (chLastConsensusTimestamp ch) ch of
          (False, ch1) \<Rightarrow> Panic ''failed to start topic subscription''
        | (True, ch1) \<Rightarrow>
            go_bind (enqueueChecked env (newOrdererStartedMessage (chAppID ch1)) (ch1\<lparr>chDoneProcessing := Some Open\<rparr>)) (\<lambda>((ok, _), ch2).
            if \<not> ok then Panic ''failed to send orderer started message''
            else
              go_bind (close_latch (chStartChan ch2)) (\<lambda>started.
              Ret (ch2\<lparr>chStartChan := started, chErrorChan := Open, chRetryTimer := None, chRetryTick := False, chRetryCount := 0,
                       chSendTimer := None, chRecvTimer := None,
                       chRecollect :=
                         chLastConsensusTimestampPersisted ch2 \<noteq> chLastChunkFreeConsensusTimestamp ch2\<rparr>))))"

datatype waiting = Ready | Failed chain_err | Blocked

definition WaitReady :: "'w chainImpl \<Rightarrow> waiting" where
  "WaitReady ch =
     (case chStartChan ch of
        Open \<Rightarrow> Failed NotBootstrapped
      | Closed \<Rightarrow>
          (case chHaltChan ch of
             Closed \<Rightarrow> Failed ChainHalted
           | Open \<Rightarrow> (case chDoneReprocessing ch of Closed \<Rightarrow> Ready | Open \<Rightarrow> Blocked)))"

text \<open>\<open>Halt\<close> returns when the message loop has seen the halt; before the chain has started it waits for the start.\<close>

definition Halt :: "'w chainImpl \<Rightarrow> 'w chainImpl option" where
  "Halt ch =
     (case chStartChan ch of
        Open \<Rightarrow> None
      | Closed \<Rightarrow> Some (case chHaltChan ch of Closed \<Rightarrow> ch | Open \<Rightarrow> ch\<lparr>chHaltChan := Closed\<rparr>))"

definition Errored :: "'w chainImpl \<Rightarrow> latch" where
  "Errored ch = chErrorChan ch"

fun pingAll :: "'w hcs_env \<Rightarrow> (string \<times> AccountID) list \<Rightarrow> 'w \<Rightarrow> string list \<times> 'w" where
  "pingAll env [] w = ([], w)"
| "pingAll env ((address, nodeID) # nodes) w =
     (case hePing env nodeID w of
        (ok, w1) \<Rightarrow>
          (case pingAll env nodes w1 of (failed, w2) \<Rightarrow> (if ok then failed else address # failed, w2)))"

definition HealthCheck :: "'w hcs_env \<Rightarrow> 'w chainImpl \<Rightarrow> chain_err option \<times> 'w chainImpl" where
  "HealthCheck env ch =
     (case pingAll env (chNetwork ch) (chWorld ch) of
        (failed, w) \<Rightarrow> (if length failed \<noteq> 0 then Some (CannotConnect failed) else None, ch\<lparr>chWorld := w\<rparr>))"

section \<open>Creating a chain\<close>

abbreviation maxConsensusMessageSize :: int where
  "maxConsensusMessageSize \<equiv> 960"

definition newChain ::
  "'w hcs_env \<Rightarrow> consenterImpl \<Rightarrow> BlockWriter \<Rightarrow> receiver \<Rightarrow> hcs_state \<Rightarrow> 'w \<Rightarrow> (hcs_err + 'w chainImpl) go"
where
  "newChain env consenter bw cutter st w =
     (case st of (persisted, original, resubmitted, chunkFree, chunkFreeSeq) \<Rightarrow>
      go_bind (SharedConfig (bwBundle bw)) (\<lambda>oc.
      case parseConfig (heLib env) (consensusMetadata oc) (sharedHcsConfigVal consenter) of
        Inl err \<Rightarrow> Ret (Inl err)
      | Inr pc \<Rightarrow>
          (case newAppMsgProcessor (pcOperatorID pc) (Some (md5_Sum (identityVal consenter))) maxConsensusMessageSize
                  (pcReassembleTimeout pc) False of
             Inl err \<Rightarrow> Ret (Inl (AmpError err))
           | Inr amp \<Rightarrow>
               Ret (Inr
                 \<lparr>chConsenter = consenter, chWriter = bw, chCutter = cutter,
                  chLastConsensusTimestampPersisted = persisted,
                  chLastConsensusTimestamp = chunkFree,
                  chLastOrderedConsensusTimestamp = zeroTime,
                  chLastOriginalSequenceProcessed = original,
                  chLastResubmittedConfigSequence = resubmitted,
                  chLastChunkFreeConsensusTimestamp = chunkFree,
                  chLastChunkFreeSequenceProcessed = chunkFreeSeq,
                  chLastSequenceProcessed = chunkFreeSeq,
                  chLastCutBlockNumber = of_nat (length (bwLedger bw)) - 1,
                  chDoneReprocessing =
                    (if persisted = chunkFree \<and> (resubmitted = 0 \<or> resubmitted \<le> original) then Closed else Open),
                  chErrorChan = Closed, chHaltChan = Open, chDoneProcessing = None, chStartChan = Open,
                  chRequestChan = Open, chMessageHashes = [],
                  chNetwork = pcNetwork pc, chOperatorID = pcOperatorID pc, chOperatorKey = pcPrivateKey pc,
                  chPublicKeys = pcPublicKeys pc, chTopicID = pcTopicID pc,
                  chHandle = None, chSubscribedFrom = zeroTime,
                  chAmp = amp, chAppID = md5_Sum (identityVal consenter),
                  chSendTimer = None, chSendHash = [], chRecvTimer = None, chRecvBlock = 0,
                  chRetryTimer = None, chRetryTick = False, chRetryCount = 0, chRecollect = False, chWorld = w\<rparr>))))"

text \<open>
  \<open>HandleChain\<close>; the chain keeps the consenter, so the entry of the new topic is in its consenter too.  The value of
  \<open>metadata\<close> is nil when it is empty, as the decoder leaves it.
\<close>

definition HandleChain ::
  "'w hcs_env \<Rightarrow> consenterImpl \<Rightarrow> BlockWriter \<Rightarrow> receiver \<Rightarrow> Metadata \<Rightarrow> 'w \<Rightarrow> (hcs_err + 'w chainImpl) go"
where
  "HandleChain env consenter bw cutter metadata w =
     go_bind (SharedConfig (bwBundle bw)) (\<lambda>oc.
     case unHcsConfigMetadata (heLib env) (consensusMetadata oc) of
       None \<Rightarrow> Ret (Inl BadConfigMetadata)
     | Some configMetadata \<Rightarrow>
         (case TopicIDFromString (heLib env) (TopicId configMetadata) of
            None \<Rightarrow> Ret (Inl InvalidTopicID)
          | Some topicID \<Rightarrow>
              (case map_of (topicChannelMap consenter) (TopicId configMetadata) of
                 Some channelID \<Rightarrow> Ret (Inl (TopicInUse (TopicId configMetadata) channelID))
               | None \<Rightarrow>
                   go_bind (getStateFromMetadata (unHcsMetadata env)
                              (if mdValue metadata = [] then None else Some (mdValue metadata))) (\<lambda>st.
                   try_bind (newChain env consenter bw cutter st w) (\<lambda>ch.
                   Ret (Inr (ch\<lparr>chConsenter :=
                     (chConsenter ch)\<lparr>topicChannelMap :=
                       AList.update topicID (ChannelID (bwBundle bw)) (topicChannelMap consenter)\<rparr>\<rparr>)))))))"

end
