(* ===== verification/HcsMachine.thy ===== *)
theory HcsMachine
  imports HcsChain
begin

text \<open>
  The ordering service as a replicated state machine.

  \<open>machine\<close> is what all orderers of a channel have to agree on after a prefix of the topic: the blocks (headers and data,
  not the signatures), the bundle, the pending batch, the table of incomplete messages, and the counters that decide
  what happens next.  \<open>mstep\<close> is one message of the topic.  It has no clock, no network, no operator key, no timers and no
  store of chunk holders.  The chain of \<open>chain.go\<close>, in any interleaving with timers, clients, reconnections and the commits of the
  block writer, simulates it; so two orderers that have seen the same messages have the same blocks.
\<close>

section \<open>The machine\<close>

record shared_lib =
  slAmp :: amp_lib
  slLib :: hedera_lib
  slChunk :: "bytes \<Rightarrow> ApplicationMessageChunk option"
  slMessage :: "bytes \<Rightarrow> HcsMessage option"
  slCodec :: codec
  slVc :: value_codec
  slMs :: msp_setup

definition shared :: "'w hcs_env \<Rightarrow> shared_lib" where
  "shared env = \<lparr>slAmp = heAmp env, slLib = heLib env, slChunk = unChunk env, slMessage = unHcsMessage env,
     slCodec = beCodec (heBw env), slVc = beVc (heBw env), slMs = beMs (heBw env)\<rparr>"

lemma shared_sel [simp]:
  "slAmp (shared env) = heAmp env" "slLib (shared env) = heLib env" "slChunk (shared env) = unChunk env"
  "slMessage (shared env) = unHcsMessage env" "slCodec (shared env) = beCodec (heBw env)"
  "slVc (shared env) = beVc (heBw env)" "slMs (shared env) = beMs (heBw env)"
  by (simp_all add: shared_def)

type_synonym content = "BlockHeader option \<times> bytes list option"

record machine =
  mcSequence :: u64
  mcTimestamp :: time
  mcAges :: ages
  mcTimeout :: duration
  mcBundle :: Bundle
  mcPending :: "Envelope list"
  mcSize :: u32
  mcLastCut :: u64
  mcOriginal :: u64
  mcHashes :: "bytes list"
  mcBlocks :: "content list"

text \<open>The public keys that a configuration lists.\<close>

definition configKeys :: "hedera_lib \<Rightarrow> Bundle \<Rightarrow> bytes list option" where
  "configKeys hl bu =
     (case OrdererConfig_of bu of
        None \<Rightarrow> None
      | Some oc \<Rightarrow>
          (case unHcsConfigMetadata hl (consensusMetadata oc) of
             None \<Rightarrow> None
           | Some md \<Rightarrow> (case addPublicKeys hl (PublicKeys md) [] of Inl _ \<Rightarrow> None | Inr ks \<Rightarrow> Some ks)))"

definition next_block :: "codec \<Rightarrow> Envelope list \<Rightarrow> content \<Rightarrow> content go" where
  "next_block c batch prev =
     (case fst prev of
        None \<Rightarrow> Panic ''nil pointer dereference''
      | Some h \<Rightarrow>
          go_bind (marshalAll c batch) (\<lambda>data.
          Ret (Some \<lparr>Number = Number h + 1, PreviousHash = BlockHeaderHash h, DataHash = BlockDataHash data\<rparr>, Some data)))"

text \<open>The bundle after a config block with the given data.\<close>

definition next_bundle :: "shared_lib \<Rightarrow> bytes list option \<Rightarrow> Bundle \<Rightarrow> Bundle go" where
  "next_bundle sl data bu =
     (case ExtractEnvelope (slCodec sl) \<lparr>blkHeader = None, blkData = data, blkMetadata = None\<rparr> 0 of
        Inl _ \<Rightarrow> Panic ''no config envelope''
      | Inr ctx \<Rightarrow>
          (case UnmarshalPayload (slCodec sl) (slice_bytes (Envelope.Payload ctx)) of
             Inl _ \<Rightarrow> Panic ''no payload''
           | Inr payload \<Rightarrow>
               (case plHeader payload of
                  None \<Rightarrow> Panic ''no header''
                | Some header \<Rightarrow>
                    (case UnmarshalChannelHeader (slCodec sl) (slice_bytes (hdrChannelHeader header)) of
                       Inl _ \<Rightarrow> Panic ''no channel header''
                     | Inr chdr \<Rightarrow>
                         if chType chdr = HeaderType_ORDERER_TRANSACTION then Ret bu
                         else if chType chdr = HeaderType_CONFIG then
                           (case UnmarshalConfigEnvelope (slCodec sl) (plData payload) of
                              Inl _ \<Rightarrow> Panic ''no config envelope''
                            | Inr ce \<Rightarrow>
                                (case Validate (slCodec sl) (ccMspManager (buChannelConfig bu)) (buConfigtxManager bu) (Some ce) of
                                   Some _ \<Rightarrow> Panic ''not valid''
                                 | None \<Rightarrow>
                                     (case NewBundle (slVc sl) (slMs sl) (chChannelId chdr) (ceConfig ce) of
                                        Inl _ \<Rightarrow> Panic ''no bundle''
                                      | Inr new \<Rightarrow> Ret new)))
                         else Panic ''unknown header type''))))"

definition mBlock :: "shared_lib \<Rightarrow> Envelope list \<Rightarrow> machine \<Rightarrow> machine go" where
  "mBlock sl batch mc =
     go_bind (next_block (slCodec sl) batch (last (mcBlocks mc))) (\<lambda>blk.
     Ret (mc\<lparr>mcBlocks := mcBlocks mc @ [blk], mcLastCut := mcLastCut mc + 1, mcHashes := []\<rparr>))"

definition mReceiver :: "machine \<Rightarrow> receiver" where
  "mReceiver mc = \<lparr>pendingBatch = mcPending mc, pendingBatchSizeBytes = mcSize mc, PendingBatchStartTime = 0, BlockFillDuration = []\<rparr>"

definition mNormal :: "shared_lib \<Rightarrow> Envelope \<Rightarrow> u64 \<Rightarrow> bytes \<Rightarrow> machine \<Rightarrow> machine go" where
  "mNormal sl e newSeq h mc =
     (case OrdererConfig_of (mcBundle mc) of
        None \<Rightarrow> Panic ''no orderer configuration''
      | Some oc \<Rightarrow>
          (case ordered_result (opBatchSize (ocProtos oc)) e (mReceiver mc) of
             (batches, pending, q, sz) \<Rightarrow>
               let mc1 = mc\<lparr>mcPending := q, mcSize := sz\<rparr> in
               go_bind
                 (if batches = [] then Ret (mc1\<lparr>mcOriginal := newSeq\<rparr>)
                  else
                    let mc2 = (if pending \<or> length batches = 2 then mc1 else mc1\<lparr>mcOriginal := newSeq\<rparr>) in
                    go_bind (mBlock sl (batches ! 0) mc2) (\<lambda>mc3.
                    if length batches = 2 then mBlock sl (batches ! 1) (mc3\<lparr>mcOriginal := newSeq\<rparr>) else Ret mc3)) (\<lambda>mc4.
               Ret (if pending then mc4\<lparr>mcHashes := List.insert h (mcHashes mc4)\<rparr> else mc4))))"

definition mConfig :: "shared_lib \<Rightarrow> Envelope \<Rightarrow> u64 \<Rightarrow> machine \<Rightarrow> machine go" where
  "mConfig sl e newSeq mc =
     (let mc0 = mc\<lparr>mcPending := [], mcSize := 0\<rparr> in
      go_bind (if mcPending mc = [] then Ret mc0 else mBlock sl (mcPending mc) mc0) (\<lambda>mc1.
      go_bind (next_block (slCodec sl) [e] (last (mcBlocks mc1))) (\<lambda>blk.
      go_bind (next_bundle sl (snd blk) (mcBundle mc1)) (\<lambda>bu.
      Ret (mc1\<lparr>mcOriginal := newSeq, mcBlocks := mcBlocks mc1 @ [blk], mcLastCut := mcLastCut mc1 + 1, mcBundle := bu\<rparr>)))))"

definition mTimeToCut :: "shared_lib \<Rightarrow> TimeToCutRequest option \<Rightarrow> u64 \<Rightarrow> machine \<Rightarrow> (loop_result \<times> machine) go" where
  "mTimeToCut sl request sequence mc =
     (let cutBlock =
        (let mc1 = mc\<lparr>mcPending := [], mcSize := 0\<rparr> in
         if mcPending mc = [] then Ret (Exit (Some NoPendingTransactions), mc1)
         else go_bind (mBlock sl (mcPending mc) (mc1\<lparr>mcOriginal := sequence\<rparr>)) (\<lambda>mc2. Ret (Continue, mc2)))
      in case request of
           Some (BlockNumber n) \<Rightarrow>
             if n = mcLastCut mc + 1 then cutBlock
             else if n > mcLastCut mc + 1 then Ret (Exit (Some (LargerTimeToCut n (mcLastCut mc + 1))), mc)
             else Ret (Continue, mc)
         | Some (MessageHash h) \<Rightarrow> if h \<in> set (mcHashes mc) then cutBlock else Ret (Continue, mc)
         | None \<Rightarrow> Ret (Continue, mc))"

text \<open>The envelope that a regular message commits, if it is not discarded or validated again.\<close>

definition mAccept :: "shared_lib \<Rightarrow> HcsMessageRegular \<Rightarrow> machine \<Rightarrow> Envelope option" where
  "mAccept sl msg mc =
     (if OriginalSeq msg \<noteq> 0 \<and> OriginalSeq msg \<le> mcOriginal mc
         \<or> ConfigSeq msg < viSequence (buConfigtxManager (mcBundle mc))
      then None else unEnvelope (slCodec sl) (RegularPayload msg))"

definition mRegular :: "shared_lib \<Rightarrow> HcsMessageRegular \<Rightarrow> bytes \<Rightarrow> machine \<Rightarrow> machine go" where
  "mRegular sl msg h mc =
     (let newSeq = (if OriginalSeq msg = 0 then mcOriginal mc else OriginalSeq msg) in
      case (mAccept sl msg mc, MsgClass msg) of
        (Some e, NORMAL) \<Rightarrow> mNormal sl e newSeq h mc
      | (Some e, CONFIG) \<Rightarrow> mConfig sl e newSeq mc
      | _ \<Rightarrow> Ret mc)"

definition mMessage :: "shared_lib \<Rightarrow> HcsMessage \<Rightarrow> u64 \<Rightarrow> bytes \<Rightarrow> machine \<Rightarrow> (loop_result \<times> machine) go" where
  "mMessage sl msg sequence h mc =
     (case msg of
        Regular regular \<Rightarrow> go_bind (mRegular sl regular h mc) (\<lambda>mc1. Ret (Continue, mc1))
      | TimeToCut request \<Rightarrow> mTimeToCut sl request sequence mc
      | OrdererStarted identity \<Rightarrow>
          Ret (Continue, mc\<lparr>mcAges := filter (\<lambda>(k, app, cs, t). identity = [] \<or> app \<noteq> identity) (mcAges mc)\<rparr>)
      | TypeNotSet \<Rightarrow> Ret (Continue, mc))"

text \<open>The message that a message of the topic completes, and the machine before it is processed.\<close>

definition mReceive :: "shared_lib \<Rightarrow> TopicMessage \<Rightarrow> machine \<Rightarrow> ((HcsMessage \<times> bytes) option \<times> machine) go" where
  "mReceive sl resp mc =
     (if SequenceNumber resp \<noteq> mcSequence mc + 1 \<or> ConsensusTimestamp resp \<le> mcTimestamp mc then Panic ''out of order''
      else
        let mc1 = mc\<lparr>mcSequence := SequenceNumber resp, mcTimestamp := ConsensusTimestamp resp\<rparr> in
        case slChunk sl (Contents resp) of
          None \<Rightarrow> Ret (None, mc1)
        | Some chunk \<Rightarrow>
            (case configKeys (slLib sl) (mcBundle mc1) of
               None \<Rightarrow> Panic ''no keys''
             | Some keys \<Rightarrow>
                 go_bind (spec_Reassemble (slAmp sl) (verifyWith (slLib sl) keys) (mcTimeout mc1) chunk (ConsensusTimestamp resp) (mcAges mc1)) (\<lambda>(r, st).
                 Ret (if resErr r \<noteq> None then None
                      else case resMessage r of
                             None \<Rightarrow> None
                           | Some payload \<Rightarrow> map_option (\<lambda>m. (m, slice_bytes (resHash r))) (slMessage sl payload),
                      mc1\<lparr>mcAges := st\<rparr>))))"

definition mstep :: "shared_lib \<Rightarrow> TopicMessage \<Rightarrow> machine \<Rightarrow> (loop_result \<times> machine) go" where
  "mstep sl resp mc =
     go_bind (mReceive sl resp mc) (\<lambda>(m, mc1).
     case m of
       None \<Rightarrow> Ret (Continue, mc1)
     | Some (msg, h) \<Rightarrow> mMessage sl msg (SequenceNumber resp) h mc1)"

fun mrun :: "shared_lib \<Rightarrow> TopicMessage list \<Rightarrow> machine \<Rightarrow> machine go" where
  "mrun sl [] mc = Ret mc"
| "mrun sl (m # ms) mc = go_bind (mstep sl m mc) (\<lambda>(r, mc1). mrun sl ms mc1)"

section \<open>The machine of a chain\<close>

definition content :: "Block \<Rightarrow> content" where
  "content b = (blkHeader b, blkData b)"

definition blocks :: "BlockWriter \<Rightarrow> content list" where
  "blocks bw = map content (bwLedger bw) @ (if bwPending bw = None then [] else [content (bwLastBlock bw)])"

definition core :: "'w chainImpl \<Rightarrow> machine" where
  "core ch =
     \<lparr>mcSequence = chLastSequenceProcessed ch, mcTimestamp = chLastConsensusTimestamp ch, mcAges = abs_ages (chAmp ch),
      mcTimeout = reassembleTimeout (chAmp ch), mcBundle = chBundle ch, mcPending = pendingBatch (chCutter ch),
      mcSize = pendingBatchSizeBytes (chCutter ch), mcLastCut = chLastCutBlockNumber ch,
      mcOriginal = chLastOriginalSequenceProcessed ch, mcHashes = chMessageHashes ch, mcBlocks = blocks (chWriter ch)\<rparr>"

definition operatorKey :: "'w hcs_env \<Rightarrow> 'w chainImpl \<Rightarrow> bytes" where
  "operatorKey env ch = PublicKeyOf (heLib env) (chOperatorKey ch)"

text \<open>
  The invariant of a chain that is past the recollection of chunks: the store of chunks is consistent, the keys are
  those of the configuration and its own, and the last block is the one the next will point to.
\<close>

definition chain_ok :: "'w hcs_env \<Rightarrow> 'w chainImpl \<Rightarrow> bool" where
  "chain_ok env ch \<longleftrightarrow>
     amp_inv (chAmp ch) \<and> \<not> chRecollect ch
     \<and> (\<exists>keys. configKeys (heLib env) (chBundle ch) = Some keys \<and> set (chPublicKeys ch) = insert (operatorKey env ch) (set keys))
     \<and> blocks (chWriter ch) \<noteq> [] \<and> blkHeader (bwLastBlock (chWriter ch)) = fst (last (blocks (chWriter ch)))"

text \<open>The operator key of an orderer is one of the keys of the configuration.\<close>

definition operator_listed :: "'w hcs_env \<Rightarrow> 'w chainImpl \<Rightarrow> bool" where
  "operator_listed env ch =
     (case configKeys (heLib env) (chBundle ch) of None \<Rightarrow> False | Some keys \<Rightarrow> operatorKey env ch \<in> set keys)"

section \<open>The block writer\<close>

definition linked_last_block :: "BlockWriter \<Rightarrow> bool" where
  "linked_last_block bw \<longleftrightarrow> blocks bw \<noteq> [] \<and> blkHeader (bwLastBlock bw) = fst (last (blocks bw))"

lemma blocks_update [simp]:
  "blocks (bw\<lparr>bwBundle := bu\<rparr>) = blocks bw" "blocks (bw\<lparr>bwNewChains := nc\<rparr>) = blocks bw"
  by (simp_all add: blocks_def)

lemma acquire_blocks:
  assumes "acquire env bw = Ret bw'"
  shows "blocks bw' = blocks bw"
proof (cases "bwPending bw")
  case None
  with assms show ?thesis by simp
next
  case (Some cm)
  with assms obtain bw1 where c: "commitBlock env cm bw = Ret bw1" and bw': "bw' = bw1\<lparr>bwPending := None\<rparr>"
    by (auto simp: acquire_def)
  from c show ?thesis by (rule commitBlock_Ret) (simp add: bw' blocks_def Some content_def)
qed

lemma WriteBlock_blocks:
  assumes "WriteBlock env blk md bw = Ret bw'"
  shows "blocks bw' = blocks bw @ [content blk]" "bwBundle bw' = bwBundle bw" "bwLastBlock bw' = blk"
    "linked_last_block bw'" "bwPending bw' = Some md"
proof -
  from assms obtain bw1 where a: "acquire env bw = Ret bw1"
    and bw': "bw' = bw1\<lparr>bwLastBlock := blk, bwPending := Some md\<rparr>" by (auto simp: WriteBlock_def)
  have "blocks bw1 = map content (bwLedger bw1)" using acquire_keeps(1) [OF a] by (simp add: blocks_def)
  then show b: "blocks bw' = blocks bw @ [content blk]" using acquire_blocks [OF a] by (simp add: bw' blocks_def)
  show "bwBundle bw' = bwBundle bw" "bwLastBlock bw' = blk" "bwPending bw' = Some md"
    using acquire_keeps(2) [OF a] by (simp_all add: bw')
  then show "linked_last_block bw'" by (simp add: linked_last_block_def b content_def)
qed

lemma CreateNextBlock_content:
  assumes "linked_last_block bw" and "CreateNextBlock env batch bw = Ret blk"
  shows "next_block (beCodec env) batch (last (blocks bw)) = Ret (content blk)"
  using assms
  by (auto simp: linked_last_block_def CreateNextBlock_def next_block_def NewBlock_def content_def Let_def split: option.splits)

lemma WriteConfigBlock_bundle:
  assumes w: "WriteConfigBlock (heBw env) blk md bw = Ret bw'"
  shows "next_bundle (shared env) (blkData blk) (bwBundle bw) = Ret (bwBundle bw')"
    "blocks bw' = blocks bw @ [content blk]" "linked_last_block bw'"
proof -
  have ex: "ExtractEnvelope c \<lparr>blkHeader = None, blkData = blkData blk, blkMetadata = None\<rparr> i = ExtractEnvelope c blk i" for c i
    by (simp add: ExtractEnvelope_def)
  have "next_bundle (shared env) (blkData blk) (bwBundle bw) = Ret (bwBundle bw')
      \<and> blocks bw' = blocks bw @ [content blk] \<and> linked_last_block bw'"
  proof -
    obtain ctx payload header chdr where
      d: "ExtractEnvelope (beCodec (heBw env)) blk 0 = Inr ctx"
        "UnmarshalPayload (beCodec (heBw env)) (slice_bytes (Envelope.Payload ctx)) = Inr payload"
        "plHeader payload = Some header" "UnmarshalChannelHeader (beCodec (heBw env)) (slice_bytes (hdrChannelHeader header)) = Inr chdr"
      using w by (auto simp: WriteConfigBlock_def split: sum.splits option.splits)
    note w' = w [unfolded WriteConfigBlock_def d sum.case option.case]
    show ?thesis
    proof (cases "chType chdr = HeaderType_ORDERER_TRANSACTION")
      case True
      from w' True obtain e where wb: "WriteBlock (heBw env) blk md (bw\<lparr>bwNewChains := bwNewChains bw @ [e]\<rparr>) = Ret bw'"
        by (auto split: sum.splits)
      from WriteBlock_blocks [OF wb] True show ?thesis by (simp add: next_bundle_def ex d)
    next
      case False
      with w' have cfg: "chType chdr = HeaderType_CONFIG" by (auto split: if_splits)
      from w' False cfg obtain bu md' bw1 bw2 where
        n: "newConfig (heBw env) chdr (plData payload) md bw = Ret (bu, md')" and a: "acquire (heBw env) bw = Ret bw1"
        and u: "Update bu bw1 = Ret bw2" and wb: "WriteBlock (heBw env) blk md' bw2 = Ret bw'"
        by auto
      have bw2: "bw2 = bw1\<lparr>bwBundle := bu\<rparr>" using u by (auto simp: Update_def split: option.splits)
      have "blocks bw2 = blocks bw" using acquire_blocks [OF a] by (simp add: bw2)
      moreover have "next_bundle (shared env) (blkData blk) (bwBundle bw) = Ret bu"
        using n False cfg by (auto simp: next_bundle_def ex d newConfig_def split: sum.splits option.splits)
      ultimately show ?thesis using WriteBlock_blocks [OF wb] by (simp add: bw2)
    qed
  qed
  then show "next_bundle (shared env) (blkData blk) (bwBundle bw) = Ret (bwBundle bw')"
    "blocks bw' = blocks bw @ [content blk]" "linked_last_block bw'" by simp_all
qed

section \<open>Frames\<close>

text \<open>What sending changes of a chain, and what a request to the timers changes.\<close>

definition sent :: "'w chainImpl \<Rightarrow> 'w chainImpl \<Rightarrow> bool" where
  "sent ch ch' \<longleftrightarrow>
     (\<exists>con w st sh. ch' = ch\<lparr>chConsenter := con, chSendTimer := st, chSendHash := sh, chWorld := w\<rparr>)"

lemma sent_refl [simp]: "sent ch ch"
  unfolding sent_def by (rule exI [of _ "chConsenter ch"], rule exI [of _ "chWorld ch"], rule exI [of _ "chSendTimer ch"],
    rule exI [of _ "chSendHash ch"]) simp

lemma sent_trans [trans]: "sent a b \<Longrightarrow> sent b c \<Longrightarrow> sent a c"
  unfolding sent_def by (elim exE) (simp, blast)

lemma sent_update [simp]:
  "sent ch (ch\<lparr>chWorld := w\<rparr>)" "sent ch (ch\<lparr>chConsenter := con\<rparr>)" "sent ch (ch\<lparr>chSendTimer := st\<rparr>)"
  "sent ch (ch\<lparr>chSendTimer := st, chSendHash := h\<rparr>)"
  unfolding sent_def by (cases ch, simp)+

lemma sent_core:
  assumes "sent ch ch'"
  shows "core ch' = core ch" "chain_ok env ch' \<longleftrightarrow> chain_ok env ch" "operator_listed env ch' \<longleftrightarrow> operator_listed env ch"
    "chRecvTimer ch' = chRecvTimer ch" "chRecvBlock ch' = chRecvBlock ch" "chDoneProcessing ch' = chDoneProcessing ch"
    "chRequestChan ch' = chRequestChan ch"
  using assms by (auto simp: sent_def core_def chain_ok_def operator_listed_def operatorKey_def split: option.splits)

lemma readClock_sent: "readClock env ch = (now, ch') \<Longrightarrow> sent ch ch'"
  by (auto simp: readClock_def split: prod.splits)

lemma chain_validStart_sent: "chain_validStart t ch = (v, ch') \<Longrightarrow> sent ch ch'"
  by (auto simp: chain_validStart_def split: prod.splits)

lemma msgEnv_sent: "msgEnv env ch = (me, ch') \<Longrightarrow> sent ch ch'"
  by (auto simp: msgEnv_def split: prod.splits)

lemma submitAttempts_sent: "submitAttempts env n chunk err ch = Ret (e, ch') \<Longrightarrow> sent ch ch'"
proof (induction n arbitrary: err ch)
  case 0
  then show ?case by simp
next
  case (Suc n)
  obtain now ch1 where 1: "readClock env ch = (now, ch1)" by fastforce
  obtain v ch2 where 2: "chain_validStart (now 0 - tenSeconds) ch1 = (v, ch2)" by fastforce
  have s: "sent ch ch2" by (rule sent_trans [OF readClock_sent [OF 1] chain_validStart_sent [OF 2]])
  obtain b where b: "maChunk env chunk = Some b" using Suc.prems 1 2 by (cases "maChunk env chunk") simp_all
  obtain x w where x: "heSubmit env b (chTopicID ch2) \<lparr>tiAccountID = chOperatorID ch2, tiValidStart = v\<rparr> (chWorld ch2) = (x, w)"
    by fastforce
  have sw: "sent ch (ch2\<lparr>chWorld := w\<rparr>)" by (rule sent_trans [OF s sent_update(1)])
  note step = Suc.prems [unfolded submitAttempts.simps 1 2 b x prod.case option.case]
  show ?case
  proof (cases x)
    case None
    with step sw show ?thesis by auto
  next
    case (Some er)
    show ?thesis
    proof (cases "retryable er")
      case True
      with step Some have "submitAttempts env n chunk (Some er) (ch2\<lparr>chWorld := w\<rparr>) = Ret (e, ch')" by simp
      from sent_trans [OF sw Suc.IH [OF this]] show ?thesis .
    next
      case False
      with step Some sw show ?thesis by auto
    qed
  qed
qed

lemma submitChunks_sent: "submitChunks env cs ch = Ret (ok, ch') \<Longrightarrow> sent ch ch'"
proof (induction cs arbitrary: ch)
  case Nil
  then show ?case by simp
next
  case (Cons c cs)
  then obtain e ch1 where 1: "submitAttempts env 3 c None ch = Ret (e, ch1)"
    and 2: "(if e \<noteq> None then Ret (False, ch1) else submitChunks env cs ch1) = Ret (ok, ch')" by auto
  show ?case
  proof (cases e)
    case None
    with 2 Cons.IH [of ch1] sent_trans [OF submitAttempts_sent [OF 1]] show ?thesis by simp
  next
    case (Some x)
    with 2 submitAttempts_sent [OF 1] show ?thesis by simp
  qed
qed

lemma enqueueChecked_sent:
  assumes "enqueueChecked env m ch = Ret (r, ch')"
  shows "sent ch ch'"
proof (cases "maHcsMessage env m")
  case None
  with assms show ?thesis by (simp add: enqueueChecked_def)
next
  case (Some payload)
  obtain now ch1 where 1: "readClock env ch = (now, ch1)" by fastforce
  obtain v ch2 where 2: "chain_validStart (now 0 - tenSeconds) ch1 = (v, ch2)" by fastforce
  have s: "sent ch ch2" by (rule sent_trans [OF readClock_sent [OF 1] chain_validStart_sent [OF 2]])
  from assms obtain x where x: "Split (heAmp env) (chain_Sign env ch2) (Some payload) v (chAmp ch2) = Ret x"
    by (auto simp: enqueueChecked_def Some 1 2)
  show ?thesis
  proof (cases x)
    case (Inl e)
    with assms x s show ?thesis by (simp add: enqueueChecked_def Some 1 2)
  next
    case (Inr y)
    obtain parts h where y: "y = (parts, h)" by (cases y)
    from assms x Inr y obtain ok where "submitChunks env parts ch2 = Ret (ok, ch')"
      by (auto simp: enqueueChecked_def Some 1 2 split: if_splits)
    with sent_trans [OF s submitChunks_sent] show ?thesis .
  qed
qed

lemma enqueue_sent: "enqueue env m ch = Ret (r, ch') \<Longrightarrow> sent ch ch'"
  by (auto simp: enqueue_def dest: enqueueChecked_sent split: latch.splits)

lemma sendTimeToCut_sent: "sendTimeToCut env m ch = Ret (r, ch') \<Longrightarrow> sent ch ch'"
  by (auto simp: sendTimeToCut_def dest: enqueue_sent)

lemma hash_request_sent:
  assumes "handleTimeToCutRequest rq ch = Ret ch'" and "ttcMessageHash rq = Some h"
  shows "sent ch ch'"
  using assms by (auto simp: handleTimeToCutRequest_def split: if_splits)

lemma order_sent:
  assumes "order env e s o1 ch = Ret (r, ch')"
  shows "sent ch ch'"
proof (cases "maEnvelope (meCodec (heMsg env)) e")
  case None
  with assms show ?thesis by (simp add: order_def)
next
  case (Some b)
  with assms obtain ok h ch1 where q: "enqueue env (newNormalMessage b s o1) ch = Ret ((ok, h), ch1)"
    and rq: "(if h \<noteq> None then handleTimeToCutRequest \<lparr>ttcStart = False, ttcNextBlockNumber = 0, ttcMessageHash = h\<rparr> ch1 else Ret ch1) = Ret ch'"
    by (auto simp: order_def)
  have "sent ch1 ch'" using rq hash_request_sent [of _ ch1 ch'] by (cases h) auto
  with sent_trans [OF enqueue_sent [OF q]] show ?thesis .
qed

lemma configure_sent:
  assumes "configure env e s o1 ch = Ret (r, ch')"
  shows "sent ch ch'"
  using assms by (auto simp: configure_def dest: enqueue_sent split: option.splits)

lemmas sending = readClock_sent chain_validStart_sent msgEnv_sent enqueueChecked_sent enqueue_sent sendTimeToCut_sent order_sent configure_sent

section \<open>Writing blocks\<close>

lemma stop_request:
  assumes "handleTimeToCutRequest \<lparr>ttcStart = False, ttcNextBlockNumber = n, ttcMessageHash = None\<rparr> ch = Ret ch'"
  shows "ch' = ch\<lparr>chRecvTimer := None\<rparr>" "chRequestChan ch = Open"
  using assms by (cases ch; auto simp: handleTimeToCutRequest_def split: if_splits latch.splits; metis latch.exhaust)+

lemma start_request:
  assumes "handleTimeToCutRequest \<lparr>ttcStart = True, ttcNextBlockNumber = n, ttcMessageHash = None\<rparr> ch = Ret ch'"
  obtains t where "ch' = ch\<lparr>chRecvTimer := Some t, chRecvBlock := (if chRecvTimer ch = None then n else chRecvBlock ch)\<rparr>"
proof (cases "chRecvTimer ch")
  case None
  with assms obtain oc where oc: "SharedConfig (chBundle ch) = Ret oc"
    by (auto simp: handleTimeToCutRequest_def split: if_splits)
  with assms None have "ch' = ch\<lparr>chRecvTimer := Some (ocBatchTimeout oc), chRecvBlock := n\<rparr>"
    by (simp add: handleTimeToCutRequest_def split: if_splits)
  with that [of "ocBatchTimeout oc"] None show ?thesis by simp
next
  case (Some t)
  with assms have "ch' = ch" by (auto simp: handleTimeToCutRequest_def split: if_splits)
  with that [of t] Some show ?thesis by (cases ch) simp
qed

lemma chain_WriteBlock_Ret:
  assumes "chain_WriteBlock env blk isConfig ts ch = Ret ch'"
  obtains md bw tsp usp where
    "if isConfig then WriteConfigBlock (heBw env) blk md (chWriter ch) = Ret bw else WriteBlock (heBw env) blk md (chWriter ch) = Ret bw"
    "TimestampProto ts = Some tsp" "TimestampProto (chLastChunkFreeConsensusTimestamp ch) = Some usp"
    "maHcsMetadata env (newHcsMetadata tsp (chLastOriginalSequenceProcessed ch) (chLastResubmittedConfigSequence ch) usp
       (chLastChunkFreeSequenceProcessed ch)) = Some md"
    "chRequestChan ch = Open"
    "ch' = ch\<lparr>chWriter := bw, chLastCutBlockNumber := chLastCutBlockNumber ch + 1,
       chMessageHashes := (if isConfig then chMessageHashes ch else []), chRecvTimer := None\<rparr>"
proof -
  define ch1 where "ch1 = (if \<not> isConfig then ch\<lparr>chMessageHashes := []\<rparr> else ch)"
  from assms obtain ch2 where 2: "handleTimeToCutRequest \<lparr>ttcStart = False, ttcNextBlockNumber = 0, ttcMessageHash = None\<rparr> ch1 = Ret ch2"
    by (auto simp: chain_WriteBlock_def Let_def ch1_def)
  note s = stop_request [OF 2]
  have f: "chWriter ch1 = chWriter ch" "chLastChunkFreeConsensusTimestamp ch1 = chLastChunkFreeConsensusTimestamp ch"
    "chLastOriginalSequenceProcessed ch1 = chLastOriginalSequenceProcessed ch" "chRequestChan ch1 = chRequestChan ch"
    "chLastResubmittedConfigSequence ch1 = chLastResubmittedConfigSequence ch" "chLastCutBlockNumber ch1 = chLastCutBlockNumber ch"
    "chLastChunkFreeSequenceProcessed ch1 = chLastChunkFreeSequenceProcessed ch" by (simp_all add: ch1_def)
  from assms 2 obtain tsp usp md bw where
    w: "(if \<not> isConfig then WriteBlock (heBw env) blk md (chWriter ch) else WriteConfigBlock (heBw env) blk md (chWriter ch)) = Ret bw"
    and t: "TimestampProto ts = Some tsp" "TimestampProto (chLastChunkFreeConsensusTimestamp ch) = Some usp"
      "maHcsMetadata env (newHcsMetadata tsp (chLastOriginalSequenceProcessed ch) (chLastResubmittedConfigSequence ch) usp
         (chLastChunkFreeSequenceProcessed ch)) = Some md"
    and ch': "ch' = ch1\<lparr>chRecvTimer := None, chLastCutBlockNumber := chLastCutBlockNumber ch + 1, chWriter := bw\<rparr>"
    unfolding chain_WriteBlock_def Let_def ch1_def [symmetric] by (cases isConfig) (auto simp: s(1) f timestampProtoOrPanic_Ret)
  show thesis
  proof (rule that [OF _ t])
    show "if isConfig then WriteConfigBlock (heBw env) blk md (chWriter ch) = Ret bw else WriteBlock (heBw env) blk md (chWriter ch) = Ret bw"
      using w by (simp split: if_splits)
    show "chRequestChan ch = Open" using s(2) f(4) by simp
    show "ch' = ch\<lparr>chWriter := bw, chLastCutBlockNumber := chLastCutBlockNumber ch + 1,
       chMessageHashes := (if isConfig then chMessageHashes ch else []), chRecvTimer := None\<rparr>"
      unfolding ch' ch1_def by (cases ch) simp
  qed
qed

lemma chain_ok_linked: "chain_ok env ch \<Longrightarrow> linked_last_block (chWriter ch)"
  by (simp add: chain_ok_def linked_last_block_def)

text \<open>A block of normal messages; \<open>chain_ok\<close> holds again, and the block is the machine's.\<close>

lemma write_normal_sim:
  assumes ok: "chain_ok env ch" and c: "CreateNextBlock (heBw env) batch (chWriter ch) = Ret blk"
    and w: "chain_WriteBlock env blk False ts ch = Ret ch'"
  shows "mBlock (shared env) batch (core ch) = Ret (core ch')" "chain_ok env ch'" "chRecvTimer ch' = None"
    "chHandle ch' = chHandle ch \<and> chDoneProcessing ch' = chDoneProcessing ch"
proof -
  from w obtain md bw where wb: "WriteBlock (heBw env) blk md (chWriter ch) = Ret bw"
    and ch': "ch' = ch\<lparr>chWriter := bw, chLastCutBlockNumber := chLastCutBlockNumber ch + 1, chMessageHashes := [], chRecvTimer := None\<rparr>"
    by (rule chain_WriteBlock_Ret) simp
  note B = WriteBlock_blocks [OF wb]
  have "next_block (slCodec (shared env)) batch (last (blocks (chWriter ch))) = Ret (content blk)"
    using CreateNextBlock_content [OF chain_ok_linked [OF ok] c] by simp
  then show "mBlock (shared env) batch (core ch) = Ret (core ch')"
    by (simp add: mBlock_def core_def ch' B(1,2))
  show "chain_ok env ch'"
    using ok B(1,2,4) by (simp add: chain_ok_def ch' linked_last_block_def operatorKey_def)
  show "chRecvTimer ch' = None" "chHandle ch' = chHandle ch \<and> chDoneProcessing ch' = chDoneProcessing ch"
    by (simp_all add: ch')
qed

text \<open>
  The timer of the receiving side runs only for the next block and while messages are pending, and a message is waited for
  only while messages are pending.
\<close>

definition timer_ok :: "'w chainImpl \<Rightarrow> bool" where
  "timer_ok ch \<longleftrightarrow>
     (chRecvTimer ch \<noteq> None \<longrightarrow> chRecvBlock ch = chLastCutBlockNumber ch + 1 \<and> pendingBatch (chCutter ch) \<noteq> [])
     \<and> (chMessageHashes ch \<noteq> [] \<longrightarrow> pendingBatch (chCutter ch) \<noteq> [])"

lemma ordered_shape:
  assumes "ordered_result b m r = (batches, pending, q, sz)"
  shows "length batches \<le> 2" "pending \<longleftrightarrow> q \<noteq> []" "batches = [] \<Longrightarrow> pending"
  using assms by (auto simp: ordered_result_def Let_def split: if_splits)

abbreviation advance :: "u64 \<Rightarrow> time \<Rightarrow> 'w chainImpl \<Rightarrow> 'w chainImpl" where
  "advance newSeq ts ch \<equiv> ch\<lparr>chLastOriginalSequenceProcessed := newSeq, chLastOrderedConsensusTimestamp := ts\<rparr>"

lemma chain_ok_update [simp]:
  "chain_ok env (ch\<lparr>chLastOriginalSequenceProcessed := s\<rparr>) = chain_ok env ch"
  "chain_ok env (ch\<lparr>chLastOrderedConsensusTimestamp := t\<rparr>) = chain_ok env ch"
  "chain_ok env (ch\<lparr>chCutter := r\<rparr>) = chain_ok env ch"
  "chain_ok env (ch\<lparr>chMessageHashes := hs\<rparr>) = chain_ok env ch"
  "chain_ok env (ch\<lparr>chRecvTimer := rt\<rparr>) = chain_ok env ch"
  "chain_ok env (ch\<lparr>chRecvBlock := rb\<rparr>) = chain_ok env ch"
  "chain_ok env (ch\<lparr>chWorld := w\<rparr>) = chain_ok env ch"
  "chain_ok env (ch\<lparr>chDoneReprocessing := l\<rparr>) = chain_ok env ch"
  "chain_ok env (ch\<lparr>chLastResubmittedConfigSequence := s\<rparr>) = chain_ok env ch"
  by (simp_all add: chain_ok_def operatorKey_def)

lemma core_update [simp]:
  "core (ch\<lparr>chLastOriginalSequenceProcessed := s\<rparr>) = (core ch)\<lparr>mcOriginal := s\<rparr>"
  "core (ch\<lparr>chLastOrderedConsensusTimestamp := t\<rparr>) = core ch"
  "core (ch\<lparr>chCutter := r\<rparr>) = (core ch)\<lparr>mcPending := pendingBatch r, mcSize := pendingBatchSizeBytes r\<rparr>"
  "core (ch\<lparr>chMessageHashes := hs\<rparr>) = (core ch)\<lparr>mcHashes := hs\<rparr>"
  "core (ch\<lparr>chRecvTimer := rt\<rparr>) = core ch"
  "core (ch\<lparr>chRecvBlock := rb\<rparr>) = core ch"
  "core (ch\<lparr>chWorld := w\<rparr>) = core ch"
  "core (ch\<lparr>chDoneReprocessing := l\<rparr>) = core ch"
  "core (ch\<lparr>chLastResubmittedConfigSequence := s\<rparr>) = core ch"
  by (simp_all add: core_def)

lemma core_sel [simp]:
  "mcPending (core ch) = pendingBatch (chCutter ch)" "mcSize (core ch) = pendingBatchSizeBytes (chCutter ch)"
  "mcBundle (core ch) = chBundle ch" "mcLastCut (core ch) = chLastCutBlockNumber ch" "mcHashes (core ch) = chMessageHashes ch"
  "mcOriginal (core ch) = chLastOriginalSequenceProcessed ch" "mcBlocks (core ch) = blocks (chWriter ch)"
  "mcAges (core ch) = abs_ages (chAmp ch)" "mcTimeout (core ch) = reassembleTimeout (chAmp ch)"
  "mcSequence (core ch) = chLastSequenceProcessed ch" "mcTimestamp (core ch) = chLastConsensusTimestamp ch"
  by (simp_all add: core_def)

lemma chain_WriteBlock_keeps: "chain_WriteBlock env blk c ts ch = Ret ch' \<Longrightarrow> chCutter ch' = chCutter ch"
  by (erule chain_WriteBlock_Ret) simp

text \<open>The blocks of the batches that a message fills.\<close>

lemma commit_batches:
  assumes ok: "chain_ok env ch" and n: "length batches \<le> 2"
    and run: "(if length batches = 0 then Ret (advance newSeq ts ch)
         else
           let ch2 = (if pending \<or> length batches = 2 then ch else advance newSeq ts ch) in
           go_bind (CreateNextBlock (heBw env) (batches ! 0) (chWriter ch2)) (\<lambda>block.
           go_bind (chain_WriteBlock env block False (chLastOrderedConsensusTimestamp ch2) ch2) (\<lambda>ch3.
           if length batches = 2 then
             let ch4 = advance newSeq ts ch3 in
             go_bind (CreateNextBlock (heBw env) (batches ! 1) (chWriter ch4)) (\<lambda>block2.
             chain_WriteBlock env block2 False (chLastOrderedConsensusTimestamp ch4) ch4)
           else Ret ch3))) = Ret ch5"
  shows "(if batches = [] then Ret ((core ch)\<lparr>mcOriginal := newSeq\<rparr>)
          else
            let mc2 = (if pending \<or> length batches = 2 then core ch else (core ch)\<lparr>mcOriginal := newSeq\<rparr>) in
            go_bind (mBlock (shared env) (batches ! 0) mc2) (\<lambda>mc3.
            if length batches = 2 then mBlock (shared env) (batches ! 1) (mc3\<lparr>mcOriginal := newSeq\<rparr>) else Ret mc3)) = Ret (core ch5)
     \<and> chain_ok env ch5 \<and> (batches = [] \<longrightarrow> ch5 = advance newSeq ts ch)
     \<and> chCutter ch5 = chCutter ch \<and> (batches \<noteq> [] \<longrightarrow> chRecvTimer ch5 = None \<and> chMessageHashes ch5 = [])"
proof (cases "batches = []")
  case True
  with run ok show ?thesis by auto
next
  case False
  define ch2 where "ch2 = (if pending \<or> length batches = 2 then ch else advance newSeq ts ch)"
  have ok2: "chain_ok env ch2" using ok by (simp add: ch2_def)
  have c2: "core ch2 = (if pending \<or> length batches = 2 then core ch else (core ch)\<lparr>mcOriginal := newSeq\<rparr>)"
    by (simp add: ch2_def)
  from run False obtain blk ch3 where
    b: "CreateNextBlock (heBw env) (batches ! 0) (chWriter ch2) = Ret blk"
    and w: "chain_WriteBlock env blk False (chLastOrderedConsensusTimestamp ch2) ch2 = Ret ch3"
    and rest: "(if length batches = 2 then
             go_bind (CreateNextBlock (heBw env) (batches ! 1) (chWriter (advance newSeq ts ch3))) (\<lambda>block2.
             chain_WriteBlock env block2 False (chLastOrderedConsensusTimestamp (advance newSeq ts ch3)) (advance newSeq ts ch3))
           else Ret ch3) = Ret ch5"
    unfolding ch2_def [symmetric] Let_def by auto
  note 3 = write_normal_sim [OF ok2 b w]
  have h3: "chMessageHashes ch3 = []" by (rule chain_WriteBlock_Ret [OF w]) simp
  have k3: "chCutter ch3 = chCutter ch" using chain_WriteBlock_keeps [OF w] by (simp add: ch2_def)
  show ?thesis
  proof (cases "length batches = 2")
    case False
    with rest 3 h3 k3 \<open>batches \<noteq> []\<close> c2 show ?thesis by (simp split: if_splits)
  next
    case True
    with rest obtain blk2 where b2: "CreateNextBlock (heBw env) (batches ! 1) (chWriter (advance newSeq ts ch3)) = Ret blk2"
      and w2: "chain_WriteBlock env blk2 False ts (advance newSeq ts ch3) = Ret ch5" by auto
    have "chain_ok env (advance newSeq ts ch3)" using 3(2) by simp
    note 5 = write_normal_sim [OF this b2 w2]
    have "chMessageHashes ch5 = []" by (rule chain_WriteBlock_Ret [OF w2]) simp
    with 3 5 True k3 chain_WriteBlock_keeps [OF w2] \<open>batches \<noteq> []\<close> c2 show ?thesis by simp
  qed
qed

lemma ordered_result_core: "ordered_result b m (mReceiver (core ch)) = ordered_result b m (chCutter ch)"
  by (simp add: ordered_result_def mReceiver_def Let_def)

lemma commitNormal_sim:
  assumes ok: "chain_ok env ch" and run: "commitNormalMessage env e ts newSeq h ch = Ret ch'"
  shows "mNormal (shared env) e newSeq (slice_bytes h) (core ch) = Ret (core ch')" "chain_ok env ch'"
    "timer_ok ch \<Longrightarrow> timer_ok ch'"
proof -
  obtain now ch0 where 0: "readClock env ch = (now, ch0)" by fastforce
  note s0 = sent_core [OF readClock_sent [OF 0]]
  have f0: "chBundle ch0 = chBundle ch" "chCutter ch0 = chCutter ch" "chRecvTimer ch0 = chRecvTimer ch"
      "chLastCutBlockNumber ch0 = chLastCutBlockNumber ch" "chRecvBlock ch0 = chRecvBlock ch" "chMessageHashes ch0 = chMessageHashes ch"
    using readClock_sent [OF 0] by (auto simp: sent_def)
  from run obtain batches pending r ch5 where
    o: "Ordered (map_option (\<lambda>oc. opBatchSize (ocProtos oc)) (OrdererConfig_of (chBundle ch))) now e (chCutter ch) = Ret (batches, pending, r)"
    and c5: "(let ch1 = ch0\<lparr>chCutter := r\<rparr> in
        (if length batches = 0 then Ret (advance newSeq ts ch1)
         else
           let ch2 = (if pending \<or> length batches = 2 then ch1 else advance newSeq ts ch1) in
           go_bind (CreateNextBlock (heBw env) (batches ! 0) (chWriter ch2)) (\<lambda>block.
           go_bind (chain_WriteBlock env block False (chLastOrderedConsensusTimestamp ch2) ch2) (\<lambda>ch3.
           if length batches = 2 then
             let ch4 = advance newSeq ts ch3 in
             go_bind (CreateNextBlock (heBw env) (batches ! 1) (chWriter ch4)) (\<lambda>block2.
             chain_WriteBlock env block2 False (chLastOrderedConsensusTimestamp ch4) ch4)
           else Ret ch3)))) = Ret ch5"
    and fin: "(if pending then
        go_bind (handleTimeToCutRequest
                   \<lparr>ttcStart = True, ttcNextBlockNumber = chLastCutBlockNumber ch5 + 1, ttcMessageHash = None\<rparr> ch5) (\<lambda>ch6.
        Ret (ch6\<lparr>chMessageHashes := List.insert (slice_bytes h) (chMessageHashes ch6)\<rparr>))
      else Ret ch5) = Ret ch'"
    unfolding commitNormalMessage_def 0 prod.case f0 [symmetric] Let_def by auto
  from o obtain b where cfg: "map_option (\<lambda>oc. opBatchSize (ocProtos oc)) (OrdererConfig_of (chBundle ch)) = Some b"
    and rs: "batches = fst (ordered_result b e (chCutter ch))" "pending = fst (snd (ordered_result b e (chCutter ch)))"
      "pendingBatch r = fst (snd (snd (ordered_result b e (chCutter ch))))"
      "pendingBatchSizeBytes r = snd (snd (snd (ordered_result b e (chCutter ch))))" by (rule Ordered_cases)
  from cfg obtain oc where oc: "OrdererConfig_of (chBundle ch) = Some oc" "b = opBatchSize (ocProtos oc)" by auto
  have res: "ordered_result b e (chCutter ch) = (batches, pending, pendingBatch r, pendingBatchSizeBytes r)"
    by (simp add: rs)
  note sh = ordered_shape [OF res]
  have "chain_ok env (ch0\<lparr>chCutter := r\<rparr>)" using s0(2) ok by simp
  note B = commit_batches [OF this sh(1) c5 [unfolded Let_def [where s = "ch0\<lparr>chCutter := r\<rparr>"]]]
  have core1: "core (ch0\<lparr>chCutter := r\<rparr>) = (core ch)\<lparr>mcPending := pendingBatch r, mcSize := pendingBatchSizeBytes r\<rparr>"
    using s0(1) by simp
  have mN: "mNormal (shared env) e newSeq (slice_bytes h) (core ch)
      = Ret (if pending then (core ch5)\<lparr>mcHashes := List.insert (slice_bytes h) (mcHashes (core ch5))\<rparr> else core ch5)"
    using B [THEN conjunct1, unfolded core1]
    unfolding mNormal_def core_sel(3) oc(1) option.case oc(2) [symmetric] ordered_result_core res prod.case
    by (simp only: Let_def go_bind.simps)
  show "chain_ok env ch'" "mNormal (shared env) e newSeq (slice_bytes h) (core ch) = Ret (core ch')"
    "timer_ok ch \<Longrightarrow> timer_ok ch'"
  proof -
    have "chain_ok env ch' \<and> core ch' = (if pending then (core ch5)\<lparr>mcHashes := List.insert (slice_bytes h) (mcHashes (core ch5))\<rparr> else core ch5)
        \<and> (timer_ok ch \<longrightarrow> timer_ok ch')"
    proof (cases pending)
      case True
      with fin obtain ch6 where rq: "handleTimeToCutRequest
             \<lparr>ttcStart = True, ttcNextBlockNumber = chLastCutBlockNumber ch5 + 1, ttcMessageHash = None\<rparr> ch5 = Ret ch6"
        and ch': "ch' = ch6\<lparr>chMessageHashes := List.insert (slice_bytes h) (chMessageHashes ch6)\<rparr>" by auto
      define m where "m = (if chRecvTimer ch5 = None then chLastCutBlockNumber ch5 + 1 else chRecvBlock ch5)"
      obtain t where ch6: "ch6 = ch5\<lparr>chRecvTimer := Some t, chRecvBlock := m\<rparr>"
        unfolding m_def by (rule start_request [OF rq])
      have "timer_ok ch \<Longrightarrow> m = chLastCutBlockNumber ch5 + 1"
        using B f0 unfolding m_def by (cases "chRecvTimer ch5"; cases "batches = []") (auto simp: timer_ok_def)
      with B True sh(2) ok show ?thesis by (simp add: ch' ch6 timer_ok_def)
    next
      case False
      with sh(3) have "batches \<noteq> []" by auto
      with False fin B show ?thesis by (simp add: timer_ok_def)
    qed
    with mN show "chain_ok env ch'" "mNormal (shared env) e newSeq (slice_bytes h) (core ch) = Ret (core ch')"
      "timer_ok ch \<Longrightarrow> timer_ok ch'" by simp_all
  qed
qed

section \<open>Config messages\<close>

lemma addPublicKeys_acc:
  assumes "addPublicKeys hl pks acc = Inr ks"
  shows "\<exists>ks0. addPublicKeys hl pks acc0 = Inr ks0 \<and> set ks \<union> set acc0 = set ks0 \<union> set acc"
  using assms
proof (induction pks arbitrary: acc acc0)
  case Nil
  then show ?case by auto
next
  case (Cons k pks)
  from Cons.prems obtain pk where k: "KeyType k = ''ed25519''" "PublicKeyFromString hl (KeyString k) = Some pk"
    and r: "addPublicKeys hl pks (List.insert pk acc) = Inr ks" by (auto split: if_splits option.splits)
  from Cons.IH [OF r, of "List.insert pk acc0"] obtain ks0 where
    0: "addPublicKeys hl pks (List.insert pk acc0) = Inr ks0" "set ks \<union> insert pk (set acc0) = set ks0 \<union> insert pk (set acc)"
    by auto
  have "set acc \<union> {pk} \<subseteq> set ks" "set acc0 \<union> {pk} \<subseteq> set ks0"
  proof -
    have mono: "addPublicKeys hl pks a = Inr b \<Longrightarrow> set a \<subseteq> set b" for pks a b
      by (induction pks arbitrary: a) (force split: if_splits option.splits)+
    show "set acc \<union> {pk} \<subseteq> set ks" "set acc0 \<union> {pk} \<subseteq> set ks0" using mono [OF r] mono [OF 0(1)] by auto
  qed
  with 0 k show ?case by auto
qed

lemma addPublicKeys_mono: "addPublicKeys hl pks acc = Inr ks \<Longrightarrow> set acc \<subseteq> set ks"
  by (induction pks arbitrary: acc) (force split: if_splits option.splits)+

lemma getPublicKeys_config:
  assumes "getPublicKeys hl pks mine = Inr ks"
  obtains ks0 where "addPublicKeys hl pks [] = Inr ks0" "set ks = insert mine (set ks0)"
  using addPublicKeys_acc [OF assms [unfolded getPublicKeys_def], of "[]"] addPublicKeys_mono [OF assms [unfolded getPublicKeys_def]]
  by auto

lemma reparse_Ret:
  assumes "reparsePublicKeys env ch = Ret ch'"
  obtains keys ks where "configKeys (heLib env) (chBundle ch) = Some keys" "ch' = ch\<lparr>chPublicKeys := ks\<rparr>"
    "set ks = insert (operatorKey env ch) (set keys)"
proof -
  from assms obtain oc md ks where oc: "OrdererConfig_of (chBundle ch) = Some oc"
      "unHcsConfigMetadata (heLib env) (consensusMetadata oc) = Some md"
    and ks: "getPublicKeys (heLib env) (PublicKeys md) (operatorKey env ch) = Inr ks" and ch': "ch' = ch\<lparr>chPublicKeys := ks\<rparr>"
    by (auto simp: reparsePublicKeys_def SharedConfig_def operatorKey_def split: option.splits sum.splits)
  obtain keys where "addPublicKeys (heLib env) (PublicKeys md) [] = Inr keys" "set ks = insert (operatorKey env ch) (set keys)"
    by (rule getPublicKeys_config [OF ks])
  with that [OF _ ch'] oc show thesis by (simp add: configKeys_def)
qed

lemma write_config_sim:
  assumes ok: "chain_ok env ch" and c: "CreateNextBlock (heBw env) [e] (chWriter ch) = Ret blk"
    and w: "chain_WriteBlock env blk True ts ch = Ret ch1" and p: "reparsePublicKeys env ch1 = Ret ch'"
  shows "go_bind (next_block (slCodec (shared env)) [e] (last (mcBlocks (core ch)))) (\<lambda>b.
      go_bind (next_bundle (shared env) (snd b) (mcBundle (core ch))) (\<lambda>bu.
      Ret ((core ch)\<lparr>mcBlocks := mcBlocks (core ch) @ [b], mcLastCut := mcLastCut (core ch) + 1, mcBundle := bu\<rparr>)))
    = Ret (core ch')" "chain_ok env ch'" "chRecvTimer ch' = None" "chMessageHashes ch' = chMessageHashes ch"
    "chCutter ch' = chCutter ch"
proof -
  from w obtain md bw where wb: "WriteConfigBlock (heBw env) blk md (chWriter ch) = Ret bw"
    and ch1: "ch1 = ch\<lparr>chWriter := bw, chLastCutBlockNumber := chLastCutBlockNumber ch + 1, chMessageHashes := chMessageHashes ch, chRecvTimer := None\<rparr>"
    by (rule chain_WriteBlock_Ret) simp
  note B = WriteConfigBlock_bundle [OF wb]
  obtain keys ks where k: "configKeys (heLib env) (chBundle ch1) = Some keys" and ch': "ch' = ch1\<lparr>chPublicKeys := ks\<rparr>"
    and ks: "set ks = insert (operatorKey env ch1) (set keys)" by (rule reparse_Ret [OF p])
  have "next_block (slCodec (shared env)) [e] (last (blocks (chWriter ch))) = Ret (content blk)"
    using CreateNextBlock_content [OF chain_ok_linked [OF ok] c] by simp
  then show "go_bind (next_block (slCodec (shared env)) [e] (last (mcBlocks (core ch)))) (\<lambda>b.
      go_bind (next_bundle (shared env) (snd b) (mcBundle (core ch))) (\<lambda>bu.
      Ret ((core ch)\<lparr>mcBlocks := mcBlocks (core ch) @ [b], mcLastCut := mcLastCut (core ch) + 1, mcBundle := bu\<rparr>)))
    = Ret (core ch')"
    using B(1,2) by (simp add: content_def ch' ch1 core_def)
  show "chain_ok env ch'"
    using ok B(2,3) k ks by (simp add: chain_ok_def ch' ch1 linked_last_block_def operatorKey_def)
  show "chRecvTimer ch' = None" "chMessageHashes ch' = chMessageHashes ch" "chCutter ch' = chCutter ch"
    by (simp_all add: ch' ch1)
qed

lemma commitConfig_sim:
  assumes ok: "chain_ok env ch" and run: "commitConfigMessage env e ts newSeq ch = Ret ch1"
    and p: "reparsePublicKeys env ch1 = Ret ch'"
  shows "mConfig (shared env) e newSeq (core ch) = Ret (core ch')" "chain_ok env ch'" "timer_ok ch \<Longrightarrow> timer_ok ch'"
proof -
  obtain now ch0 where 0: "readClock env ch = (now, ch0)" by fastforce
  note s0 = sent_core [OF readClock_sent [OF 0]]
  have f0: "chCutter ch0 = chCutter ch" "chMessageHashes ch0 = chMessageHashes ch" using readClock_sent [OF 0] by (auto simp: sent_def)
  define r where "r = snd (Cut (now 0) (chCutter ch))"
  have cut: "Cut (now 0) (chCutter ch0) = (pendingBatch (chCutter ch), r)" by (simp add: r_def f0 Cut_pair [symmetric])
  have r: "pendingBatch r = []" "pendingBatchSizeBytes r = 0" by (simp_all add: r_def)
  define c1 where "c1 = ch0\<lparr>chCutter := r\<rparr>"
  have ok1: "chain_ok env c1" using ok s0(2) by (simp add: c1_def)
  have core1: "core c1 = (core ch)\<lparr>mcPending := [], mcSize := 0\<rparr>" using s0(1) by (simp add: c1_def r)
  from run obtain c2 blk where
    2: "(if pendingBatch (chCutter ch) \<noteq> [] then
           go_bind (CreateNextBlock (heBw env) (pendingBatch (chCutter ch)) (chWriter c1)) (\<lambda>block.
           chain_WriteBlock env block False (chLastOrderedConsensusTimestamp c1) c1)
         else Ret c1) = Ret c2"
    and b: "CreateNextBlock (heBw env) [e] (chWriter (c2\<lparr>chLastOriginalSequenceProcessed := newSeq\<rparr>)) = Ret blk"
    and w: "chain_WriteBlock env blk True ts (c2\<lparr>chLastOriginalSequenceProcessed := newSeq\<rparr>) = Ret ch1"
    unfolding commitConfigMessage_def 0 prod.case cut Let_def c1_def by auto
  have c2: "chain_ok env c2 \<and> chCutter c2 = r \<and> (timer_ok ch \<longrightarrow> chMessageHashes c2 = [])
      \<and> (if pendingBatch (chCutter ch) = [] then Ret (core c1) else mBlock (shared env) (pendingBatch (chCutter ch)) (core c1)) = Ret (core c2)"
  proof (cases "pendingBatch (chCutter ch) = []")
    case True
    with 2 ok1 f0 show ?thesis by (auto simp: c1_def timer_ok_def)
  next
    case False
    with 2 obtain blk2 where b2: "CreateNextBlock (heBw env) (pendingBatch (chCutter ch)) (chWriter c1) = Ret blk2"
      and w2: "chain_WriteBlock env blk2 False (chLastOrderedConsensusTimestamp c1) c1 = Ret c2" by auto
    have "chMessageHashes c2 = []" by (rule chain_WriteBlock_Ret [OF w2]) simp
    with write_normal_sim [OF ok1 b2 w2] chain_WriteBlock_keeps [OF w2] False show ?thesis by (simp add: c1_def)
  qed
  have "chain_ok env (c2\<lparr>chLastOriginalSequenceProcessed := newSeq\<rparr>)" using c2 by simp
  note C = write_config_sim [OF this b w p]
  show "chain_ok env ch'" by (rule C(2))
  show "timer_ok ch \<Longrightarrow> timer_ok ch'" using C(3-5) c2 by (simp add: timer_ok_def)
  show "mConfig (shared env) e newSeq (core ch) = Ret (core ch')"
    using C(1) unfolding mConfig_def Let_def core1 [symmetric] core_sel(1) c2 [THEN conjunct2, THEN conjunct2, THEN conjunct2] go_bind.simps
    by simp
qed

section \<open>One message of the topic\<close>

definition simulates :: "'w hcs_env \<Rightarrow> 'w chainImpl \<Rightarrow> 'w chainImpl \<Rightarrow> bool" where
  "simulates env ch ch' \<longleftrightarrow> chain_ok env ch' \<and> (timer_ok ch \<longrightarrow> timer_ok ch')"

lemma simulates_refl: "chain_ok env ch \<Longrightarrow> simulates env ch ch"
  by (simp add: simulates_def)

lemma sent_simulates:
  assumes "sent ch ch'" and "chain_ok env ch"
  shows "simulates env ch ch'" "core ch' = core ch"
  using assms by (auto simp: simulates_def sent_core timer_ok_def sent_def)

lemma noteResubmitted_Ret:
  assumes "noteResubmitted msg cur ch = Ret ch'"
  obtains l s where "ch' = ch\<lparr>chDoneReprocessing := l, chLastResubmittedConfigSequence := s\<rparr>"
proof -
  have "ch' = ch\<lparr>chDoneReprocessing := chDoneReprocessing ch', chLastResubmittedConfigSequence := chLastResubmittedConfigSequence ch'\<rparr>"
    using assms by (cases ch) (auto simp: noteResubmitted_def reprocessComplete_def split: if_splits)
  then show thesis by (rule that)
qed

lemma resubmitNormal_sent:
  assumes "resubmitNormal env e n ch = Ret (err, ch')"
  shows "sent ch ch'"
proof -
  obtain me ch1 where m: "msgEnv env ch = (me, ch1)" by fastforce
  from assms obtain r where r: "ProcessNormalMsg me (chBundle ch1) e = Ret r" by (auto simp: resubmitNormal_def m)
  show ?thesis
  proof (cases r)
    case (Inl x)
    with assms r msgEnv_sent [OF m] show ?thesis by (simp add: resubmitNormal_def m)
  next
    case (Inr s)
    with assms r obtain er where "order env e s n ch1 = Ret (er, ch')" by (auto simp: resubmitNormal_def m)
    from sent_trans [OF msgEnv_sent [OF m] order_sent [OF this]] show ?thesis .
  qed
qed

lemma resubmitConfig_Ret:
  assumes "resubmitConfig env e n ch = Ret (err, ch')"
  obtains ch1 l s where "sent ch ch1" "ch' = ch1\<lparr>chDoneReprocessing := l, chLastResubmittedConfigSequence := s\<rparr>"
proof -
  have id: "c = c\<lparr>chDoneReprocessing := chDoneReprocessing c, chLastResubmittedConfigSequence := chLastResubmittedConfigSequence c\<rparr>" for c :: "'a chainImpl"
    by simp
  obtain me ch1 where m: "msgEnv env ch = (me, ch1)" by fastforce
  from assms obtain r where r: "ProcessConfigMsg me (chBundle ch1) e = Ret r" by (auto simp: resubmitConfig_def m)
  show thesis
  proof (cases r)
    case (Inl x)
    with assms r msgEnv_sent [OF m] that [OF _ id] show ?thesis by (simp add: resubmitConfig_def m)
  next
    case (Inr y)
    obtain ce s where y: "y = (ce, s)" by (cases y)
    from assms r Inr y obtain er ch2 where c: "configure env ce s n ch1 = Ret (er, ch2)"
      and rest: "(case er of Some e \<Rightarrow> Ret (Some (ResubmitConfig e), ch2)
          | None \<Rightarrow> Ret (None, reprocessPending (ch2\<lparr>chLastResubmittedConfigSequence := n\<rparr>))) = Ret (err, ch')"
      by (auto simp: resubmitConfig_def m)
    have s2: "sent ch ch2" by (rule sent_trans [OF msgEnv_sent [OF m] configure_sent [OF c]])
    have "ch' = ch2\<lparr>chDoneReprocessing := chDoneReprocessing ch', chLastResubmittedConfigSequence := chLastResubmittedConfigSequence ch'\<rparr>"
      using rest by (cases ch2; cases er) (auto simp: reprocessPending_def)
    from that [OF s2 this] show ?thesis .
  qed
qed

lemma simulates_update:
  "chain_ok env ch \<Longrightarrow> simulates env ch (ch\<lparr>chDoneReprocessing := l, chLastResubmittedConfigSequence := s\<rparr>)"
  by (simp add: simulates_def timer_ok_def)

lemma simulates_trans: "simulates env a b \<Longrightarrow> simulates env b c \<Longrightarrow> simulates env a c"
  by (simp add: simulates_def)

lemma config_message_sim:
  assumes ok: "chain_ok env ch" and n: "noteResubmitted msg cur ch = Ret ch1"
    and c: "commitConfigMessage env e ts (newSequence msg ch1) ch1 = Ret ch2" and p: "reparsePublicKeys env ch2 = Ret ch'"
  shows "mConfig (shared env) e (newSequence msg ch) (core ch) = Ret (core ch')" "simulates env ch ch'"
proof -
  obtain l s where ch1: "ch1 = ch\<lparr>chDoneReprocessing := l, chLastResubmittedConfigSequence := s\<rparr>"
    by (rule noteResubmitted_Ret [OF n])
  have "chain_ok env ch1" "newSequence msg ch1 = newSequence msg ch" "core ch1 = core ch" "timer_ok ch1 = timer_ok ch"
    using ok by (simp_all add: ch1 newSequence_def timer_ok_def)
  with commitConfig_sim [OF _ c p] show "mConfig (shared env) e (newSequence msg ch) (core ch) = Ret (core ch')" "simulates env ch ch'"
    by (simp_all add: simulates_def)
qed

lemma resubmit_config_sim:
  assumes ok: "chain_ok env ch" and n: "noteResubmitted msg cur ch = Ret ch1" and r: "resubmitConfig env e s0 ch1 = Ret (err, ch')"
  shows "core ch' = core ch" "simulates env ch ch'"
proof -
  obtain l s where ch1: "ch1 = ch\<lparr>chDoneReprocessing := l, chLastResubmittedConfigSequence := s\<rparr>"
    by (rule noteResubmitted_Ret [OF n])
  obtain ch2 l' s' where s2: "sent ch1 ch2" and ch': "ch' = ch2\<lparr>chDoneReprocessing := l', chLastResubmittedConfigSequence := s'\<rparr>"
    by (rule resubmitConfig_Ret [OF r])
  have ok1: "chain_ok env ch1" using ok by (simp add: ch1)
  note S = sent_simulates [OF s2 ok1]
  show "core ch' = core ch" using S(2) by (simp add: ch' ch1)
  show "simulates env ch ch'"
    using simulates_trans [OF simulates_update [OF ok] S(1) [unfolded ch1]] S(1) simulates_update [of env ch2]
    unfolding ch' by (meson simulates_def)
qed

lemma regular_sim:
  assumes ok: "chain_ok env ch" and run: "processRegularMessage env msg ts n h ch = Ret (err, ch')"
  shows "mRegular (shared env) msg (slice_bytes h) (core ch) = Ret (core ch')" "simulates env ch ch'"
proof -
  have nw: "(if OriginalSeq msg = 0 then mcOriginal (core ch) else OriginalSeq msg) = newSequence msg ch" by (simp add: newSequence_def)
  have acc: "mAccept (shared env) msg (core ch) =
      (if consumedAlready msg ch \<or> ConfigSeq msg < Sequence (chWriter ch) then None else unEnvelope (meCodec (heMsg env)) (RegularPayload msg))"
    by (simp add: mAccept_def consumedAlready_def Sequence_def)
  have skip: "mAccept (shared env) msg (core ch) = None \<Longrightarrow> mRegular (shared env) msg (slice_bytes h) (core ch) = Ret (core ch)"
    by (simp add: mRegular_def Let_def)
  have "mRegular (shared env) msg (slice_bytes h) (core ch) = Ret (core ch') \<and> simulates env ch ch'"
  proof (cases "unEnvelope (meCodec (heMsg env)) (RegularPayload msg)")
    case None
    with run have "ch' = ch" by (simp add: processRegularMessage_def)
    with skip acc None simulates_refl [OF ok] show ?thesis by simp
  next
    case (Some e)
    note run' = run [unfolded processRegularMessage_def Let_def Some option.case]
    note m = mRegular_def Let_def nw acc Some
    show ?thesis
    proof (cases "MsgClass msg")
      case NORMAL
      show ?thesis
      proof (cases "consumedAlready msg ch \<or> ConfigSeq msg < Sequence (chWriter ch)")
        case True
        with run' NORMAL have "sent ch ch'" by (auto dest: resubmitNormal_sent split: if_splits)
        from sent_simulates [OF this ok] skip acc True show ?thesis by simp
      next
        case False
        with run' NORMAL have "commitNormalMessage env e ts (newSequence msg ch) h ch = Ret ch'" by auto
        from commitNormal_sim [OF ok this] False NORMAL show ?thesis by (simp add: m simulates_def)
      qed
    next
      case CONFIG
      show ?thesis
      proof (cases "consumedAlready msg ch")
        case True
        with run' CONFIG have "ch' = ch" by simp
        with skip acc True simulates_refl [OF ok] show ?thesis by simp
      next
        case new: False
        with run' CONFIG obtain ch1 where n1: "noteResubmitted msg (Sequence (chWriter ch)) ch = Ret ch1"
          and rest: "(if ConfigSeq msg < Sequence (chWriter ch) then resubmitConfig env e n ch1
             else go_bind (commitConfigMessage env e ts (newSequence msg ch1) ch1) (\<lambda>ch2.
                  go_bind (reparsePublicKeys env ch2) (\<lambda>ch3. Ret (None, ch3)))) = Ret (err, ch')" by auto
        show ?thesis
        proof (cases "ConfigSeq msg < Sequence (chWriter ch)")
          case True
          with rest have "resubmitConfig env e n ch1 = Ret (err, ch')" by simp
          from resubmit_config_sim [OF ok n1 this] skip acc True show ?thesis by simp
        next
          case False
          with rest obtain ch2 where c: "commitConfigMessage env e ts (newSequence msg ch1) ch1 = Ret ch2"
            and p: "reparsePublicKeys env ch2 = Ret ch'" by auto
          from config_message_sim [OF ok n1 c p] False new CONFIG show ?thesis by (simp add: m)
        qed
      qed
    next
      case (UnknownClass i)
      with run' have "ch' = ch" by simp
      with UnknownClass simulates_refl [OF ok] show ?thesis by (simp add: mRegular_def Let_def split: option.splits)
    qed
  qed
  then show "mRegular (shared env) msg (slice_bytes h) (core ch) = Ret (core ch')" "simulates env ch ch'" by simp_all
qed

lemma cut_sim:
  assumes ok: "chain_ok env ch" and clock: "readClock env ch = (now, ch0)" and cut: "Cut (now 0) (chCutter ch0) = (batch, r)"
    and ne: "batch \<noteq> []" and c: "CreateNextBlock (heBw env) batch (chWriter (ch0\<lparr>chCutter := r\<rparr>)) = Ret blk"
    and w: "chain_WriteBlock env blk False ts (ch0\<lparr>chCutter := r, chLastOriginalSequenceProcessed := s\<rparr>) = Ret ch'"
  shows "batch = mcPending (core ch)"
    "mBlock (shared env) batch ((core ch)\<lparr>mcPending := [], mcSize := 0, mcOriginal := s\<rparr>) = Ret (core ch')" "simulates env ch ch'"
proof -
  note s0 = sent_core [OF readClock_sent [OF clock]]
  have r: "batch = pendingBatch (chCutter ch0)" "r = snd (Cut (now 0) (chCutter ch0))" using cut by (metis Cut_simps(1) fst_conv, simp)
  then show "batch = mcPending (core ch)" using s0(1) core_sel(1) [of ch0] by simp
  have rp: "pendingBatch r = []" "pendingBatchSizeBytes r = 0" by (simp_all add: r)
  let ?c = "ch0\<lparr>chCutter := r, chLastOriginalSequenceProcessed := s\<rparr>"
  have ok1: "chain_ok env ?c" using ok s0(2) by simp
  have c1: "CreateNextBlock (heBw env) batch (chWriter ?c) = Ret blk" using c by simp
  have h: "chMessageHashes ch' = []" by (rule chain_WriteBlock_Ret [OF w]) simp
  note W = write_normal_sim [OF ok1 c1 w]
  show "mBlock (shared env) batch ((core ch)\<lparr>mcPending := [], mcSize := 0, mcOriginal := s\<rparr>) = Ret (core ch')"
    using W(1) s0(1) by (simp add: rp)
  show "simulates env ch ch'" using W(2,3) h by (simp add: simulates_def timer_ok_def)
qed

lemma time_to_cut_sim:
  assumes ok: "chain_ok env ch" and run: "processTimeToCutMessage env request ts s ch = Ret (err, ch')"
  shows "mTimeToCut (shared env) request s (core ch) = Ret (if err \<noteq> None then Exit err else Continue, core ch')"
    "simulates env ch ch'"
proof -
  define go where "go = (case request of Some (BlockNumber n) \<Rightarrow> n = chLastCutBlockNumber ch + 1
    | Some (MessageHash h) \<Rightarrow> h \<in> set (chMessageHashes ch) | None \<Rightarrow> False)"
  have "mTimeToCut (shared env) request s (core ch) = Ret (if err \<noteq> None then Exit err else Continue, core ch')
      \<and> simulates env ch ch'"
  proof (cases go)
    case False
    then have "ch' = ch" "mTimeToCut (shared env) request s (core ch) = Ret (if err \<noteq> None then Exit err else Continue, core ch)"
      using run by (auto simp: go_def processTimeToCutMessage_def mTimeToCut_def split: option.splits TimeToCutRequest.splits if_splits)
    with ok simulates_refl [OF ok] show ?thesis by simp
  next
    case True
    obtain now ch0 where 0: "readClock env ch = (now, ch0)" by fastforce
    obtain batch r where cut: "Cut (now 0) (chCutter ch0) = (batch, r)" by fastforce
    note s0 = sent_core [OF readClock_sent [OF 0]]
    have batch: "batch = pendingBatch (chCutter ch)" "pendingBatch r = []" "pendingBatchSizeBytes r = 0"
      using cut s0(1) core_sel(1) [of ch0] by (metis Cut_simps core_sel(1) fst_conv snd_conv)+
    from True have t: "mTimeToCut (shared env) request s (core ch) =
        (let mc1 = (core ch)\<lparr>mcPending := [], mcSize := 0\<rparr> in
         if mcPending (core ch) = [] then Ret (Exit (Some NoPendingTransactions), mc1)
         else go_bind (mBlock (shared env) (mcPending (core ch)) (mc1\<lparr>mcOriginal := s\<rparr>)) (\<lambda>mc2. Ret (Continue, mc2)))"
      by (auto simp: go_def mTimeToCut_def Let_def split: option.splits TimeToCutRequest.splits if_splits)
    from run True have p: "(if length batch = 0 then Ret (Some NoPendingTransactions, ch0\<lparr>chCutter := r\<rparr>)
          else
            go_bind (CreateNextBlock (heBw env) batch (chWriter (ch0\<lparr>chCutter := r\<rparr>))) (\<lambda>block.
            go_bind (chain_WriteBlock env block False ts (ch0\<lparr>chCutter := r, chLastOriginalSequenceProcessed := s\<rparr>)) (\<lambda>ch2.
            Ret (None, ch2)))) = Ret (err, ch')"
      by (auto simp: go_def processTimeToCutMessage_def 0 cut Let_def split: option.splits TimeToCutRequest.splits if_splits)
    show ?thesis
    proof (cases "batch = []")
      case True
      with p have "err = Some NoPendingTransactions" "ch' = ch0\<lparr>chCutter := r\<rparr>" by auto
      moreover have "timer_ok ch \<Longrightarrow> timer_ok (ch0\<lparr>chCutter := r\<rparr>)"
        using readClock_sent [OF 0] True batch by (auto simp: timer_ok_def sent_def)
      ultimately show ?thesis using t True batch ok s0(1,2) by (simp add: simulates_def)
    next
      case False
      with p obtain blk where c: "CreateNextBlock (heBw env) batch (chWriter (ch0\<lparr>chCutter := r\<rparr>)) = Ret blk"
        and w: "chain_WriteBlock env blk False ts (ch0\<lparr>chCutter := r, chLastOriginalSequenceProcessed := s\<rparr>) = Ret ch'"
        and err: "err = None" by auto
      note C = cut_sim [OF ok 0 cut False c w]
      from C t False err show ?thesis by simp
    qed
  qed
  then show "mTimeToCut (shared env) request s (core ch) = Ret (if err \<noteq> None then Exit err else Continue, core ch')"
    "simulates env ch ch'" by simp_all
qed

lemma ExpireByAppID_ages:
  assumes l: "amp_links p" and run: "ExpireByAppID app p = Inr (m, c, q)"
  shows "abs_ages q = filter (\<lambda>(k, a, cs, t). a \<noteq> app) (abs_ages p)" "reassembleTimeout q = reassembleTimeout p"
proof -
  note D = amp_linksD [OF l] and E = ExpireByAppID_links [OF l run]
  have h: "heap q = heap p" "reassembleTimeout q = reassembleTimeout p" using E by (auto simp: amp_frame_def)
  then show "reassembleTimeout q = reassembleTimeout p" by simp
  have key: "holderKey (heap p a) = k" "hmap p k = Some a" if "hmap p k = Some a" for k a
    using D(6) that by auto
  have "holderListByAge q = filter (\<lambda>a. holderAppID (heap p a) \<noteq> app) (holderListByAge p)"
  proof (cases "map_of (holdersByAppID p) (hex_EncodeToString app)")
    case None
    have q: "q = p" using run None by (auto simp: ExpireByAppID_def Let_def split: if_splits)
    have "byApp p (hex_EncodeToString app) = {}" using None by (simp add: byApp_def)
    with D(8) have "hmap p k = Some a \<Longrightarrow> holderAppID (heap p a) \<noteq> app" for k a by auto
    with D(4) have "\<forall>a \<in> set (holderListByAge p). holderAppID (heap p a) \<noteq> app" by (auto simp: ran_def)
    then show ?thesis by (simp add: q filter_id_conv)
  next
    case (Some ks)
    let ?p = "p\<lparr>holdersByAppID := AList.delete (hex_EncodeToString app) (holdersByAppID p)\<rparr>"
    have q: "q = snd (snd (expireKeys ks ?p))"
      using run Some by (auto simp: ExpireByAppID_def Let_def split: if_splits)
    have ks: "k \<in> set ks \<longleftrightarrow> (\<exists>a. hmap p k = Some a \<and> holderAppID (heap p a) = app)" for k
      using D(8) [of k "hex_EncodeToString app"] Some by (simp add: byApp_def appKey_eq)
    have "\<forall>k a. hmap ?p k = Some a \<longrightarrow> holderKey (heap ?p a) = k \<and> el (heap ?p a)" using D(6,7) by auto
    from expireKeys_spec [OF this, of ks] D(1,3)
    have ls: "holderListByAge q = filter (\<lambda>a. \<forall>k \<in> set ks. hmap p k \<noteq> Some a) (holderListByAge p)"
      by (simp add: q)
    have "(\<forall>k \<in> set ks. hmap p k \<noteq> Some a) \<longleftrightarrow> holderAppID (heap p a) \<noteq> app" if "a \<in> set (holderListByAge p)" for a
      using that D(4) ks by (fastforce simp: ran_def)
    then show ?thesis unfolding ls by (auto intro: filter_cong)
  qed
  then show "abs_ages q = filter (\<lambda>(k, a, cs, t). a \<noteq> app) (abs_ages p)"
    by (simp add: abs_ages_def h filter_map o_def entry_def)
qed

lemma started_sim:
  assumes ok: "chain_ok env ch"
  shows "core (processOrdererStartedMessage identity ch) =
      (core ch)\<lparr>mcAges := filter (\<lambda>(k, app, cs, t). identity = [] \<or> app \<noteq> identity) (mcAges (core ch))\<rparr>"
    "simulates env ch (processOrdererStartedMessage identity ch)"
proof -
  have inv: "amp_inv (chAmp ch)" using ok by (simp add: chain_ok_def)
  then have l: "amp_links (chAmp ch)" by (simp add: amp_inv_def)
  have "core (processOrdererStartedMessage identity ch) =
      (core ch)\<lparr>mcAges := filter (\<lambda>(k, app, cs, t). identity = [] \<or> app \<noteq> identity) (mcAges (core ch))\<rparr>
      \<and> simulates env ch (processOrdererStartedMessage identity ch)"
  proof (cases "ExpireByAppID identity (chAmp ch)")
    case (Inl e)
    then have "identity = []" by (auto simp: ExpireByAppID_def Let_def split: if_splits option.splits)
    with Inl simulates_refl [OF ok] show ?thesis by (simp add: processOrdererStartedMessage_def core_def)
  next
    case (Inr x)
    obtain m c q where x: "x = (m, c, q)" by (cases x)
    with Inr have run: "ExpireByAppID identity (chAmp ch) = Inr (m, c, q)" by simp
    have ne: "identity \<noteq> []" using run by (auto simp: ExpireByAppID_def)
    have p: "processOrdererStartedMessage identity ch = ch\<lparr>chAmp := q\<rparr>" by (simp add: processOrdererStartedMessage_def run)
    have "core (ch\<lparr>chAmp := q\<rparr>) = (core ch)\<lparr>mcAges := filter (\<lambda>(k, app, cs, t). identity = [] \<or> app \<noteq> identity) (mcAges (core ch))\<rparr>"
      using ExpireByAppID_ages [OF l run] ne by (simp add: core_def)
    moreover have "simulates env ch (ch\<lparr>chAmp := q\<rparr>)"
      using ok ExpireByAppID_inv [OF inv run] by (simp add: simulates_def chain_ok_def operatorKey_def timer_ok_def)
    ultimately show ?thesis by (simp add: p)
  qed
  then show "core (processOrdererStartedMessage identity ch) =
      (core ch)\<lparr>mcAges := filter (\<lambda>(k, app, cs, t). identity = [] \<or> app \<noteq> identity) (mcAges (core ch))\<rparr>"
    "simulates env ch (processOrdererStartedMessage identity ch)" by simp_all
qed

lemma processMessage_sim:
  assumes ok: "chain_ok env ch" and run: "processMessage env msg ts s h ch = Ret (r, ch')"
  shows "mMessage (shared env) msg s (slice_bytes h) (core ch) = Ret (r, core ch')" "simulates env ch ch'"
proof -
  have "mMessage (shared env) msg s (slice_bytes h) (core ch) = Ret (r, core ch') \<and> simulates env ch ch'"
  proof (cases msg)
    case (Regular m)
    with run obtain err where "processRegularMessage env m ts s h ch = Ret (err, ch')" "r = Continue"
      by (auto simp: processMessage_def)
    with regular_sim [OF ok this(1)] Regular show ?thesis by (simp add: mMessage_def)
  next
    case (TimeToCut rq)
    with run obtain err where "processTimeToCutMessage env rq ts s ch = Ret (err, ch')" "r = (if err \<noteq> None then Exit err else Continue)"
      by (auto simp: processMessage_def)
    with time_to_cut_sim [OF ok this(1)] TimeToCut show ?thesis by (simp add: mMessage_def)
  next
    case (OrdererStarted identity)
    with run started_sim [OF ok] show ?thesis by (auto simp: processMessage_def mMessage_def)
  next
    case TypeNotSet
    with run simulates_refl [OF ok] show ?thesis by (auto simp: processMessage_def mMessage_def)
  qed
  then show "mMessage (shared env) msg s (slice_bytes h) (core ch) = Ret (r, core ch')" "simulates env ch ch'" by simp_all
qed

lemma verifyWith_set: "set a = set b \<Longrightarrow> verifyWith hl a = verifyWith hl b"
  by (simp add: verifyWith_def fun_eq_iff split: option.splits)

text \<open>The decoder of chunks yields 32-bit counts.\<close>

definition decoder_ok :: "'w hcs_env \<Rightarrow> bool" where
  "decoder_ok env \<longleftrightarrow> (\<forall>b c. unChunk env b = Some c \<longrightarrow> ChunksCount c < 2 ^ 31)"

lemma receive_order:
  assumes ok: "chain_ok env ch" and lst: "operator_listed env ch" and run: "handleMessage env resp ch = Ret (r, ch')"
  obtains keys ch1 where "configKeys (heLib env) (chBundle ch) = Some keys"
    "SequenceNumber resp = chLastSequenceProcessed ch + 1" "ConsensusTimestamp resp > chLastConsensusTimestamp ch"
    "checkOrder resp (ch\<lparr>chRetryCount := 0, chErrorChan := Open\<rparr>) = Ret ch1"
    "chain_ok env ch1" "timer_ok ch1 = timer_ok ch" "chAmp ch1 = chAmp ch" "chain_Verify env ch1 = verifyWith (heLib env) keys"
    "core ch1 = (core ch)\<lparr>mcSequence := SequenceNumber resp, mcTimestamp := ConsensusTimestamp resp\<rparr>"
proof -
  obtain keys where keys: "configKeys (heLib env) (chBundle ch) = Some keys" "set (chPublicKeys ch) = set keys"
    using ok lst by (auto simp: chain_ok_def operator_listed_def insert_absorb)
  define ch1 where "ch1 = ch\<lparr>chRetryCount := 0, chErrorChan := Open, chLastSequenceProcessed := chLastSequenceProcessed ch + 1,
     chLastConsensusTimestamp := ConsensusTimestamp resp\<rparr>"
  have good: "SequenceNumber resp = chLastSequenceProcessed ch + 1" "ConsensusTimestamp resp > chLastConsensusTimestamp ch"
    and chk: "checkOrder resp (ch\<lparr>chRetryCount := 0, chErrorChan := Open\<rparr>) = Ret ch1"
    using run by (auto simp: handleMessage_def checkOrder_def ch1_def split: if_splits)
  show thesis
    by (rule that [OF keys(1) good chk])
      (use ok good verifyWith_set [OF keys(2)] in
        \<open>simp_all add: ch1_def chain_ok_def operatorKey_def timer_ok_def core_def chain_Verify_def\<close>)
qed

text \<open>Up to the processing of a complete message.\<close>

lemma receive_sim:
  assumes ok: "chain_ok env ch" and dec: "decoder_ok env" and lst: "operator_listed env ch"
    and run: "handleMessage env resp ch = Ret (r, ch')"
  obtains msg h ch2 where
    "mReceive (shared env) resp (core ch) = Ret (map_option (\<lambda>m. (m, slice_bytes h)) msg, core ch2)" "simulates env ch ch2"
    "(case msg of None \<Rightarrow> Ret (Continue, ch2)
       | Some m \<Rightarrow> processMessage env m (ConsensusTimestamp resp) (SequenceNumber resp) h ch2) = Ret (r, ch')"
proof -
  obtain keys ch1 where keys: "configKeys (heLib env) (chBundle ch) = Some keys"
    and good: "SequenceNumber resp = chLastSequenceProcessed ch + 1" "ConsensusTimestamp resp > chLastConsensusTimestamp ch"
    and chk: "checkOrder resp (ch\<lparr>chRetryCount := 0, chErrorChan := Open\<rparr>) = Ret ch1"
    and 1: "chain_ok env ch1" "timer_ok ch1 = timer_ok ch" "chAmp ch1 = chAmp ch" "chain_Verify env ch1 = verifyWith (heLib env) keys"
    and c1: "core ch1 = (core ch)\<lparr>mcSequence := SequenceNumber resp, mcTimestamp := ConsensusTimestamp resp\<rparr>"
    by (rule receive_order [OF ok lst run])
  note run1 = run [unfolded handleMessage_def chk go_bind.simps]
  show thesis
  proof (cases "unChunk env (Contents resp)")
    case None
    have "mReceive (shared env) resp (core ch) = Ret (None, core ch1)"
      using good None by (simp add: mReceive_def c1)
    with that [of None _ ch1] None run1 1 show ?thesis by (simp add: simulates_def)
  next
    case (Some chunk)
    from run1 Some obtain rs amp where re: "Reassemble (heAmp env) (chain_Verify env ch1) chunk (ConsensusTimestamp resp) (chAmp ch1) = Ret (rs, amp)"
      by auto
    define ch2 where "ch2 = noteChunkFree (ch1\<lparr>chAmp := amp\<rparr>)"
    define msg where "msg = (if resErr rs \<noteq> None then None
        else case resMessage rs of None \<Rightarrow> None | Some payload \<Rightarrow> unHcsMessage env payload)"
    have inv: "amp_inv (chAmp ch)" using ok by (simp add: chain_ok_def)
    have n: "ChunksCount chunk < 2 ^ 31" using dec Some by (auto simp: decoder_ok_def)
    from Reassemble_sim [OF inv n, of "heAmp env" "chain_Verify env ch1" "ConsensusTimestamp resp"] re
    have sp: "spec_Reassemble (heAmp env) (verifyWith (heLib env) keys) (reassembleTimeout (chAmp ch)) chunk (ConsensusTimestamp resp) (abs_ages (chAmp ch)) = Ret (rs, abs_ages amp)"
      and amp: "amp_inv amp" "reassembleTimeout amp = reassembleTimeout (chAmp ch)"
      by (simp_all add: amp_sim_def 1 same_config_def)
    have 2: "simulates env ch ch2" "core ch2 = (core ch1)\<lparr>mcAges := abs_ages amp\<rparr>" "\<not> chRecollect ch2"
      using 1 amp by (auto simp: simulates_def ch2_def noteChunkFree_def chain_ok_def operatorKey_def timer_ok_def core_def)
    have "mReceive (shared env) resp (core ch) = Ret (map_option (\<lambda>m. (m, slice_bytes (resHash rs))) msg, core ch2)"
      using good keys unfolding mReceive_def shared_sel
      by (simp add: Some sp msg_def 2 c1 split: option.splits)
    moreover have "(case msg of None \<Rightarrow> Ret (Continue, ch2)
        | Some m \<Rightarrow> processMessage env m (ConsensusTimestamp resp) (SequenceNumber resp) (resHash rs) ch2) = Ret (r, ch')"
      using run1 Some re 2(3) by (auto simp: msg_def ch2_def Let_def split: option.splits if_splits)
    ultimately show ?thesis using that 2(1) by blast
  qed
qed

lemma handleMessage_sim:
  assumes ok: "chain_ok env ch" and dec: "decoder_ok env" and lst: "operator_listed env ch"
    and run: "handleMessage env resp ch = Ret (r, ch')"
  shows "mstep (shared env) resp (core ch) = Ret (r, core ch')" "simulates env ch ch'"
proof -
  obtain msg h ch2 where rv: "mReceive (shared env) resp (core ch) = Ret (map_option (\<lambda>m. (m, slice_bytes h)) msg, core ch2)"
    and s2: "simulates env ch ch2"
    and rest: "(case msg of None \<Rightarrow> Ret (Continue, ch2)
       | Some m \<Rightarrow> processMessage env m (ConsensusTimestamp resp) (SequenceNumber resp) h ch2) = Ret (r, ch')"
    by (rule receive_sim [OF assms])
  have ok2: "chain_ok env ch2" using s2 by (simp add: simulates_def)
  have "mstep (shared env) resp (core ch) = Ret (r, core ch') \<and> simulates env ch ch'"
  proof (cases msg)
    case None
    with rest rv s2 show ?thesis by (auto simp: mstep_def)
  next
    case (Some m)
    with rest have "processMessage env m (ConsensusTimestamp resp) (SequenceNumber resp) h ch2 = Ret (r, ch')" by simp
    from processMessage_sim [OF ok2 this] rv Some simulates_trans [OF s2] show ?thesis by (simp add: mstep_def)
  qed
  then show "mstep (shared env) resp (core ch) = Ret (r, core ch')" "simulates env ch ch'" by simp_all
qed

section \<open>Runs of a chain\<close>

fun delivered :: "event \<Rightarrow> TopicMessage list" where
  "delivered (Message m) = [m]"
| "delivered _ = []"

text \<open>
  What can happen to a chain, in any order: an iteration of the message loop, a client, a timer, a halt, a health check.
  \<open>good\<close> restricts the states in which the loop runs; the list is the messages of the topic it has consumed.
\<close>

inductive chain_run ::
  "'w hcs_env \<Rightarrow> ('w chainImpl \<Rightarrow> bool) \<Rightarrow> 'w chainImpl \<Rightarrow> TopicMessage list \<Rightarrow> 'w chainImpl \<Rightarrow> bool"
  for env good ch
where
  run_start: "chain_run env good ch [] ch"
| run_loop: "chain_run env good ch ms ch1 \<Longrightarrow> enabled ev ch1 \<Longrightarrow> good ch1 \<Longrightarrow> loopStep env ev ch1 = Ret (r, ch2) \<Longrightarrow>
    chain_run env good ch (ms @ delivered ev) ch2"
| run_order: "chain_run env good ch ms ch1 \<Longrightarrow> Order env e s ch1 = Ret (err, ch2) \<Longrightarrow> chain_run env good ch ms ch2"
| run_configure: "chain_run env good ch ms ch1 \<Longrightarrow> Configure env e s ch1 = Ret (err, ch2) \<Longrightarrow> chain_run env good ch ms ch2"
| run_send_timer: "chain_run env good ch ms ch1 \<Longrightarrow> sendTimerFired env ch1 = Ret ch2 \<Longrightarrow> chain_run env good ch ms ch2"
| run_recv_timer: "chain_run env good ch ms ch1 \<Longrightarrow> recvTimerFired env ch1 = Ret ch2 \<Longrightarrow> chain_run env good ch ms ch2"
| run_expire: "chain_run env good ch ms ch1 \<Longrightarrow> chRetryTimer ch1 \<noteq> None \<Longrightarrow> chain_run env good ch ms (retryTimerExpires ch1)"
| run_halt: "chain_run env good ch ms ch1 \<Longrightarrow> Halt ch1 = Some ch2 \<Longrightarrow> chain_run env good ch ms ch2"
| run_health: "chain_run env good ch ms ch1 \<Longrightarrow> HealthCheck env ch1 = (err, ch2) \<Longrightarrow> chain_run env good ch ms ch2"

lemma quiet_update [simp]:
  "core (ch\<lparr>chErrorChan := l\<rparr>) = core ch" "chain_ok env (ch\<lparr>chErrorChan := l\<rparr>) = chain_ok env ch" "timer_ok (ch\<lparr>chErrorChan := l\<rparr>) = timer_ok ch"
  "core (ch\<lparr>chHaltChan := l\<rparr>) = core ch" "chain_ok env (ch\<lparr>chHaltChan := l\<rparr>) = chain_ok env ch" "timer_ok (ch\<lparr>chHaltChan := l\<rparr>) = timer_ok ch"
  "core (ch\<lparr>chRequestChan := l\<rparr>) = core ch" "chain_ok env (ch\<lparr>chRequestChan := l\<rparr>) = chain_ok env ch" "timer_ok (ch\<lparr>chRequestChan := l\<rparr>) = timer_ok ch"
  "core (ch\<lparr>chDoneProcessing := d\<rparr>) = core ch" "chain_ok env (ch\<lparr>chDoneProcessing := d\<rparr>) = chain_ok env ch" "timer_ok (ch\<lparr>chDoneProcessing := d\<rparr>) = timer_ok ch"
  "core (ch\<lparr>chHandle := h\<rparr>) = core ch" "chain_ok env (ch\<lparr>chHandle := h\<rparr>) = chain_ok env ch" "timer_ok (ch\<lparr>chHandle := h\<rparr>) = timer_ok ch"
  "core (ch\<lparr>chSubscribedFrom := t\<rparr>) = core ch" "chain_ok env (ch\<lparr>chSubscribedFrom := t\<rparr>) = chain_ok env ch" "timer_ok (ch\<lparr>chSubscribedFrom := t\<rparr>) = timer_ok ch"
  "core (ch\<lparr>chRetryTimer := rt\<rparr>) = core ch" "chain_ok env (ch\<lparr>chRetryTimer := rt\<rparr>) = chain_ok env ch" "timer_ok (ch\<lparr>chRetryTimer := rt\<rparr>) = timer_ok ch"
  "core (ch\<lparr>chRetryTick := b\<rparr>) = core ch" "chain_ok env (ch\<lparr>chRetryTick := b\<rparr>) = chain_ok env ch" "timer_ok (ch\<lparr>chRetryTick := b\<rparr>) = timer_ok ch"
  "core (ch\<lparr>chRetryCount := n\<rparr>) = core ch" "chain_ok env (ch\<lparr>chRetryCount := n\<rparr>) = chain_ok env ch" "timer_ok (ch\<lparr>chRetryCount := n\<rparr>) = timer_ok ch"
  "core (ch\<lparr>chSendTimer := rt\<rparr>) = core ch" "chain_ok env (ch\<lparr>chSendTimer := rt\<rparr>) = chain_ok env ch" "timer_ok (ch\<lparr>chSendTimer := rt\<rparr>) = timer_ok ch"
  "timer_ok (ch\<lparr>chWorld := w\<rparr>) = timer_ok ch"
  by (simp_all add: core_def chain_ok_def timer_ok_def operatorKey_def)

lemma timer_ok_stopped: "timer_ok ch \<Longrightarrow> timer_ok (ch\<lparr>chRecvTimer := None\<rparr>)"
  by (simp add: timer_ok_def)

text \<open>\<open>quiet\<close>: the machine of the chain does not move.\<close>

definition quiet :: "'w hcs_env \<Rightarrow> 'w chainImpl \<Rightarrow> 'w chainImpl \<Rightarrow> bool" where
  "quiet env ch ch' \<longleftrightarrow> core ch' = core ch \<and> (chain_ok env ch \<longrightarrow> chain_ok env ch') \<and> (timer_ok ch \<longrightarrow> timer_ok ch')"

lemma quiet_refl: "quiet env ch ch"
  by (simp add: quiet_def)

lemma quiet_trans: "quiet env a b \<Longrightarrow> quiet env b c \<Longrightarrow> quiet env a c"
  by (simp add: quiet_def)

lemma sent_quiet: "sent ch ch' \<Longrightarrow> quiet env ch ch'"
  by (auto simp: quiet_def sent_core timer_ok_def sent_def)

lemma exitProcessing_quiet: "exitProcessing env ch = Ret ch' \<Longrightarrow> quiet env ch ch'"
  by (auto simp: exitProcessing_def quiet_def timer_ok_stopped split: option.splits)

lemma handleStreamError_quiet: "handleStreamError st ch = Ret ch' \<Longrightarrow> quiet env ch ch'"
  by (auto simp: handleStreamError_def quiet_def scheduleSubscriptionRetry_def closeHalt_def Let_def split: if_splits)

lemma startSubscription_quiet: "startSubscription env t ch = (ok, ch') \<Longrightarrow> quiet env ch ch'"
  by (auto simp: startSubscription_def quiet_def Let_def split: prod.splits if_splits)

lemma handleRetryTimer_quiet:
  assumes "handleRetryTimer env ch = Ret ch'"
  shows "quiet env ch ch'"
proof -
  define ch1 where "ch1 = ch\<lparr>chRetryTick := False, chRetryCount := chRetryCount ch + 1\<rparr>"
  obtain ok ch2 where s: "startSubscription env (chLastConsensusTimestamp ch1) ch1 = (ok, ch2)" by fastforce
  have "quiet env ch ch1" by (simp add: quiet_def ch1_def)
  then have q2: "quiet env ch ch2" by (rule quiet_trans [OF _ startSubscription_quiet [OF s]])
  note run = assms [unfolded handleRetryTimer_def Let_def ch1_def [symmetric] s prod.case]
  show ?thesis
  proof (cases ok)
    case False
    with run q2 show ?thesis
      by (auto simp: quiet_def scheduleSubscriptionRetry_def closeHalt_def split: if_splits)
  next
    case True
    with run obtain e where "sendTimeToCut env (newTimeToCutMessageWithBlockNumber (chLastCutBlockNumber ch2)) ch2 = Ret (e, ch')" by auto
    from quiet_trans [OF q2 sent_quiet [OF sendTimeToCut_sent [OF this]]] show ?thesis .
  qed
qed

lemma timers_quiet:
  "sendTimerFired env ch = Ret ch' \<Longrightarrow> quiet env ch ch'"
  "recvTimerFired env ch = Ret ch' \<Longrightarrow> quiet env ch ch'"
proof -
  show "sendTimerFired env ch = Ret ch' \<Longrightarrow> quiet env ch ch'"
  proof (cases "chSendTimer ch")
    case (Some t)
    assume "sendTimerFired env ch = Ret ch'"
    with Some obtain e where "sendTimeToCut env (newTimeToCutMessageWithMessageHash (chSendHash ch)) (ch\<lparr>chSendTimer := None\<rparr>) = Ret (e, ch')"
      by (auto simp: sendTimerFired_def)
    from sent_quiet [OF sendTimeToCut_sent [OF this], of env] show "quiet env ch ch'" by (simp add: quiet_def)
  qed (simp add: sendTimerFired_def quiet_def)
  show "recvTimerFired env ch = Ret ch' \<Longrightarrow> quiet env ch ch'"
  proof (cases "chRecvTimer ch")
    case (Some t)
    assume "recvTimerFired env ch = Ret ch'"
    with Some obtain e where "sendTimeToCut env (newTimeToCutMessageWithBlockNumber (chRecvBlock ch)) (ch\<lparr>chRecvTimer := None\<rparr>) = Ret (e, ch')"
      by (auto simp: recvTimerFired_def)
    from sent_quiet [OF sendTimeToCut_sent [OF this], of env] show "quiet env ch ch'" by (simp add: quiet_def timer_ok_stopped)
  qed (simp add: recvTimerFired_def quiet_def)
qed

lemma mrun_single: "mrun sl [m] mc = Ret mc' \<longleftrightarrow> (\<exists>r. mstep sl m mc = Ret (r, mc'))"
  by auto

lemma mrun_append: "mrun sl (a @ b) mc = go_bind (mrun sl a mc) (mrun sl b)"
proof (induction a arbitrary: mc)
  case (Cons m a)
  show ?case by (cases "mstep sl m mc") (auto simp: Cons.IH)
qed simp

lemma loopStep_sim:
  assumes ok: "chain_ok env ch" and dec: "decoder_ok env" and lst: "operator_listed env ch" and run: "loopStep env ev ch = Ret (r, ch')"
  shows "mrun (shared env) (delivered ev) (core ch) = Ret (core ch')" "simulates env ch ch'"
proof -
  from run obtain r1 ch1 where
    b: "(case ev of
          Halted \<Rightarrow> Ret (Exit None, ch)
        | StreamError st \<Rightarrow> go_bind (handleStreamError st ch) (\<lambda>ch1. Ret (Continue, ch1))
        | RetryTimer \<Rightarrow> go_bind (handleRetryTimer env ch) (\<lambda>ch1. Ret (Continue, ch1))
        | StreamClosed \<Rightarrow> Ret (Exit None, ch)
        | Message resp \<Rightarrow> handleMessage env resp ch) = Ret (r1, ch1)"
    and e: "(case r1 of Continue \<Rightarrow> Ret (Continue, ch1) | Exit err \<Rightarrow> go_bind (exitProcessing env ch1) (\<lambda>ch2. Ret (Exit err, ch2))) = Ret (r, ch')"
    unfolding loopStep_def by auto
  have q: "quiet env ch1 ch'"
    using e exitProcessing_quiet [of env ch1 ch'] by (cases r1) (auto simp: quiet_def)
  have "mrun (shared env) (delivered ev) (core ch) = Ret (core ch1) \<and> simulates env ch ch1"
  proof (cases "\<exists>m. ev = Message m")
    case True
    with b obtain m where "ev = Message m" "handleMessage env m ch = Ret (r1, ch1)" by auto
    with handleMessage_sim [OF ok dec lst this(2)] show ?thesis by simp
  next
    case False
    with b have "quiet env ch ch1"
      using quiet_refl by (cases ev) (auto dest: handleStreamError_quiet handleRetryTimer_quiet)
    with False ok show ?thesis by (cases ev) (simp_all add: quiet_def simulates_def)
  qed
  with q show "mrun (shared env) (delivered ev) (core ch) = Ret (core ch')" "simulates env ch ch'"
    by (simp_all add: quiet_def simulates_def)
qed

text \<open>A run of a chain is a run of the machine on the messages it consumed.\<close>

lemma chain_run_sim:
  assumes "chain_run env (operator_listed env) ch ms ch'" and ok: "chain_ok env ch" and dec: "decoder_ok env"
  shows "mrun (shared env) ms (core ch) = Ret (core ch') \<and> simulates env ch ch'"
  using assms(1)
proof (induction rule: chain_run.induct)
  case run_start
  then show ?case using ok by (simp add: simulates_def)
next
  case (run_loop ms ch1 ev r ch2)
  then have ok1: "chain_ok env ch1" by (simp add: simulates_def)
  from loopStep_sim [OF ok1 dec run_loop.hyps(3,4)] run_loop.IH show ?case by (simp add: mrun_append simulates_def)
next
  case (run_order ms ch1 e s err ch2)
  from sent_quiet [OF order_sent, of env e s 0 ch1 err ch2] run_order show ?case by (simp add: Order_def quiet_def simulates_def)
next
  case (run_configure ms ch1 e s err ch2)
  from sent_quiet [OF configure_sent, of env e s 0 ch1 err ch2] run_configure show ?case by (simp add: Configure_def quiet_def simulates_def)
next
  case (run_send_timer ms ch1 ch2)
  from timers_quiet(1) [OF run_send_timer.hyps(2)] run_send_timer.IH show ?case by (simp add: quiet_def simulates_def)
next
  case (run_recv_timer ms ch1 ch2)
  from timers_quiet(2) [OF run_recv_timer.hyps(2)] run_recv_timer.IH show ?case by (simp add: quiet_def simulates_def)
next
  case (run_expire ms ch1)
  then show ?case by (simp add: retryTimerExpires_def simulates_def)
next
  case (run_halt ms ch1 ch2)
  then show ?case by (auto simp: Halt_def simulates_def split: latch.splits)
next
  case (run_health ms ch1 err ch2)
  then show ?case by (auto simp: HealthCheck_def simulates_def split: prod.splits)
qed

section \<open>What the machine writes\<close>

text \<open>The block with the envelopes of a batch.\<close>

definition wrote :: "codec \<Rightarrow> Envelope list \<Rightarrow> content \<Rightarrow> bool" where
  "wrote c b blk \<longleftrightarrow> (\<exists>data. marshalAll c b = Ret data \<and> snd blk = Some data)"

text \<open>
  From \<open>mc\<close> to \<open>mc'\<close> blocks have been appended, and with the pending envelopes of \<open>mc'\<close> they hold the pending envelopes of
  \<open>mc\<close> and the envelopes \<open>es\<close>, in this order.
\<close>

definition extends :: "shared_lib \<Rightarrow> Envelope list \<Rightarrow> machine \<Rightarrow> machine \<Rightarrow> bool" where
  "extends sl es mc mc' \<longleftrightarrow>
     (\<exists>bs new. mcBlocks mc' = mcBlocks mc @ new \<and> list_all2 (wrote (slCodec sl)) bs new
        \<and> concat bs @ mcPending mc' = mcPending mc @ es \<and> mcLastCut mc' = mcLastCut mc + of_nat (length new))"

lemma extends_refl: "mcBlocks mc' = mcBlocks mc \<Longrightarrow> mcPending mc' = mcPending mc @ es \<Longrightarrow> mcLastCut mc' = mcLastCut mc \<Longrightarrow> extends sl es mc mc'"
  unfolding extends_def by (rule exI [of _ "[]"], rule exI [of _ "[]"]) simp

lemma extends_trans:
  assumes "extends sl es mc mc1" and "extends sl es' mc1 mc2"
  shows "extends sl (es @ es') mc mc2"
proof -
  from assms(1) obtain bs new where 1: "mcBlocks mc1 = mcBlocks mc @ new" "list_all2 (wrote (slCodec sl)) bs new"
    "concat bs @ mcPending mc1 = mcPending mc @ es" "mcLastCut mc1 = mcLastCut mc + of_nat (length new)" by (auto simp: extends_def)
  from assms(2) obtain bs' new' where 2: "mcBlocks mc2 = mcBlocks mc1 @ new'" "list_all2 (wrote (slCodec sl)) bs' new'"
    "concat bs' @ mcPending mc2 = mcPending mc1 @ es'" "mcLastCut mc2 = mcLastCut mc1 + of_nat (length new')" by (auto simp: extends_def)
  have "concat (bs @ bs') @ mcPending mc2 = mcPending mc @ es @ es'" using 1(3) 2(3) by (metis append.assoc concat_append)
  with 1 2 show ?thesis unfolding extends_def
    by (intro exI [of _ "bs @ bs'"] exI [of _ "new @ new'"]) (simp add: list_all2_appendI)
qed

lemma next_block_wrote: "next_block c b prev = Ret blk \<Longrightarrow> wrote c b blk"
  by (auto simp: next_block_def wrote_def split: option.splits)

lemma mBlock_Ret:
  assumes "mBlock sl b mc = Ret mc'"
  obtains blk where "wrote (slCodec sl) b blk" "mc' = mc\<lparr>mcBlocks := mcBlocks mc @ [blk], mcLastCut := mcLastCut mc + 1, mcHashes := []\<rparr>"
  using assms by (auto simp: mBlock_def dest: next_block_wrote)

lemma mBlock_extends:
  assumes "mBlock sl b mc = Ret mc'" and "b @ mcPending mc = mcPending mc0 @ es" and "mcBlocks mc = mcBlocks mc0" and "mcLastCut mc = mcLastCut mc0"
  shows "extends sl es mc0 mc'"
proof -
  obtain blk where "wrote (slCodec sl) b blk" "mc' = mc\<lparr>mcBlocks := mcBlocks mc @ [blk], mcLastCut := mcLastCut mc + 1, mcHashes := []\<rparr>"
    by (rule mBlock_Ret [OF assms(1)])
  with assms(2-4) show ?thesis unfolding extends_def by (intro exI [of _ "[b]"] exI [of _ "[blk]"]) simp
qed

lemma ordered_concat: "ordered_result b m r = (batches, pending, q, sz) \<Longrightarrow> concat batches @ q = pendingBatch r @ [m]"
  by (auto simp: ordered_result_def Let_def split: if_splits)

lemma batches_extends:
  assumes run: "(if batches = [] then Ret (mc\<lparr>mcOriginal := n\<rparr>)
        else
          let mc2 = (if P then mc else mc\<lparr>mcOriginal := n\<rparr>) in
          go_bind (mBlock sl (batches ! 0) mc2) (\<lambda>mc3.
          if length batches = 2 then mBlock sl (batches ! 1) (mc3\<lparr>mcOriginal := n\<rparr>) else Ret mc3)) = Ret mc'"
    and len: "length batches \<le> 2" and old: "concat batches @ mcPending mc = mcPending mc0 @ es"
      "mcBlocks mc = mcBlocks mc0" "mcLastCut mc = mcLastCut mc0"
  shows "extends sl es mc0 mc'"
proof -
  consider "batches = []" | x where "batches = [x]" | x y where "batches = [x, y]"
    using len by (cases batches; cases "tl batches") (auto simp: le_Suc_eq)
  then show ?thesis
  proof cases
    case 1
    with run old show ?thesis by (auto intro: extends_refl)
  next
    case 2
    define mc2 where "mc2 = (if P then mc else mc\<lparr>mcOriginal := n\<rparr>)"
    have b: "mBlock sl x mc2 = Ret mc'" using run 2 by (simp add: Let_def mc2_def)
    show ?thesis by (rule mBlock_extends [OF b]) (use old 2 in \<open>simp_all add: mc2_def\<close>)
  next
    case 3
    define mc2 where "mc2 = (if P then mc else mc\<lparr>mcOriginal := n\<rparr>)"
    from run 3 obtain mc3 where b: "mBlock sl x mc2 = Ret mc3" "mBlock sl y (mc3\<lparr>mcOriginal := n\<rparr>) = Ret mc'"
      unfolding mc2_def Let_def by auto
    obtain k1 where k1: "wrote (slCodec sl) x k1" "mc3 = mc2\<lparr>mcBlocks := mcBlocks mc2 @ [k1], mcLastCut := mcLastCut mc2 + 1, mcHashes := []\<rparr>"
      by (rule mBlock_Ret [OF b(1)])
    obtain k2 where k2: "wrote (slCodec sl) y k2"
      "mc' = mc3\<lparr>mcOriginal := n, mcBlocks := mcBlocks mc3 @ [k2], mcLastCut := mcLastCut mc3 + 1, mcHashes := []\<rparr>"
      by (rule mBlock_Ret [OF b(2)]) simp
    show ?thesis unfolding extends_def
      by (intro exI [of _ "[x, y]"] exI [of _ "[k1, k2]"]) (use old 3 k1 k2 in \<open>simp add: mc2_def\<close>)
  qed
qed

lemma mNormal_extends:
  assumes "mNormal sl e n h mc = Ret mc'"
  shows "extends sl [e] mc mc'"
proof -
  from assms obtain oc where oc: "OrdererConfig_of (mcBundle mc) = Some oc" by (auto simp: mNormal_def split: option.splits)
  obtain batches pending q sz where r: "ordered_result (opBatchSize (ocProtos oc)) e (mReceiver mc) = (batches, pending, q, sz)"
    by (metis surj_pair)
  let ?mc1 = "mc\<lparr>mcPending := q, mcSize := sz\<rparr>"
  from assms oc r obtain mc4 where
    b: "(if batches = [] then Ret (?mc1\<lparr>mcOriginal := n\<rparr>)
        else
          let mc2 = (if pending \<or> length batches = 2 then ?mc1 else ?mc1\<lparr>mcOriginal := n\<rparr>) in
          go_bind (mBlock sl (batches ! 0) mc2) (\<lambda>mc3.
          if length batches = 2 then mBlock sl (batches ! 1) (mc3\<lparr>mcOriginal := n\<rparr>) else Ret mc3)) = Ret mc4"
    and mc': "mc' = (if pending then mc4\<lparr>mcHashes := List.insert h (mcHashes mc4)\<rparr> else mc4)"
    unfolding mNormal_def by (auto simp only: option.case prod.case Let_def go_bind_eq_Ret go.inject)
  have c: "concat batches @ mcPending ?mc1 = mcPending mc @ [e]" using ordered_concat [OF r] by (simp add: mReceiver_def)
  have "extends sl [e] mc mc4" by (rule batches_extends [OF b ordered_shape(1) [OF r] c]) simp_all
  then show ?thesis by (simp add: extends_def mc')
qed

lemma mConfig_extends:
  assumes "mConfig sl e n mc = Ret mc'"
  shows "extends sl [e] mc mc'"
proof -
  define mc0 where "mc0 = mc\<lparr>mcPending := [], mcSize := 0\<rparr>"
  from assms obtain mc1 blk bu where
    1: "(if mcPending mc = [] then Ret mc0 else mBlock sl (mcPending mc) mc0) = Ret mc1"
    and b: "next_block (slCodec sl) [e] (last (mcBlocks mc1)) = Ret blk"
    and mc': "mc' = mc1\<lparr>mcOriginal := n, mcBlocks := mcBlocks mc1 @ [blk], mcLastCut := mcLastCut mc1 + 1, mcBundle := bu\<rparr>"
    unfolding mConfig_def Let_def mc0_def by auto
  have "extends sl [] mc mc1 \<and> mcPending mc1 = []"
  proof (cases "mcPending mc = []")
    case True
    with 1 show ?thesis by (auto simp: mc0_def intro: extends_refl)
  next
    case False
    with 1 have m: "mBlock sl (mcPending mc) mc0 = Ret mc1" by simp
    have "mcPending mc1 = []" by (rule mBlock_Ret [OF m]) (simp add: mc0_def)
    then show ?thesis using mBlock_extends [OF m, of mc "[]"] by (simp add: mc0_def)
  qed
  moreover have "extends sl [e] mc1 mc'" if "mcPending mc1 = []"
    unfolding extends_def by (intro exI [of _ "[[e]]"] exI [of _ "[blk]"]) (use that next_block_wrote [OF b] mc' in simp)
  ultimately show ?thesis using extends_trans [of sl "[]" mc mc1 "[e]" mc'] by simp
qed

lemma mTimeToCut_extends:
  assumes "mTimeToCut sl rq s mc = Ret (r, mc')"
  shows "extends sl [] mc mc'"
proof -
  let ?c = "mc\<lparr>mcPending := [], mcSize := 0, mcOriginal := s\<rparr>"
  have "mc' = mc \<or> mcPending mc = [] \<and> mc' = mc\<lparr>mcPending := [], mcSize := 0\<rparr> \<or> mBlock sl (mcPending mc) ?c = Ret mc'"
    using assms by (auto simp: mTimeToCut_def Let_def split: option.splits TimeToCutRequest.splits if_splits)
  then show ?thesis
    using mBlock_extends [of sl "mcPending mc" ?c mc' mc "[]"] by (auto intro: extends_refl)
qed

text \<open>The envelopes that a message of the topic commits.\<close>

definition committed :: "shared_lib \<Rightarrow> TopicMessage \<Rightarrow> machine \<Rightarrow> Envelope list" where
  "committed sl resp mc =
     (case mReceive sl resp mc of
        Ret (Some (Regular msg, h), mc1) \<Rightarrow>
          if MsgClass msg = NORMAL \<or> MsgClass msg = CONFIG
          then (case mAccept sl msg mc1 of None \<Rightarrow> [] | Some e \<Rightarrow> [e]) else []
      | _ \<Rightarrow> [])"

fun committed_run :: "shared_lib \<Rightarrow> TopicMessage list \<Rightarrow> machine \<Rightarrow> Envelope list" where
  "committed_run sl [] mc = []"
| "committed_run sl (m # ms) mc =
     committed sl m mc @ (case mstep sl m mc of Ret (r, mc1) \<Rightarrow> committed_run sl ms mc1 | Panic _ \<Rightarrow> [])"

lemma mReceive_keeps:
  assumes "mReceive sl resp mc = Ret (m, mc1)"
  shows "mcBlocks mc1 = mcBlocks mc" "mcPending mc1 = mcPending mc" "mcLastCut mc1 = mcLastCut mc" "mcHashes mc1 = mcHashes mc"
  using assms by (auto simp: mReceive_def Let_def split: if_splits option.splits)

lemma mRegular_extends:
  assumes "mRegular sl msg h mc = Ret mc'"
  shows "extends sl (if MsgClass msg = NORMAL \<or> MsgClass msg = CONFIG
     then (case mAccept sl msg mc of None \<Rightarrow> [] | Some e \<Rightarrow> [e]) else []) mc mc'"
proof (cases "mAccept sl msg mc")
  case None
  with assms show ?thesis by (auto simp: mRegular_def Let_def intro: extends_refl)
next
  case (Some e)
  show ?thesis
  proof (cases "MsgClass msg")
    case NORMAL
    with Some assms mNormal_extends show ?thesis by (auto simp: mRegular_def Let_def)
  next
    case CONFIG
    with Some assms mConfig_extends show ?thesis by (auto simp: mRegular_def Let_def)
  next
    case (UnknownClass i)
    with Some assms show ?thesis by (auto simp: mRegular_def Let_def intro: extends_refl)
  qed
qed

lemma mstep_extends:
  assumes "mstep sl resp mc = Ret (r, mc')"
  shows "extends sl (committed sl resp mc) mc mc'"
proof -
  from assms obtain m mc1 where rv: "mReceive sl resp mc = Ret (m, mc1)" by (auto simp: mstep_def)
  note k = mReceive_keeps [OF rv]
  have base: "extends sl es mc1 x \<Longrightarrow> extends sl es mc x" for es x using k by (simp add: extends_def)
  show ?thesis
  proof (cases m)
    case None
    with assms rv k show ?thesis by (auto simp: mstep_def committed_def intro: extends_refl)
  next
    case (Some mh)
    obtain msg h where mh: "mh = (msg, h)" by (cases mh)
    with assms rv Some have mm: "mMessage sl msg (SequenceNumber resp) h mc1 = Ret (r, mc')" by (simp add: mstep_def)
    show ?thesis
    proof (cases msg)
      case (Regular reg)
      with mm have "mRegular sl reg h mc1 = Ret mc'" by (auto simp: mMessage_def)
      from base [OF mRegular_extends [OF this]] rv Some mh Regular show ?thesis by (simp add: committed_def)
    next
      case (TimeToCut rq)
      with mm have "mTimeToCut sl rq (SequenceNumber resp) mc1 = Ret (r, mc')" by (simp add: mMessage_def)
      from base [OF mTimeToCut_extends [OF this]] rv Some mh TimeToCut show ?thesis by (simp add: committed_def)
    next
      case (OrdererStarted i)
      with mm k rv Some mh show ?thesis by (auto simp: mMessage_def committed_def intro: extends_refl)
    next
      case TypeNotSet
      with mm k rv Some mh show ?thesis by (auto simp: mMessage_def committed_def intro: extends_refl)
    qed
  qed
qed

lemma mrun_extends: "mrun sl ms mc = Ret mc' \<Longrightarrow> extends sl (committed_run sl ms mc) mc mc'"
proof (induction ms arbitrary: mc)
  case Nil
  then show ?case by (auto intro: extends_refl)
next
  case (Cons m ms)
  then obtain r mc1 where s: "mstep sl m mc = Ret (r, mc1)" and rest: "mrun sl ms mc1 = Ret mc'" by auto
  from extends_trans [OF mstep_extends [OF s] Cons.IH [OF rest]] s show ?case by simp
qed

end
