(* ===== verification/Ordering.thy ===== *)
theory Ordering
  imports HcsMachine "HOL-Library.Sublist"
begin

text \<open>
  The properties of the ordering service as a whole: orderers agree, no accepted envelope is lost, requests to cut a block
  do not stop an orderer, submissions are unique, reconnection ends, and what restarting and resubmission do.

  The first section is a small ordering service to which the properties are applied: two orderers with different keys, a
  topic whose messages are single chunks, and a channel with the sample configuration.
\<close>

section \<open>A small ordering service\<close>

definition demo_codec :: codec where
  "demo_codec = commit_codec\<lparr>unEnvelope := (\<lambda>b. Some \<lparr>Envelope.Payload = Some b, Signature = []\<rparr>),
     maEnvelope := (\<lambda>e. Envelope.Payload e)\<rparr>"

definition demo_msg_env :: msg_env where
  "demo_msg_env =
     \<lparr>meBw = sample_env_of demo_codec, meNow = (\<lambda>_. 0), meRnd = Some [8], meNoExpirationChecks = False,
      meIdBytes = (\<lambda>_. None), meNotAfter = (\<lambda>_. None), meRaftMetadata = (\<lambda>_. False)\<rparr>"

definition demo_lib :: hedera_lib where
  "demo_lib =
     \<lparr>TopicIDFromString = Some, AccountIDFromString = (\<lambda>_. Some \<lparr>ShardNum = 0, RealmNum = 0, AccountNum = 3\<rparr>),
      PublicKeyFromString = (\<lambda>s. if s = ''a'' then Some [101] else if s = ''b'' then Some [102] else None),
      PrivateKeyFromString = (\<lambda>s. if s = ''ka'' then Some [1] else if s = ''kb'' then Some [2] else None),
      PrivateKeyFromPem = (\<lambda>_. None),
      PublicKeyOf = (\<lambda>k. map ((+) 100) k), EdSign = (\<lambda>k m. k), EdVerify = (\<lambda>pk m sg. pk = map ((+) 100) sg),
      unHcsConfigMetadata = (\<lambda>_. Some \<lparr>TopicId = ''0.0.9'',
         PublicKeys = [\<lparr>KeyType = ''ed25519'', KeyString = ''a''\<rparr>, \<lparr>KeyType = ''ed25519'', KeyString = ''b''\<rparr>],
         ReassembleTimeout = ''30s''\<rparr>)\<rparr>"

text \<open>The protobuf of an application message keeps only its payload; every message is signed by the first orderer.\<close>

definition demo_amp :: amp_lib where
  "demo_amp =
     \<lparr>MarshalAppMsg = (\<lambda>m. Some (slice_bytes (BusinessProcessMessage m))),
      UnmarshalAppMsg = (\<lambda>b. Some (wrapMessage sample_id b sample_hash [9])),
      MarshalAppSig = (\<lambda>_. Some [9]), UnmarshalAppSig = (\<lambda>_. Some \<lparr>PublicKey = Some [101], SignatureBytes = Some [1]\<rparr>),
      Sum256 = (\<lambda>_. sample_hash)\<rparr>"

definition demo_chunk :: "bytes \<Rightarrow> ApplicationMessageChunk" where
  "demo_chunk b = \<lparr>ChunkMessageId = Some sample_id, ChunksCount = 1, ChunkIndex = 0, MessageChunk = b, ChunkMetadata = None\<rparr>"

definition demo_unmarshal :: "bytes \<Rightarrow> HcsMessage option" where
  "demo_unmarshal b =
     (case b of
        [t, x] \<Rightarrow> if t = 1 then Some (newNormalMessage [x] 6 0)
                  else if t = 2 then Some (newTimeToCutMessageWithBlockNumber (ucast x)) else None
      | [t, x, y] \<Rightarrow> if t = 1 then Some (newNormalMessage [x] 6 (ucast y)) else None
      | _ \<Rightarrow> None)"

definition demo_env :: "unit hcs_env" where
  "demo_env =
     \<lparr>heMsg = demo_msg_env, heLib = demo_lib, heAmp = demo_amp,
      unChunk = (\<lambda>b. Some (demo_chunk b)), maChunk = (\<lambda>c. Some (MessageChunk c)),
      unHcsMessage = demo_unmarshal, maHcsMessage = (\<lambda>_. Some [4]),
      unHcsMetadata = (\<lambda>_. None), maHcsMetadata = (\<lambda>_. Some [3]),
      heClock = (\<lambda>w. ((\<lambda>_. 0), w)), heNonce = (\<lambda>w. (Some [8], w)), heSubmit = (\<lambda>_ _ _ w. (None, w)),
      heSubscribe = (\<lambda>_ _ w. (True, w)), hePing = (\<lambda>_ w. (True, w)), heClose = (\<lambda>w. w)\<rparr>"

definition demo_bundle :: Bundle where
  "demo_bundle =
     \<lparr>buPolicyManager = ManagerImpl [] [] [],
      buChannelConfig =
        \<lparr>ccProtos = \<lparr>cpHashingAlgorithm = [], cpBlockDataHashingStructure = 0, cpOrdererAddresses = [], cpConsortium = [], cpCapabilities = []\<rparr>,
         ccMspManager = sample_msp, ccAppConfig = None,
         ccOrdererConfig = Some
           \<lparr>ocProtos = emptyOrdererProtos\<lparr>opBatchSize := \<lparr>MaxMessageCount = 10, AbsoluteMaxBytes = 1000, PreferredMaxBytes = 2\<rparr>\<rparr>,
            ocOrgs = [], ocBatchTimeout = 2000000000\<rparr>,
         ccConsortiumsConfig = None\<rparr>,
      buConfigtxManager = \<lparr>viChannelID = ''mychannel'', viSequence = 6, viConfigMap = [], viConfigProto = \<lparr>cfgSequence = 6, cfgChannelGroup = None\<rparr>,
         viNamespace = ''Channel'', viPm = ManagerImpl [] [] []\<rparr>\<rparr>"

text \<open>A chain that has been started, with the given operator key.\<close>

definition demo_chain :: "bytes \<Rightarrow> unit chainImpl" where
  "demo_chain key =
     \<lparr>chConsenter =
        \<lparr>nextValidStart = 0,
         sharedHcsConfigVal = \<lparr>Nodes = [(''n'', ''0.0.3'')], MirrorNodeAddress = ''m'',
           Operator = \<lparr>OperatorId = ''0.0.3'', PrivateKeyType = ''ed25519'', PrivateKeyKey = ''k''\<rparr>\<rparr>,
         identityVal = [], topicChannelMap = []\<rparr>,
      chWriter = sample_bw0\<lparr>bwBundle := demo_bundle\<rparr>, chCutter = NewReceiverImpl,
      chLastConsensusTimestampPersisted = 0, chLastConsensusTimestamp = 0, chLastOrderedConsensusTimestamp = zeroTime,
      chLastOriginalSequenceProcessed = 0, chLastResubmittedConfigSequence = 0, chLastChunkFreeConsensusTimestamp = 0,
      chLastChunkFreeSequenceProcessed = 0, chLastSequenceProcessed = 0, chLastCutBlockNumber = 0,
      chDoneReprocessing = Closed, chErrorChan = Open, chHaltChan = Open, chDoneProcessing = Some Open, chStartChan = Closed,
      chRequestChan = Open, chMessageHashes = [], chNetwork = [(''n'', \<lparr>ShardNum = 0, RealmNum = 0, AccountNum = 3\<rparr>)],
      chOperatorID = \<lparr>ShardNum = 0, RealmNum = 0, AccountNum = 3\<rparr>, chOperatorKey = key, chPublicKeys = [[102], [101]],
      chTopicID = ''0.0.9'', chHandle = Some newMirrorSubscriptionHandle, chSubscribedFrom = 0, chAmp = sample_sender, chAppID = [1],
      chSendTimer = None, chSendHash = [], chRecvTimer = None, chRecvBlock = 0, chRetryTimer = None, chRetryTick = False, chRetryCount = 0,
      chRecollect = False, chWorld = ()\<rparr>"

definition demo_message :: "u64 \<Rightarrow> bytes \<Rightarrow> TopicMessage" where
  "demo_message n b = \<lparr>SequenceNumber = n, ConsensusTimestamp = 10 * uint n, Contents = b\<rparr>"

definition demo_pending :: "bytes \<Rightarrow> unit chainImpl" where
  "demo_pending key = (demo_chain key)
     \<lparr>chCutter := \<lparr>pendingBatch = [\<lparr>Envelope.Payload = Some [7], Signature = []\<rparr>], pendingBatchSizeBytes = 1, PendingBatchStartTime = 0, BlockFillDuration = []\<rparr>,
      chLastConsensusTimestamp := 10, chLastOrderedConsensusTimestamp := 10, chLastChunkFreeConsensusTimestamp := 10,
      chLastChunkFreeSequenceProcessed := 1, chLastSequenceProcessed := 1, chMessageHashes := [sample_hash],
      chRecvTimer := Some 2000000000, chRecvBlock := 1\<rparr>"

lemma demo_expire: "expireByTimestamp t sample_sender = Ret (0, 0, sample_sender)"
  by (subst expireByTimestamp.simps) (simp add: sample_sender_def)

lemma demo_reassemble:
  "Reassemble demo_amp (verifyWith demo_lib [[102], [101]]) (demo_chunk b) t sample_sender =
     Ret (\<lparr>resMessage = Some b, resHash = Some sample_hash, expiredMessages = 0, expiredChunks = 0, resErr = None\<rparr>, sample_sender)"
  by (simp add: Reassemble_def demo_chunk_def validResult_def openResult_def openAppMsg_def demo_amp_def wrapMessage_def
    verifyWith_def demo_lib_def finishValid_def demo_expire)

lemma demo_ordered:
  "Ordered (Some \<lparr>MaxMessageCount = 10, AbsoluteMaxBytes = 1000, PreferredMaxBytes = 2\<rparr>) (\<lambda>_. 0) \<lparr>Envelope.Payload = Some [x], Signature = []\<rparr> NewReceiverImpl =
     Ret ([], True, \<lparr>pendingBatch = [\<lparr>Envelope.Payload = Some [x], Signature = []\<rparr>], pendingBatchSizeBytes = 1, PendingBatchStartTime = 0, BlockFillDuration = []\<rparr>)"
  by (simp add: Ordered_def NewReceiverImpl_def messageSizeBytes_def Let_def word_le_nat_alt)

lemma demo_oc: "OrdererConfig_of demo_bundle = Some
    \<lparr>ocProtos = emptyOrdererProtos\<lparr>opBatchSize := \<lparr>MaxMessageCount = 10, AbsoluteMaxBytes = 1000, PreferredMaxBytes = 2\<rparr>\<rparr>, ocOrgs = [], ocBatchTimeout = 2000000000\<rparr>"
  by (simp add: OrdererConfig_of_def demo_bundle_def)

lemma demo_seq: "viSequence (buConfigtxManager demo_bundle) = 6"
  by (simp add: demo_bundle_def)

lemmas demo_defs = demo_seq demo_chain_def demo_env_def demo_msg_env_def demo_codec_def demo_unmarshal_def
  demo_message_def sample_env_of_def sample_bw0_def demo_ordered demo_oc demo_reassemble

lemmas chain_defs = loopStep_def handleMessage_def checkOrder_def noteChunkFree_def processMessage_def processRegularMessage_def consumedAlready_def newSequence_def
  commitNormalMessage_def readClock_def handleTimeToCutRequest_def SharedConfig_def chain_Verify_def

lemma demo_idle: "\<not> IsPending sample_sender"
  by (simp add: IsPending_def sample_sender_def)

lemma demo_step1: "loopStep demo_env (Message (demo_message 1 [1, 7])) (demo_chain key) = Ret (Continue, demo_pending key)"
  by (simp add: chain_defs demo_defs demo_pending_def Sequence_def newNormalMessage_def demo_idle)

definition demo_block :: Block where
  "demo_block = \<lparr>blkHeader = Some \<lparr>Number = 1, PreviousHash = BlockHeaderHash \<lparr>Number = 0, PreviousHash = [], DataHash = [7]\<rparr>, DataHash = BlockDataHash [[7]]\<rparr>,
     blkData = Some [[7]], blkMetadata = Some (replicate 5 [])\<rparr>"

definition demo_cut :: "bytes \<Rightarrow> unit chainImpl" where
  "demo_cut key = (demo_pending key)
     \<lparr>chWriter := (chWriter (demo_pending key))\<lparr>bwLastBlock := demo_block, bwPending := Some [3]\<rparr>,
      chCutter := \<lparr>pendingBatch = [], pendingBatchSizeBytes = 0, PendingBatchStartTime = zeroTime, BlockFillDuration = [0]\<rparr>,
      chLastConsensusTimestamp := 20, chLastOriginalSequenceProcessed := 2, chLastChunkFreeConsensusTimestamp := 20,
      chLastChunkFreeSequenceProcessed := 2, chLastSequenceProcessed := 2, chLastCutBlockNumber := 1, chMessageHashes := [],
      chRecvTimer := None\<rparr>"

lemmas cut_defs = processTimeToCutMessage_def chain_WriteBlock_def CreateNextBlock_def WriteBlock_def NewBlock_def newTimeToCutMessageWithBlockNumber_def
  timestampProtoOrPanic_def TimestampProto_def validateTimestamp_def

lemma demo_step2: "loopStep demo_env (Message (demo_message 2 [2, 1])) (demo_pending key) = Ret (Continue, demo_cut key)"
  by (simp add: chain_defs demo_defs demo_pending_def demo_cut_def demo_block_def cut_defs demo_idle Cut_def sample_block0_def Let_def)

lemma demo_keys: "configKeys demo_lib demo_bundle = Some [[102], [101]]"
  by (simp add: configKeys_def demo_oc demo_lib_def List.insert_def)

lemma demo_ok: "key = [1] \<or> key = [2] \<Longrightarrow> chain_ok demo_env (demo_chain key)" "key = [1] \<or> key = [2] \<Longrightarrow> timer_ok (demo_chain key)"
  by (auto simp: chain_ok_def timer_ok_def demo_chain_def sample_inv demo_env_def demo_keys operatorKey_def blocks_def sample_bw0_def content_def)
    (auto simp: demo_lib_def)

lemma demo_listed:
  assumes "key = [1] \<or> key = [2]"
  shows "operator_listed demo_env (demo_chain key)" "operator_listed demo_env (demo_pending key)"
  using assms by (auto simp: operator_listed_def demo_chain_def demo_pending_def demo_env_def demo_keys operatorKey_def sample_bw0_def)
    (auto simp: demo_lib_def)

lemma demo_decoder: "decoder_ok demo_env"
  by (simp add: decoder_ok_def demo_env_def demo_chunk_def)

lemma demo_run1:
  assumes "key = [1] \<or> key = [2]"
  shows "chain_run demo_env (operator_listed demo_env) (demo_chain key) [demo_message 1 [1, 7]] (demo_pending key)"
  using run_loop [where good = "operator_listed demo_env", OF run_start _ demo_listed(1) [OF assms] demo_step1]
  by (simp add: enabled_def demo_chain_def newMirrorSubscriptionHandle_def)

lemma demo_run2:
  assumes "key = [1] \<or> key = [2]"
  shows "chain_run demo_env (operator_listed demo_env) (demo_chain key) [demo_message 1 [1, 7], demo_message 2 [2, 1]] (demo_cut key)"
  using run_loop [where good = "operator_listed demo_env", OF demo_run1 [OF assms] _ demo_listed(2) [OF assms] demo_step2]
  by (simp add: enabled_def demo_pending_def demo_chain_def newMirrorSubscriptionHandle_def)

lemma demo_blocks:
  "blocks (chWriter (demo_chain key)) = [content sample_block0]" "blocks (chWriter (demo_pending key)) = [content sample_block0]"
  "blocks (chWriter (demo_cut key)) = [content sample_block0, content demo_block]"
  "pendingBatch (chCutter (demo_chain key)) = []" "pendingBatch (chCutter (demo_cut key)) = []" "chLastCutBlockNumber (demo_cut key) = 1"
  by (simp_all add: demo_cut_def demo_pending_def demo_chain_def blocks_def sample_bw0_def NewReceiverImpl_def)

section \<open>Agreement\<close>

text \<open>
  C2. The chain refines the replicated state machine: whatever the interleaving of its message loop with clients, timers,
  reconnections and health checks, its blocks, bundle, pending batch, incomplete messages and counters are those of the machine
  after the messages it consumed, with no clock, network, timer or store of chunks.  The operator key has to be listed in the
  configurations the chain goes through, and the chain has finished the recollection of chunks that follows a restart.
\<close>

theorem chain_refines_machine:
  assumes "chain_run env (operator_listed env) ch ms ch'" and "chain_ok env ch" and "decoder_ok env"
  shows "mrun (shared env) ms (core ch) = Ret (core ch')"
  using chain_run_sim [OF assms] by blast

theorem chain_refines_machine_witness:
  "\<exists>mc. mrun (shared demo_env) [demo_message 1 [1, 7], demo_message 2 [2, 1]] (core (demo_chain [1])) = Ret mc
     \<and> mcLastCut mc = 1 \<and> length (mcBlocks mc) = 2 \<and> mcPending mc = []"
proof -
  have "mrun (shared demo_env) [demo_message 1 [1, 7], demo_message 2 [2, 1]] (core (demo_chain [1])) = Ret (core (demo_cut [1]))"
    by (rule chain_refines_machine [OF demo_run2 demo_ok(1) demo_decoder]) simp_all
  moreover have "mcLastCut (core (demo_cut [1])) = 1 \<and> length (mcBlocks (core (demo_cut [1]))) = 2 \<and> mcPending (core (demo_cut [1])) = []"
    by (simp add: demo_blocks)
  ultimately show ?thesis by blast
qed

text \<open>
  C1. Orderers agree.  Take two orderers of a channel with their own keys, clocks, clients, timers and network, that have finished the recollection of
  chunks, in states with the same machine, and let each have its operator key among the keys of the configuration whenever it consumes a message (an orderer with
  an unlisted key accepts its own messages, which the others reject).  If the messages one has consumed are a prefix of the messages the other has consumed, its blocks (headers with
  their hash links, and data) are a prefix of the blocks of the other; after the same messages the whole machine is the same.
\<close>

theorem replicas_agree:
  assumes run1: "chain_run env1 (operator_listed env1) ch1 ms1 ch1'" and run2: "chain_run env2 (operator_listed env2) ch2 ms2 ch2'"
    and ok: "chain_ok env1 ch1" "chain_ok env2 ch2" "decoder_ok env1" "decoder_ok env2"
    and same: "shared env1 = shared env2" "core ch1 = core ch2" and pre: "prefix ms1 ms2"
  shows "prefix (blocks (chWriter ch1')) (blocks (chWriter ch2')) \<and> (ms1 = ms2 \<longrightarrow> core ch1' = core ch2')"
proof -
  note r1 = chain_run_sim [OF run1 ok(1,3), THEN conjunct1] and r2 = chain_run_sim [OF run2 ok(2,4), THEN conjunct1]
  from pre obtain ms where ms: "ms2 = ms1 @ ms" by (auto simp: prefix_def)
  from r1 r2 have "mrun (shared env2) ms (core ch1') = Ret (core ch2')" by (simp add: same ms mrun_append)
  from mrun_extends [OF this] have "prefix (blocks (chWriter ch1')) (blocks (chWriter ch2'))" by (auto simp: extends_def prefix_def)
  moreover have "ms1 = ms2 \<longrightarrow> core ch1' = core ch2'" using r1 r2 by (auto simp: same)
  ultimately show ?thesis ..
qed

theorem replicas_agree_witness:
  "prefix (blocks (chWriter (demo_pending [1]))) (blocks (chWriter (demo_cut [2])))"
proof -
  have "core (demo_chain [1]) = core (demo_chain [2])" by (simp add: core_def demo_chain_def)
  from replicas_agree [OF demo_run1 demo_run2 demo_ok(1) demo_ok(1) demo_decoder demo_decoder refl this] show ?thesis by simp
qed

text \<open>
  C3. No envelope is lost, duplicated or reordered: between two states of a chain that has finished the recollection of chunks, with its operator key listed
  in the configurations it goes through, the blocks it appended and then the batch it
  keeps pending hold exactly the envelopes that were pending before and the envelopes of the messages accepted meanwhile, in the
  order of the topic; each new block holds the marshalled envelopes of one batch.
\<close>

theorem accepted_envelopes_conserved:
  assumes "chain_run env (operator_listed env) ch ms ch'" and "chain_ok env ch" and "decoder_ok env"
  shows "\<exists>bs new. blocks (chWriter ch') = blocks (chWriter ch) @ new \<and> list_all2 (wrote (meCodec (heMsg env))) bs new
     \<and> concat bs @ pendingBatch (chCutter ch') = pendingBatch (chCutter ch) @ committed_run (shared env) ms (core ch)"
  using mrun_extends [OF chain_run_sim [OF assms, THEN conjunct1]] by (auto simp: extends_def)

theorem accepted_envelopes_conserved_witness:
  "\<exists>bs. list_all2 (wrote demo_codec) bs [content demo_block]
     \<and> concat bs = committed_run (shared demo_env) [demo_message 1 [1, 7], demo_message 2 [2, 1]] (core (demo_chain [1]))"
proof -
  have "meCodec (heMsg demo_env) = demo_codec" by (simp add: demo_env_def demo_msg_env_def sample_env_of_def)
  with accepted_envelopes_conserved [OF demo_run2 demo_ok(1) demo_decoder, of "[1]"] show ?thesis
    by (auto simp only: demo_blocks append_Cons append_Nil append_Nil2 list.inject simp_thms)
qed

section \<open>Requests to cut a block\<close>

text \<open>The last cut block is the last block, as \<open>newChain\<close> sets it up.\<close>

definition numbered :: "'w chainImpl \<Rightarrow> bool" where
  "numbered ch \<longleftrightarrow> chLastCutBlockNumber ch + 1 = of_nat (length (blocks (chWriter ch)))"

lemma extends_numbered:
  assumes "extends sl es (core ch) (core ch')" and "numbered ch"
  shows "numbered ch'" and "length (blocks (chWriter ch)) \<le> length (blocks (chWriter ch'))"
    and "length (blocks (chWriter ch)) = length (blocks (chWriter ch')) \<Longrightarrow> pendingBatch (chCutter ch) \<noteq> [] \<Longrightarrow> pendingBatch (chCutter ch') \<noteq> []"
  using assms by (auto simp: extends_def numbered_def algebra_simps)

lemma of_nat_u64_less: "a < b \<Longrightarrow> b < 2 ^ 64 \<Longrightarrow> (of_nat a :: u64) < of_nat b"
  by (simp add: word_less_nat_alt unat_of_nat_u64)

lemma of_nat_u64_eq: "(of_nat a :: u64) = of_nat b \<Longrightarrow> a < 2 ^ 64 \<Longrightarrow> b < 2 ^ 64 \<Longrightarrow> a = b"
  by (metis unat_of_nat_u64)

text \<open>A request is answered without an error unless it is for a later block, or for the next one with nothing pending.\<close>

lemma time_to_cut_error:
  assumes "processTimeToCutMessage env (Some request) ts n ch = Ret (Some err, ch')"
  shows "(case request of BlockNumber b \<Rightarrow> b > chLastCutBlockNumber ch + 1 \<or> b = chLastCutBlockNumber ch + 1 \<and> pendingBatch (chCutter ch) = []
      | MessageHash h \<Rightarrow> h \<in> set (chMessageHashes ch) \<and> pendingBatch (chCutter ch) = [])"
proof -
  obtain now ch0 where 0: "readClock env ch = (now, ch0)" by fastforce
  obtain batch r where cut: "Cut (now 0) (chCutter ch0) = (batch, r)" by fastforce
  have "chCutter ch0 = chCutter ch" using readClock_sent [OF 0] by (auto simp: sent_def)
  then have "batch = pendingBatch (chCutter ch)" using cut by (metis Cut_simps(1) fst_conv)
  with assms show ?thesis
    by (auto simp: processTimeToCutMessage_def 0 cut Let_def split: TimeToCutRequest.splits if_splits)
qed

text \<open>
  C12. Requests to cut a block never stop an orderer.  Take two orderers that have finished the recollection of chunks, start with the same machine, have their
  operator keys listed in the configurations they go through, number their blocks consecutively (fewer than 2^64 of them), and run the timer of the receiving side only for the next block and while envelopes are
  pending.  A sender whose timer runs asks for its next block, after a reconnection for its last block, and with a message hash for the batch with that message.  When another orderer, which has by then consumed at least the messages that
  the sender had consumed, processes such a request, it does not end with the error that makes the message loop exit.
\<close>

theorem time_to_cut_harmless:
  assumes run1: "chain_run env1 (operator_listed env1) ch1 ms1 s1" and run2: "chain_run env2 (operator_listed env2) ch2 ms2 s2"
    and ok: "chain_ok env1 ch1" "chain_ok env2 ch2" "decoder_ok env1" "decoder_ok env2" "timer_ok ch1" "timer_ok ch2"
    and same: "shared env1 = shared env2" "core ch1 = core ch2" and pre: "prefix ms1 ms2"
    and num: "numbered ch1" "length (blocks (chWriter s2)) < 2 ^ 64"
    and request: "chRecvTimer s1 \<noteq> None \<and> request = BlockNumber (chRecvBlock s1) \<or> request = BlockNumber (chLastCutBlockNumber s1)
       \<or> (\<exists>h. request = MessageHash h)"
    and answer: "processTimeToCutMessage env2 (Some request) ts n s2 = Ret (err, s2')"
  shows "err = None"
proof (rule ccontr)
  note r1 = chain_run_sim [OF run1 ok(1,3)] and r2 = chain_run_sim [OF run2 ok(2,4)]
  have t: "timer_ok s1" "timer_ok s2" and ok1: "chain_ok env1 s1" using r1 r2 ok(5,6) by (auto simp: simulates_def)
  from pre obtain ms where ms: "ms2 = ms1 @ ms" by (auto simp: prefix_def)
  from r1 r2 have rest: "mrun (shared env2) ms (core s1) = Ret (core s2)" by (simp add: same ms mrun_append)
  note E1 = extends_numbered [OF mrun_extends [OF r1 [THEN conjunct1]] num(1)]
  note E2 = extends_numbered [OF mrun_extends [OF rest] E1(1)]
  let ?a = "length (blocks (chWriter s1))" and ?b = "length (blocks (chWriter s2))"
  have a: "?a < 2 ^ 64" "0 < ?a" using E2(2) num(2) ok1 by (auto simp: chain_ok_def)
  have n1: "chLastCutBlockNumber s1 + 1 = of_nat ?a" and n2: "chLastCutBlockNumber s2 + 1 = of_nat ?b"
    using E1(1) E2(1) by (simp_all add: numbered_def)
  have "of_nat ?a = (of_nat (?a - 1) :: u64) + 1" using a(2) by (metis Suc_diff_1 of_nat_Suc add.commute)
  then have l1: "chLastCutBlockNumber s1 = of_nat (?a - 1)" using n1 by simp
  assume "err \<noteq> None"
  with answer obtain e where "processTimeToCutMessage env2 (Some request) ts n s2 = Ret (Some e, s2')" by auto
  note bad = time_to_cut_error [OF this]
  show False
  proof (cases request)
    case (MessageHash h)
    with bad t(2) show False by (auto simp: timer_ok_def)
  next
    case (BlockNumber b)
    with request consider "b = of_nat ?a" "pendingBatch (chCutter s1) \<noteq> []" | "b = of_nat (?a - 1)"
      using t(1) n1 l1 by (auto simp: timer_ok_def)
    then show False
    proof cases
      case 1
      have "\<not> b > of_nat ?b" using 1(1) E2(2) num(2) a(1) by (simp add: word_less_nat_alt unat_of_nat_u64)
      with bad BlockNumber 1(1) have "(of_nat ?a :: u64) = of_nat ?b" "pendingBatch (chCutter s2) = []" by (simp_all add: n2)
      with E2(3) 1(2) of_nat_u64_eq [OF this(1) a(1) num(2)] show False by simp
    next
      case 2
      have "(of_nat (?a - 1) :: u64) < of_nat ?b" by (rule of_nat_u64_less [OF _ num(2)]) (use E2(2) a(2) in linarith)
      with bad BlockNumber 2 show False by (auto simp: n2 dest: less_not_sym)
    qed
  qed
qed

theorem time_to_cut_harmless_witness:
  "\<exists>err s2'. processTimeToCutMessage demo_env (Some (BlockNumber (chRecvBlock (demo_pending [1])))) 20 2 (demo_pending [2]) = Ret (err, s2')
     \<and> err = None"
proof -
  have c: "core (demo_chain [1]) = core (demo_chain [2])" by (simp add: core_def demo_chain_def)
  have n: "numbered (demo_chain [1])" "length (blocks (chWriter (demo_pending [2]))) < 2 ^ 64"
    by (simp_all add: numbered_def demo_blocks) (simp add: demo_chain_def)
  have q: "chRecvTimer (demo_pending [1]) \<noteq> None \<and> BlockNumber (chRecvBlock (demo_pending [1])) = BlockNumber (chRecvBlock (demo_pending [1]))
      \<or> BlockNumber (chRecvBlock (demo_pending [1])) = BlockNumber (chLastCutBlockNumber (demo_pending [1])) \<or> (\<exists>h. BlockNumber (chRecvBlock (demo_pending [1])) = MessageHash h)"
    by (simp add: demo_pending_def)
  have "\<exists>err s2'. processTimeToCutMessage demo_env (Some (BlockNumber (chRecvBlock (demo_pending [1])))) 20 2 (demo_pending [2]) = Ret (err, s2')"
    by (simp add: chain_defs demo_defs demo_pending_def cut_defs Cut_def sample_block0_def Let_def)
  then obtain err s2' where r: "processTimeToCutMessage demo_env (Some (BlockNumber (chRecvBlock (demo_pending [1])))) 20 2 (demo_pending [2]) = Ret (err, s2')"
    by blast
  have "err = None"
    by (rule time_to_cut_harmless [OF demo_run1 demo_run1 demo_ok(1) demo_ok(1) demo_decoder demo_decoder demo_ok(2) demo_ok(2) refl c _ n q r]) simp_all
  with r show ?thesis by blast
qed

section \<open>Restarting and resubmission\<close>

lemma newChain_times:
  assumes "newChain env consenter bw cutter (persisted, original, resubmitted, chunkFree, chunkFreeSeq) w = Ret (Inr chain)"
  shows "chLastConsensusTimestampPersisted chain = persisted" "chLastChunkFreeConsensusTimestamp chain = chunkFree"
proof -
  from assms obtain oc where oc: "SharedConfig (bwBundle bw) = Ret oc" by (auto simp: newChain_def)
  note a = assms [unfolded newChain_def oc prod.case go_bind.simps]
  obtain pc where pc: "parseConfig (heLib env) (consensusMetadata oc) (sharedHcsConfigVal consenter) = Inr pc"
    using a by (cases "parseConfig (heLib env) (consensusMetadata oc) (sharedHcsConfigVal consenter)") auto
  show "chLastConsensusTimestampPersisted chain = persisted" "chLastChunkFreeConsensusTimestamp chain = chunkFree"
    using a [unfolded pc sum.case]
    by (cases "newAppMsgProcessor (pcOperatorID pc) (Some (md5_Sum (identityVal consenter))) maxConsensusMessageSize (pcReassembleTimeout pc) False"; auto)+
qed

text \<open>
  C15. An orderer may be unable to restart.  When an envelope does not fit into the pending batch, and starts a new one, the block cut from the old batch records
  the consensus time of the envelope before it, but the chunk-free time of the current one.  As long as this block is the last one,
  a chain created from its metadata panics when it starts, because the chunk-free time is after the persisted time.
\<close>

theorem restart_refused:
  assumes run: "commitNormalMessage env e ts newSeq h ch = Ret ch'"
    and oc: "OrdererConfig_of (chBundle ch) = Some oc"
    and overflow: "ordered_result (opBatchSize (ocProtos oc)) e (chCutter ch) = ([b], True, q, sz)"
    and free: "chLastOrderedConsensusTimestamp ch < chLastChunkFreeConsensusTimestamp ch"
    and dec: "\<And>m x. maHcsMetadata env m = Some x \<Longrightarrow> unHcsMetadata env x = Some m"
  shows "\<exists>md st. bwPending (chWriter ch') = Some md \<and> getStateFromMetadata (unHcsMetadata env) (Some md) = Ret st
     \<and> (\<forall>consenter bw cutter w chain. newChain env consenter bw cutter st w = Ret (Inr chain) \<longrightarrow> is_panic (startThread env chain))"
proof -
  obtain now ch0 where 0: "readClock env ch = (now, ch0)" by fastforce
  have f0: "chBundle ch0 = chBundle ch" "chCutter ch0 = chCutter ch" "chLastChunkFreeConsensusTimestamp ch0 = chLastChunkFreeConsensusTimestamp ch"
      "chLastOrderedConsensusTimestamp ch0 = chLastOrderedConsensusTimestamp ch"
    using readClock_sent [OF 0] by (auto simp: sent_def)
  obtain r where o: "Ordered (Some (opBatchSize (ocProtos oc))) now e (chCutter ch) = Ret ([b], True, r)"
    using Ordered_Some [of "opBatchSize (ocProtos oc)" now e "chCutter ch"] overflow by auto
  from run obtain blk ch3 ch6 where
    w: "chain_WriteBlock env blk False (chLastOrderedConsensusTimestamp ch) (ch0\<lparr>chCutter := r\<rparr>) = Ret ch3"
    and rq: "handleTimeToCutRequest \<lparr>ttcStart = True, ttcNextBlockNumber = chLastCutBlockNumber ch3 + 1, ttcMessageHash = None\<rparr> ch3 = Ret ch6"
    and ch': "ch' = ch6\<lparr>chMessageHashes := List.insert (slice_bytes h) (chMessageHashes ch6)\<rparr>"
    unfolding commitNormalMessage_def 0 prod.case by (auto simp: f0 oc o Let_def)
  obtain md bw tsp usp where wb: "WriteBlock (heBw env) blk md (chWriter ch0) = Ret bw"
    and t: "TimestampProto (chLastOrderedConsensusTimestamp ch) = Some tsp" "TimestampProto (chLastChunkFreeConsensusTimestamp ch) = Some usp"
    and md: "maHcsMetadata env (newHcsMetadata tsp (chLastOriginalSequenceProcessed ch0) (chLastResubmittedConfigSequence ch0) usp
        (chLastChunkFreeSequenceProcessed ch0)) = Some md"
    and ch3: "chWriter ch3 = bw"
    by (rule chain_WriteBlock_Ret [OF w]) (simp add: f0)
  have "chWriter ch6 = chWriter ch3" by (rule start_request [OF rq]) simp
  then have p: "bwPending (chWriter ch') = Some md" using WriteBlock_blocks(5) [OF wb] by (simp add: ch' ch3)
  let ?st = "(chLastOrderedConsensusTimestamp ch, chLastOriginalSequenceProcessed ch0, chLastResubmittedConfigSequence ch0,
      chLastChunkFreeConsensusTimestamp ch, chLastChunkFreeSequenceProcessed ch0)"
  have s: "getStateFromMetadata (unHcsMetadata env) (Some md) = Ret ?st"
    using dec [OF md] by (simp add: getStateFromMetadata_def newHcsMetadata_def Timestamp_roundtrip [OF t(1)] Timestamp_roundtrip [OF t(2)])
  have "is_panic (startThread env chain)" if "newChain env consenter bw cutter ?st w = Ret (Inr chain)" for consenter bw cutter w chain
    using newChain_times [OF that] free by (simp add: startThread_def)
  with p s show ?thesis by blast
qed

definition demo_metadata :: HcsMetadata where
  "demo_metadata = newHcsMetadata \<lparr>Seconds = 0, Nanos = 10\<rparr> 0 0 \<lparr>Seconds = 0, Nanos = 20\<rparr> 2"

definition restart_env :: "unit hcs_env" where
  "restart_env = demo_env\<lparr>maHcsMetadata := (\<lambda>m. if m = demo_metadata then Some [3] else None), unHcsMetadata := (\<lambda>b. if b = [3] then Some demo_metadata else None)\<rparr>"

definition restart_chain :: "unit chainImpl" where
  "restart_chain = (demo_pending [1])\<lparr>chLastConsensusTimestamp := 20, chLastChunkFreeConsensusTimestamp := 20, chLastSequenceProcessed := 2, chLastChunkFreeSequenceProcessed := 2\<rparr>"

definition restart_envelope :: Envelope where
  "restart_envelope = \<lparr>Envelope.Payload = Some [8, 9], Signature = []\<rparr>"

definition restart_consenter :: consenterImpl where
  "restart_consenter = (chConsenter restart_chain)\<lparr>sharedHcsConfigVal :=
     \<lparr>Nodes = [(''n'', ''0.0.3'')], MirrorNodeAddress = ''m'',
      Operator = \<lparr>OperatorId = ''0.0.3'', PrivateKeyType = ''ed25519'', PrivateKeyKey = ''ka''\<rparr>\<rparr>\<rparr>"

lemma restart_new: "\<exists>chain. newChain restart_env restart_consenter (chWriter restart_chain) NewReceiverImpl st () = Ret (Inr chain)"
proof -
  have p: "ParseDuration ''30s'' = Some 30000000000" by code_simp
  have k: "parseEd25519PrivateKey demo_lib ''ka'' = Some [1]"
    by (simp add: parseEd25519PrivateKey_def demo_lib_def)
  obtain pc where pc: "parseConfig demo_lib md (sharedHcsConfigVal restart_consenter) = Inr pc" for md
    by (simp add: parseConfig_def restart_consenter_def k) (simp add: demo_lib_def p getPublicKeys_def parseNodes_def)
  show ?thesis
    by (cases st) (simp add: newChain_def SharedConfig_def restart_env_def restart_chain_def demo_defs demo_pending_def pc newAppMsgProcessor_def)
qed

theorem restart_refused_witness:
  "\<exists>ch' md st chain. commitNormalMessage restart_env restart_envelope 20 0 None restart_chain = Ret ch'
     \<and> bwPending (chWriter ch') = Some md \<and> getStateFromMetadata (unHcsMetadata restart_env) (Some md) = Ret st
     \<and> newChain restart_env restart_consenter (chWriter restart_chain) NewReceiverImpl st () = Ret (Inr chain) \<and> is_panic (startThread restart_env chain)"
proof -
  have o: "OrdererConfig_of (chBundle restart_chain) = Some
      \<lparr>ocProtos = emptyOrdererProtos\<lparr>opBatchSize := \<lparr>MaxMessageCount = 10, AbsoluteMaxBytes = 1000, PreferredMaxBytes = 2\<rparr>\<rparr>, ocOrgs = [], ocBatchTimeout = 2000000000\<rparr>"
    by (simp add: restart_chain_def demo_pending_def demo_chain_def demo_oc)
  have ov: "ordered_result \<lparr>MaxMessageCount = 10, AbsoluteMaxBytes = 1000, PreferredMaxBytes = 2\<rparr> restart_envelope (chCutter restart_chain)
      = ([pendingBatch (chCutter restart_chain)], True, [restart_envelope], 2)"
    by (simp add: ordered_result_def restart_chain_def demo_pending_def restart_envelope_def messageSizeBytes_def Let_def word_le_nat_alt)
  have f: "chLastOrderedConsensusTimestamp restart_chain < chLastChunkFreeConsensusTimestamp restart_chain"
    by (simp add: restart_chain_def demo_pending_def)
  have d: "maHcsMetadata restart_env m = Some x \<Longrightarrow> unHcsMetadata restart_env x = Some m" for m x
    by (simp add: restart_env_def split: if_splits)
  have "\<exists>ch'. commitNormalMessage restart_env restart_envelope 20 0 None restart_chain = Ret ch'"
    by (simp add: restart_env_def restart_chain_def restart_envelope_def demo_metadata_def chain_defs demo_defs demo_pending_def cut_defs Cut_def
      Ordered_def messageSizeBytes_def word_le_nat_alt sample_block0_def Let_def)
  then obtain ch' where r: "commitNormalMessage restart_env restart_envelope 20 0 None restart_chain = Ret ch'" ..
  from restart_refused [OF r o, where b = "pendingBatch (chCutter restart_chain)" and q = "[restart_envelope]" and sz = 2] ov f d
  obtain md st where "bwPending (chWriter ch') = Some md" "getStateFromMetadata (unHcsMetadata restart_env) (Some md) = Ret st"
    and p: "\<forall>consenter bw cutter w chain. newChain restart_env consenter bw cutter st w = Ret (Inr chain) \<longrightarrow> is_panic (startThread restart_env chain)"
    by auto
  moreover obtain chain where c: "newChain restart_env restart_consenter (chWriter restart_chain) NewReceiverImpl st () = Ret (Inr chain)"
    using restart_new by blast
  moreover have "is_panic (startThread restart_env chain)" using p c by blast
  ultimately show ?thesis using r by blast
qed

text \<open>
  C16. A request to cut a block makes an orderer discard resubmissions.  It records its own sequence number as the last original
  sequence processed; a message received earlier, found to be validated under an old configuration and submitted again, carries its earlier
  sequence number, and is dropped when it arrives, without an error.
\<close>

theorem resubmission_discarded:
  assumes cut: "processTimeToCutMessage env request ts n ch = Ret (err, ch')" and block: "chLastCutBlockNumber ch' \<noteq> chLastCutBlockNumber ch"
    and again: "OriginalSeq msg \<noteq> 0" "OriginalSeq msg \<le> n" "MsgClass msg = NORMAL \<or> MsgClass msg = CONFIG"
      "unEnvelope (meCodec (heMsg env)) (RegularPayload msg) = Some e"
  shows "processRegularMessage env msg ts' n' h ch' = Ret (None, ch')"
proof -
  have "chLastOriginalSequenceProcessed ch' = n"
  proof -
    obtain now ch0 where 0: "readClock env ch = (now, ch0)" by fastforce
    obtain batch r where c: "Cut (now 0) (chCutter ch0) = (batch, r)" by fastforce
    have "chLastCutBlockNumber ch0 = chLastCutBlockNumber ch" using readClock_sent [OF 0] by (auto simp: sent_def)
    with cut block obtain blk where
      "chain_WriteBlock env blk False ts (ch0\<lparr>chCutter := r, chLastOriginalSequenceProcessed := n\<rparr>) = Ret ch'"
      by (auto simp: processTimeToCutMessage_def 0 c Let_def split: option.splits TimeToCutRequest.splits if_splits)
    then show ?thesis by (rule chain_WriteBlock_Ret) simp
  qed
  with again show ?thesis by (auto simp: processRegularMessage_def consumedAlready_def)
qed

theorem resubmission_discarded_witness:
  "\<exists>err ch'. processTimeToCutMessage demo_env (Some (BlockNumber 1)) 20 2 (demo_pending [1]) = Ret (err, ch')
     \<and> processRegularMessage demo_env \<lparr>RegularPayload = [5], ConfigSeq = 6, MsgClass = NORMAL, OriginalSeq = 1\<rparr> 30 3 None ch' = Ret (None, ch')"
proof -
  have "\<exists>err ch'. processTimeToCutMessage demo_env (Some (BlockNumber 1)) 20 2 (demo_pending [1]) = Ret (err, ch') \<and> chLastCutBlockNumber ch' = 1"
    by (simp add: chain_defs demo_defs demo_pending_def cut_defs Cut_def sample_block0_def Let_def)
  then obtain err ch' where r: "processTimeToCutMessage demo_env (Some (BlockNumber 1)) 20 2 (demo_pending [1]) = Ret (err, ch')"
    and l: "chLastCutBlockNumber ch' = 1" by blast
  have "chLastCutBlockNumber (demo_pending [1]) = 0" by (simp add: demo_pending_def demo_chain_def)
  with l have d: "chLastCutBlockNumber ch' \<noteq> chLastCutBlockNumber (demo_pending [1])" by simp
  have e: "unEnvelope (meCodec (heMsg demo_env)) (RegularPayload \<lparr>RegularPayload = [5], ConfigSeq = 6, MsgClass = NORMAL, OriginalSeq = 1\<rparr>)
      = Some \<lparr>Envelope.Payload = Some [5], Signature = []\<rparr>"
    by (simp add: demo_env_def demo_msg_env_def demo_codec_def sample_env_of_def)
  have "processRegularMessage demo_env \<lparr>RegularPayload = [5], ConfigSeq = 6, MsgClass = NORMAL, OriginalSeq = 1\<rparr> 30 3 None ch' = Ret (None, ch')"
    by (rule resubmission_discarded [OF r d _ _ _ e]) simp_all
  with r show ?thesis by blast
qed

section \<open>Reconnecting\<close>

text \<open>
  The delay that an error of the stream sets for the retry timer, if any.
\<close>

definition errorDelay :: "Status \<Rightarrow> 'w chainImpl \<Rightarrow> duration list" where
  "errorDelay st ch =
     (if chRetryCount ch < subscriptionRetryMax \<and> isSubscriptionErrorRecoverable st
      then [subscriptionRetryBaseDelay * 2 ^ chRetryCount ch] else [])"

text \<open>
  An outage: steps of a chain that receives no message, and time that passes while the retry timer runs.  The numbers are how often the chain has
  received a tick of the retry timer, the delays that errors of the stream have set, and for how long the timer has been running in all, also when an error
  started it again before it expired.
\<close>

inductive outage :: "'w hcs_env \<Rightarrow> 'w chainImpl \<Rightarrow> nat \<Rightarrow> duration list \<Rightarrow> duration \<Rightarrow> 'w chainImpl \<Rightarrow> bool" for env ch where
  outage_start: "outage env ch 0 [] 0 ch"
| outage_wait: "outage env ch n gs d ch1 \<Longrightarrow> chRetryTimer ch1 = Some left \<Longrightarrow> 0 \<le> t \<Longrightarrow> t \<le> left \<Longrightarrow>
    outage env ch n gs (d + t) (ch1\<lparr>chRetryTimer := Some (left - t)\<rparr>)"
| outage_expire: "outage env ch n gs d ch1 \<Longrightarrow> chRetryTimer ch1 = Some 0 \<Longrightarrow> outage env ch n gs d (retryTimerExpires ch1)"
| outage_retry: "outage env ch n gs d ch1 \<Longrightarrow> enabled RetryTimer ch1 \<Longrightarrow> loopStep env RetryTimer ch1 = Ret (r, ch2) \<Longrightarrow>
    outage env ch (n + 1) gs d ch2"
| outage_error: "outage env ch n gs d ch1 \<Longrightarrow> enabled (StreamError st) ch1 \<Longrightarrow> loopStep env (StreamError st) ch1 = Ret (r, ch2) \<Longrightarrow>
    outage env ch n (gs @ errorDelay st ch1) d ch2"
| outage_exit: "outage env ch n gs d ch1 \<Longrightarrow> ev = Halted \<or> ev = StreamClosed \<Longrightarrow> enabled ev ch1 \<Longrightarrow> loopStep env ev ch1 = Ret (r, ch2) \<Longrightarrow>
    outage env ch n gs d ch2"
| outage_order: "outage env ch n gs d ch1 \<Longrightarrow> Order env e s ch1 = Ret (err, ch2) \<Longrightarrow> outage env ch n gs d ch2"
| outage_configure: "outage env ch n gs d ch1 \<Longrightarrow> Configure env e s ch1 = Ret (err, ch2) \<Longrightarrow> outage env ch n gs d ch2"
| outage_send_timer: "outage env ch n gs d ch1 \<Longrightarrow> sendTimerFired env ch1 = Ret ch2 \<Longrightarrow> outage env ch n gs d ch2"
| outage_recv_timer: "outage env ch n gs d ch1 \<Longrightarrow> recvTimerFired env ch1 = Ret ch2 \<Longrightarrow> outage env ch n gs d ch2"
| outage_halt: "outage env ch n gs d ch1 \<Longrightarrow> Halt ch1 = Some ch2 \<Longrightarrow> outage env ch n gs d ch2"
| outage_health: "outage env ch n gs d ch1 \<Longrightarrow> HealthCheck env ch1 = (err, ch2) \<Longrightarrow> outage env ch n gs d ch2"

definition timeLeft :: "'w chainImpl \<Rightarrow> duration" where
  "timeLeft ch = (case chRetryTimer ch of None \<Rightarrow> 0 | Some d \<Rightarrow> d)"

text \<open>
  The timer runs for at most 12.8 seconds, and the count of retries leaves room for the ticks still to come: one in the channel, and one of the running timer.  The latter may be a second one, because an
  error starts the timer again without receiving a tick.
\<close>

definition retry_ok :: "'w chainImpl \<Rightarrow> bool" where
  "retry_ok ch \<longleftrightarrow> 0 \<le> timeLeft ch \<and> timeLeft ch \<le> 12800000000
     \<and> chRetryCount ch + of_bool (chRetryTick ch) + of_bool (chRetryTimer ch \<noteq> None) \<le> subscriptionRetryMax + 1"

text \<open>\<open>steady\<close>: the retry timer and its count do not move.\<close>

definition steady :: "'w chainImpl \<Rightarrow> 'w chainImpl \<Rightarrow> bool" where
  "steady ch ch' \<longleftrightarrow> chRetryCount ch' = chRetryCount ch \<and> chRetryTimer ch' = chRetryTimer ch \<and> chRetryTick ch' = chRetryTick ch"

lemma steady_keeps: "steady ch ch' \<Longrightarrow> retry_ok ch' = retry_ok ch \<and> chRetryCount ch' = chRetryCount ch \<and> timeLeft ch' = timeLeft ch"
  by (simp add: steady_def retry_ok_def timeLeft_def)

lemma sent_steady: "sent ch ch' \<Longrightarrow> steady ch ch'"
  by (auto simp: sent_def steady_def)

lemma Order_steady: "Order env e s ch = Ret (err, ch') \<Longrightarrow> steady ch ch'"
  by (auto simp: Order_def intro: sent_steady order_sent)

lemma Configure_steady: "Configure env e s ch = Ret (err, ch') \<Longrightarrow> steady ch ch'"
  by (auto simp: Configure_def intro: sent_steady configure_sent)

lemma timers_steady:
  "sendTimerFired env ch = Ret ch' \<Longrightarrow> steady ch ch'" "recvTimerFired env ch = Ret ch' \<Longrightarrow> steady ch ch'"
  by (auto simp: sendTimerFired_def recvTimerFired_def steady_def sent_def dest!: sendTimeToCut_sent split: option.splits)

lemma Halt_steady: "Halt ch = Some ch' \<Longrightarrow> steady ch ch'"
  by (auto simp: Halt_def steady_def split: latch.splits)

lemma HealthCheck_steady: "HealthCheck env ch = (err, ch') \<Longrightarrow> steady ch ch'"
  by (auto simp: HealthCheck_def steady_def split: prod.splits)

lemmas quiet_steps = Order_steady [THEN steady_keeps] Configure_steady [THEN steady_keeps] timers_steady [THEN steady_keeps]
  Halt_steady [THEN steady_keeps] HealthCheck_steady [THEN steady_keeps]

lemma closeHalt_Ret: "closeHalt ch = Ret ch' \<Longrightarrow> ch' = ch\<lparr>chHaltChan := Closed\<rparr>"
  by (cases "chHaltChan ch") (auto simp: closeHalt_def)

lemma startSubscription_steady: "startSubscription env t ch = (ok, ch') \<Longrightarrow> steady ch ch'"
  by (auto simp: startSubscription_def steady_def Let_def split: prod.splits if_splits)

text \<open>A tick is one more retry; the timer is started again only when retries are left.\<close>

lemma retry_fired:
  assumes "loopStep env RetryTimer ch = Ret (r, ch')"
  shows "chRetryCount ch' = chRetryCount ch + 1 \<and> \<not> chRetryTick ch'
    \<and> (chRetryTimer ch' = chRetryTimer ch
       \<or> chRetryCount ch' < subscriptionRetryMax \<and> chRetryTimer ch' = Some (subscriptionRetryBaseDelay * 2 ^ chRetryCount ch'))"
proof -
  let ?ch1 = "ch\<lparr>chRetryTick := False, chRetryCount := chRetryCount ch + 1\<rparr>"
  obtain ok ch2 where s: "startSubscription env (chLastConsensusTimestamp ch) ?ch1 = (ok, ch2)" by fastforce
  have c: "chRetryCount ch2 = chRetryCount ch + 1" "chRetryTimer ch2 = chRetryTimer ch" "\<not> chRetryTick ch2"
    using startSubscription_steady [OF s] by (simp_all add: steady_def)
  from assms(1) have h: "handleRetryTimer env ch = Ret ch'" by (auto simp: loopStep_def)
  show ?thesis
  proof (cases ok)
    case True
    with h s obtain x where "sendTimeToCut env (newTimeToCutMessageWithBlockNumber (chLastCutBlockNumber ch2)) ch2 = Ret (x, ch')"
      by (auto simp: handleRetryTimer_def)
    then have "steady ch2 ch'" by (rule sent_steady [OF sendTimeToCut_sent])
    with c show ?thesis by (simp add: steady_def)
  next
    case False
    show ?thesis
    proof (cases "chRetryCount ch2 < subscriptionRetryMax")
      case True
      with h s False have "ch' = scheduleSubscriptionRetry ch2" by (simp add: handleRetryTimer_def)
      with c True show ?thesis by (simp add: scheduleSubscriptionRetry_def)
    next
      case less: False
      with h s False have "closeHalt ch2 = Ret ch'" by (simp add: handleRetryTimer_def)
      from closeHalt_Ret [OF this] c show ?thesis by simp
    qed
  qed
qed

lemma stream_error:
  assumes "loopStep env (StreamError st) ch = Ret (r, ch')"
  shows "chRetryCount ch' = chRetryCount ch \<and> chRetryTick ch' = chRetryTick ch
    \<and> (case errorDelay st ch of [] \<Rightarrow> chRetryTimer ch' = chRetryTimer ch
       | g # _ \<Rightarrow> chRetryCount ch < subscriptionRetryMax \<and> chRetryTimer ch' = Some g)"
  using assms by (auto simp: loopStep_def handleStreamError_def Let_def errorDelay_def scheduleSubscriptionRetry_def dest!: closeHalt_Ret split: if_splits)

lemma exit_retry:
  assumes "loopStep env ev ch = Ret (r, ch')" and "ev = Halted \<or> ev = StreamClosed"
  shows "chRetryCount ch' = chRetryCount ch \<and> chRetryTimer ch' = None \<and> (chRetryTick ch' \<longrightarrow> chRetryTick ch)"
  using assms by (auto simp: loopStep_def exitProcessing_def)

lemma delay_le: "c < subscriptionRetryMax \<Longrightarrow> subscriptionRetryBaseDelay * 2 ^ c \<le> 12800000000"
proof -
  assume "c < subscriptionRetryMax"
  then have "(2::int) ^ c \<le> 2 ^ 7" by (intro power_increasing) simp_all
  then show ?thesis by simp
qed

lemma errorDelay_le: "g \<in> set (errorDelay st ch) \<Longrightarrow> 0 \<le> g \<and> g \<le> 12800000000"
  using delay_le [of "chRetryCount ch"] by (auto simp: errorDelay_def split: if_splits)

text \<open>What the failed subscriptions up to a count may have set in all.\<close>

definition spent :: "nat \<Rightarrow> duration" where
  "spent c = subscriptionRetryBaseDelay * 2 ^ (min c 7 + 1)"

lemma spent_Suc: "spent c \<le> spent (c + 1)" "c + 1 < subscriptionRetryMax \<Longrightarrow> spent (c + 1) = spent c + subscriptionRetryBaseDelay * 2 ^ (c + 1)"
proof -
  have "(2::int) ^ (min c 7 + 1) \<le> 2 ^ (min (c + 1) 7 + 1)" by (intro power_increasing) simp_all
  then show "spent c \<le> spent (c + 1)" by (simp add: spent_def)
  show "c + 1 < subscriptionRetryMax \<Longrightarrow> spent (c + 1) = spent c + subscriptionRetryBaseDelay * 2 ^ (c + 1)" by (simp add: spent_def)
qed

lemma spent_bounds: "200000000 \<le> spent c" "spent c \<le> 25600000000"
proof -
  have "(2::int) ^ 1 \<le> 2 ^ (min c 7 + 1)" "(2::int) ^ (min c 7 + 1) \<le> 2 ^ 8" by (intro power_increasing; simp)+
  then show "200000000 \<le> spent c" "spent c \<le> 25600000000" by (simp_all add: spent_def)
qed

lemma retry_fired_ok:
  assumes "loopStep env RetryTimer ch = Ret (r, ch')" and "chRetryTick ch" and "retry_ok ch"
  shows "retry_ok ch' \<and> timeLeft ch' + spent (chRetryCount ch) \<le> timeLeft ch + spent (chRetryCount ch')"
proof -
  note f = retry_fired [OF assms(1)]
  from f show ?thesis
  proof (elim conjE disjE)
    assume "chRetryTimer ch' = chRetryTimer ch"
    with f assms(2,3) spent_Suc(1) [of "chRetryCount ch"] show ?thesis by (auto simp: retry_ok_def timeLeft_def)
  next
    assume c: "chRetryCount ch' < subscriptionRetryMax" and t: "chRetryTimer ch' = Some (subscriptionRetryBaseDelay * 2 ^ chRetryCount ch')"
    have "timeLeft ch' + spent (chRetryCount ch) = spent (chRetryCount ch')" "0 \<le> timeLeft ch'"
      using spent_Suc(2) [of "chRetryCount ch"] f c t by (simp_all add: timeLeft_def)
    moreover have "timeLeft ch' \<le> 12800000000" using delay_le [OF c] t by (simp add: timeLeft_def)
    ultimately show ?thesis using c f assms(3) by (simp add: retry_ok_def)
  qed
qed

lemma stream_error_ok:
  assumes "loopStep env (StreamError st) ch = Ret (r, ch')" and "retry_ok ch"
  shows "retry_ok ch' \<and> chRetryCount ch' = chRetryCount ch \<and> timeLeft ch' \<le> timeLeft ch + sum_list (errorDelay st ch)"
proof (cases "errorDelay st ch")
  case Nil
  with stream_error [OF assms(1)] assms(2) show ?thesis by (auto simp: retry_ok_def timeLeft_def)
next
  case (Cons g rest)
  then have "errorDelay st ch = [g]" by (auto simp: errorDelay_def split: if_splits)
  with stream_error [OF assms(1)] assms(2) errorDelay_le [of g st ch] show ?thesis by (auto simp: retry_ok_def timeLeft_def)
qed

lemma exit_retry_ok:
  assumes "loopStep env ev ch = Ret (r, ch')" and "ev = Halted \<or> ev = StreamClosed" and "retry_ok ch"
  shows "retry_ok ch' \<and> chRetryCount ch' = chRetryCount ch \<and> timeLeft ch' \<le> timeLeft ch"
  using exit_retry [OF assms(1,2)] assms(3) by (auto simp: retry_ok_def timeLeft_def)

lemma expire_ok: "retry_ok ch \<Longrightarrow> chRetryTimer ch \<noteq> None \<Longrightarrow> retry_ok (retryTimerExpires ch)"
  by (auto simp: retry_ok_def timeLeft_def retryTimerExpires_def)

lemma outage_retries:
  assumes "outage env ch n gs d ch'" and "retry_ok ch"
  shows "retry_ok ch' \<and> chRetryCount ch' = chRetryCount ch + n \<and> (\<forall>g \<in> set gs. g \<le> 12800000000)
    \<and> d + timeLeft ch' + spent (chRetryCount ch) \<le> timeLeft ch + sum_list gs + spent (chRetryCount ch')"
  using assms
proof (induction rule: outage.induct)
  case (outage_wait n gs d ch1 left t)
  then show ?case by (auto simp: retry_ok_def timeLeft_def)
next
  case (outage_expire n gs d ch1)
  with expire_ok [of ch1] show ?case by (auto simp: timeLeft_def retryTimerExpires_def)
next
  case (outage_retry n gs d ch1 r ch2)
  have "chRetryTick ch1" using outage_retry.hyps(2) by (simp add: enabled_def)
  from retry_fired_ok [OF outage_retry.hyps(3) this] retry_fired [OF outage_retry.hyps(3)] outage_retry show ?case by auto
next
  case (outage_error n gs d ch1 st r ch2)
  with stream_error_ok [OF outage_error.hyps(3)] errorDelay_le [of _ st ch1] show ?case by auto
next
  case (outage_exit n gs d ch1 ev r ch2)
  with exit_retry_ok [OF outage_exit.hyps(4,2)] show ?case by auto
qed (auto dest!: quiet_steps)

text \<open>Messages set the count back and do nothing else to the timer, so \<open>retry_ok\<close> holds of a chain from its start on.\<close>

definition keeps_retry :: "'w chainImpl \<Rightarrow> 'w chainImpl \<Rightarrow> bool" where
  "keeps_retry ch ch' \<longleftrightarrow> chRetryTimer ch' = chRetryTimer ch \<and> chRetryTick ch' = chRetryTick ch \<and> chRetryCount ch' \<le> chRetryCount ch"

lemma keeps_retry_ok: "keeps_retry ch ch' \<Longrightarrow> retry_ok ch \<Longrightarrow> retry_ok ch'"
  by (auto simp: keeps_retry_def retry_ok_def timeLeft_def)

lemma steady_trans: "steady a b \<Longrightarrow> steady b c \<Longrightarrow> steady a c"
  by (simp add: steady_def)

lemma handleTimeToCutRequest_steady: "handleTimeToCutRequest q ch = Ret ch' \<Longrightarrow> steady ch ch'"
  by (auto simp: handleTimeToCutRequest_def steady_def split: if_splits option.splits)

lemma chain_WriteBlock_steady: "chain_WriteBlock env b c t ch = Ret ch' \<Longrightarrow> steady ch ch'"
  by (auto simp: chain_WriteBlock_def steady_def Let_def dest!: handleTimeToCutRequest_steady split: if_splits)

lemma readClock_steady: "readClock env ch = (now, ch') \<Longrightarrow> steady ch ch'"
  by (rule sent_steady [OF readClock_sent])

lemma commitNormalMessage_steady:
  assumes "commitNormalMessage env e t n h ch = Ret ch'"
  shows "steady ch ch'"
proof -
  obtain now ch0 where r: "readClock env ch = (now, ch0)" by fastforce
  show ?thesis
    using assms readClock_steady [OF r] unfolding commitNormalMessage_def r
    by (auto simp: steady_def Let_def dest!: chain_WriteBlock_steady handleTimeToCutRequest_steady split: if_splits)
qed

lemma commitConfigMessage_steady:
  assumes "commitConfigMessage env e t n ch = Ret ch'"
  shows "steady ch ch'"
proof -
  obtain now ch0 where r: "readClock env ch = (now, ch0)" by fastforce
  show ?thesis
    using assms readClock_steady [OF r] unfolding commitConfigMessage_def r
    by (auto simp: steady_def Let_def dest!: chain_WriteBlock_steady split: if_splits prod.splits)
qed

lemma processTimeToCutMessage_steady:
  assumes "processTimeToCutMessage env q t n ch = Ret (err, ch')"
  shows "steady ch ch'"
proof -
  obtain now ch0 where r: "readClock env ch = (now, ch0)" by fastforce
  show ?thesis
    using assms readClock_steady [OF r] unfolding processTimeToCutMessage_def r
    by (auto simp: steady_def Let_def dest!: chain_WriteBlock_steady split: if_splits prod.splits option.splits TimeToCutRequest.splits)
qed

lemma resubmit_steady:
  "resubmitNormal env e n ch = Ret (err, ch') \<Longrightarrow> steady ch ch'"
  "resubmitConfig env e n ch = Ret (err, ch') \<Longrightarrow> steady ch ch'"
  by (erule sent_steady [OF resubmitNormal_sent]) (erule resubmitConfig_Ret, drule sent_steady, simp add: steady_def)

lemma latch_steady:
  "reprocessComplete ch = Ret ch' \<Longrightarrow> steady ch ch'" "noteResubmitted m c ch = Ret ch' \<Longrightarrow> steady ch ch'"
  "recollect t ch = Ret ch' \<Longrightarrow> steady ch ch'"
  by (auto simp: reprocessComplete_def noteResubmitted_def recollect_def steady_def Let_def split: if_splits)

lemma reparsePublicKeys_steady:
  assumes "reparsePublicKeys env ch = Ret ch'"
  shows "steady ch ch'"
proof -
  from assms obtain oc where oc: "SharedConfig (chBundle ch) = Ret oc" by (auto simp: reparsePublicKeys_def)
  with assms show ?thesis by (auto simp: reparsePublicKeys_def steady_def split: option.splits sum.splits)
qed

lemma processRegularMessage_steady:
  assumes "processRegularMessage env m t n h ch = Ret (err, ch')"
  shows "steady ch ch'"
  using assms
  by (auto simp: processRegularMessage_def Let_def steady_def
      dest!: commitNormalMessage_steady commitConfigMessage_steady resubmit_steady latch_steady reparsePublicKeys_steady split: option.splits Class.splits if_splits)

lemma processMessage_steady:
  assumes "processMessage env m t n h ch = Ret (r, ch')"
  shows "steady ch ch'"
  using assms
  by (auto simp: processMessage_def processOrdererStartedMessage_def steady_def
      dest!: processRegularMessage_steady processTimeToCutMessage_steady split: HcsMessage.splits sum.splits)

lemma handleMessage_retry:
  assumes "handleMessage env m ch = Ret (r, ch')"
  shows "keeps_retry ch ch'"
proof -
  from assms obtain ch1 where c: "checkOrder m (ch\<lparr>chRetryCount := 0, chErrorChan := Open\<rparr>) = Ret ch1" by (auto simp: handleMessage_def)
  have k: "chRetryTimer ch1 = chRetryTimer ch \<and> chRetryTick ch1 = chRetryTick ch \<and> chRetryCount ch1 = 0"
    using c by (auto simp: checkOrder_def split: if_splits)
  have "steady ch1 ch'"
  proof (cases "unChunk env (Contents m)")
    case None
    with assms show ?thesis by (simp add: handleMessage_def c steady_def)
  next
    case (Some chunk)
    with assms obtain x amp where x: "Reassemble (heAmp env) (chain_Verify env ch1) chunk (ConsensusTimestamp m) (chAmp ch1) = Ret (x, amp)"
      by (auto simp: handleMessage_def c)
    define ch2 where "ch2 = noteChunkFree (ch1\<lparr>chAmp := amp\<rparr>)"
    have n: "steady ch1 ch2" by (simp add: ch2_def noteChunkFree_def steady_def)
    have "ch' = ch2 \<or> (\<exists>msg r1. processMessage env msg (ConsensusTimestamp m) (SequenceNumber m) (resHash x) ch2 = Ret (r1, ch'))
        \<or> recollect (ConsensusTimestamp m) ch2 = Ret ch'"
      using assms by (auto simp: handleMessage_def c Some x ch2_def [symmetric] Let_def split: option.splits if_splits)
    with n processMessage_steady latch_steady(3) show ?thesis by (blast intro: steady_trans)
  qed
  with k show ?thesis by (simp add: steady_def keeps_retry_def)
qed

lemma message_retry_ok:
  assumes "loopStep env (Message m) ch = Ret (r, ch')" and "retry_ok ch"
  shows "retry_ok ch'"
proof -
  from assms(1) obtain r1 ch1 where h: "handleMessage env m ch = Ret (r1, ch1)" by (auto simp: loopStep_def)
  then have x: "ch' = ch1 \<or> exitProcessing env ch1 = Ret ch'" using assms(1) by (cases r1) (auto simp: loopStep_def)
  have "retry_ok ch1" by (rule keeps_retry_ok [OF handleMessage_retry [OF h] assms(2)])
  with x show ?thesis by (auto simp: exitProcessing_def retry_ok_def timeLeft_def)
qed

lemma startThread_retry_ok:
  assumes "startThread env ch = Ret ch'"
  shows "retry_ok ch'"
proof -
  obtain ok ch1 where s: "startSubscription env (chLastConsensusTimestamp ch) ch = (ok, ch1)" by fastforce
  with assms show ?thesis by (cases ok) (auto simp: startThread_def retry_ok_def timeLeft_def split: if_splits)
qed

lemma chain_run_retry_ok: "chain_run env good ch ms ch' \<Longrightarrow> retry_ok ch \<Longrightarrow> retry_ok ch'"
proof (induction rule: chain_run.induct)
  case (run_loop ms ch1 ev r ch2)
  then show ?case
    by (cases ev) (auto simp: enabled_def dest: retry_fired_ok stream_error_ok exit_retry_ok message_retry_ok)
qed (auto dest!: quiet_steps intro: expire_ok)

text \<open>
  C14. Reconnecting ends.  While no message arrives, whatever the clients, the timers and the stream do meanwhile, the chain subscribes again at most nine
  times, counted from the last message: eight times by its own limit, and once more if an error of the stream found a tick not yet received and started the timer
  again.  The retry timer runs for at most 25.4 seconds, plus what was left of it, plus the delays that errors of the stream have set, each at most 12.8
  seconds.  Every error of the stream starts the timer or halts the chain; once eight retries are used up, every error halts it and no retry starts the timer; and after nine
  there is no further tick.  The state at the beginning may be any that a chain reaches after its start.
\<close>

theorem reconnection_ends:
  assumes "startThread env ch0 = Ret ch1" and "chain_run env good ch1 ms ch" and "outage env ch n gs d ch'"
  shows "chRetryCount ch + n \<le> subscriptionRetryMax + 1
    \<and> d \<le> timeLeft ch + sum_list gs + 25400000000 \<and> (\<forall>g \<in> set gs. g \<le> 12800000000)
    \<and> (\<forall>st ch2. handleStreamError st ch' = Ret ch2 \<longrightarrow> chRetryTimer ch2 \<noteq> None \<or> chHaltChan ch2 = Closed)
    \<and> (subscriptionRetryMax \<le> chRetryCount ch + n \<longrightarrow>
         (\<forall>st ch2. handleStreamError st ch' = Ret ch2 \<longrightarrow> chHaltChan ch2 = Closed)
         \<and> (\<forall>r ch2. loopStep env RetryTimer ch' = Ret (r, ch2) \<longrightarrow> chRetryTimer ch2 = chRetryTimer ch'))
    \<and> (chRetryCount ch + n = subscriptionRetryMax + 1 \<longrightarrow> \<not> enabled RetryTimer ch' \<and> chRetryTimer ch' = None)"
proof -
  have "retry_ok ch" by (rule chain_run_retry_ok [OF assms(2) startThread_retry_ok [OF assms(1)]])
  note o = outage_retries [OF assms(3) this]
  then have n: "chRetryCount ch' = chRetryCount ch + n" and ok: "retry_ok ch'" by blast+
  have d: "d \<le> timeLeft ch + sum_list gs + 25400000000"
  proof -
    have "0 \<le> timeLeft ch'" using ok by (simp add: retry_ok_def)
    moreover have "d + timeLeft ch' + spent (chRetryCount ch) \<le> timeLeft ch + sum_list gs + spent (chRetryCount ch')" using o by blast
    ultimately show ?thesis using spent_bounds(1) [of "chRetryCount ch"] spent_bounds(2) [of "chRetryCount ch'"] by linarith
  qed
  have gs: "\<forall>g \<in> set gs. g \<le> 12800000000" using o by blast
  have e: "chRetryTimer ch2 \<noteq> None \<or> chHaltChan ch2 = Closed" "subscriptionRetryMax \<le> chRetryCount ch' \<Longrightarrow> chHaltChan ch2 = Closed"
    if "handleStreamError st ch' = Ret ch2" for st ch2
    using that by (auto simp: handleStreamError_def scheduleSubscriptionRetry_def Let_def dest!: closeHalt_Ret split: if_splits)
  have t: "chRetryTimer ch2 = chRetryTimer ch'" if "loopStep env RetryTimer ch' = Ret (r, ch2)" "subscriptionRetryMax \<le> chRetryCount ch'" for r ch2
    using retry_fired [OF that(1)] that(2) by auto
  have x: "\<not> enabled RetryTimer ch' \<and> chRetryTimer ch' = None" if "chRetryCount ch' = subscriptionRetryMax + 1"
    using that ok by (auto simp: retry_ok_def enabled_def)
  have c: "chRetryCount ch' \<le> subscriptionRetryMax + 1" using ok by (simp add: retry_ok_def)
  show ?thesis
    unfolding n [symmetric] by (intro conjI allI impI) (rule c d gs e t x conjunct1 [OF x] conjunct2 [OF x], assumption+ | rule c d gs)+
qed

text \<open>
  A stream that is lost: the first subscription succeeds, the next seven fail, the eighth succeeds and the ninth fails.  The world counts the
  subscriptions.
\<close>

definition with_world :: "'v \<Rightarrow> 'w chainImpl \<Rightarrow> 'v chainImpl" where
  "with_world w ch =
     \<lparr>chConsenter = chConsenter ch, chWriter = chWriter ch, chCutter = chCutter ch,
      chLastConsensusTimestampPersisted = chLastConsensusTimestampPersisted ch,
      chLastConsensusTimestamp = chLastConsensusTimestamp ch,
      chLastOrderedConsensusTimestamp = chLastOrderedConsensusTimestamp ch,
      chLastOriginalSequenceProcessed = chLastOriginalSequenceProcessed ch,
      chLastResubmittedConfigSequence = chLastResubmittedConfigSequence ch,
      chLastChunkFreeConsensusTimestamp = chLastChunkFreeConsensusTimestamp ch,
      chLastChunkFreeSequenceProcessed = chLastChunkFreeSequenceProcessed ch,
      chLastSequenceProcessed = chLastSequenceProcessed ch, chLastCutBlockNumber = chLastCutBlockNumber ch,
      chDoneReprocessing = chDoneReprocessing ch, chErrorChan = chErrorChan ch, chHaltChan = chHaltChan ch,
      chDoneProcessing = chDoneProcessing ch, chStartChan = chStartChan ch, chRequestChan = chRequestChan ch,
      chMessageHashes = chMessageHashes ch, chNetwork = chNetwork ch, chOperatorID = chOperatorID ch,
      chOperatorKey = chOperatorKey ch, chPublicKeys = chPublicKeys ch, chTopicID = chTopicID ch, chHandle = chHandle ch,
      chSubscribedFrom = chSubscribedFrom ch, chAmp = chAmp ch, chAppID = chAppID ch, chSendTimer = chSendTimer ch,
      chSendHash = chSendHash ch, chRecvTimer = chRecvTimer ch, chRecvBlock = chRecvBlock ch, chRetryTimer = chRetryTimer ch,
      chRetryTick = chRetryTick ch, chRetryCount = chRetryCount ch, chRecollect = chRecollect ch, chWorld = w\<rparr>"

definition lost_env :: "nat hcs_env" where
  "lost_env =
     \<lparr>heMsg = demo_msg_env, heLib = demo_lib, heAmp = demo_amp\<lparr>Sum256 := (\<lambda>_. [6])\<rparr>,
      unChunk = (\<lambda>b. Some (demo_chunk b)), maChunk = (\<lambda>c. Some (MessageChunk c)),
      unHcsMessage = demo_unmarshal, maHcsMessage = (\<lambda>_. Some [4, 5, 6]),
      unHcsMetadata = (\<lambda>_. None), maHcsMetadata = (\<lambda>_. Some [3]),
      heClock = (\<lambda>w. ((\<lambda>_. 0), w)), heNonce = (\<lambda>w. (Some [8], w)), heSubmit = (\<lambda>b topic i w. (None, w)),
      heSubscribe = (\<lambda>_ _ w. (w = 0 \<or> w = 8, w + 1)), hePing = (\<lambda>_ w. (True, w)), heClose = (\<lambda>w. w)\<rparr>"

definition lost_new :: "nat chainImpl" where
  "lost_new = (with_world 0 (demo_chain [1]))\<lparr>chStartChan := Open, chDoneProcessing := None, chErrorChan := Closed, chHandle := None\<rparr>"

definition lost :: "consenterImpl \<Rightarrow> latch \<Rightarrow> nat \<Rightarrow> nat \<Rightarrow> duration option \<Rightarrow> bool \<Rightarrow> nat chainImpl" where
  "lost con err w c timer tick = (with_world w (demo_chain [1]))
     \<lparr>chConsenter := con, chErrorChan := err, chRetryTimer := timer, chRetryTick := tick, chRetryCount := c\<rparr>"

lemmas lost_defs = unixEpoch_def lost_env_def demo_chain_def with_world_def demo_amp_def sample_sender_def enqueueChecked_def readClock_def chain_validStart_def getUniqueValidStart_def
    Split_def chain_Sign_def demo_lib_def wrapMessage_def timestampProtoOrPanic_def TimestampProto_def validateTimestamp_def orPanic_def
    cutChunks_def sliceChunk_def upt_rec numeral_3_eq_3 retryable_def startSubscription_def unsubscribeHandle_def Unsubscribe_def newMirrorSubscriptionHandle_def

lemma lost_starts: "\<exists>con. nextValidStart con = 3 \<and> startThread lost_env lost_new = Ret (lost con Open 1 0 None False)"
  by (simp add: startThread_def lost_new_def lost_def lost_defs GetHcsClient_def Let_def)

lemma lost_reconnects: "nextValidStart con = 3 \<Longrightarrow> \<exists>con'. loopStep lost_env RetryTimer (lost con Closed 8 7 timer True) = Ret (Continue, lost con' Closed 9 8 timer False)"
  by (simp add: loopStep_def handleRetryTimer_def sendTimeToCut_def enqueue_def lost_def lost_defs Let_def)

lemma lost_enabled: "enabled RetryTimer (lost con err w c timer tick) = tick" "enabled (StreamError st) (lost con err w c timer tick)"
  by (simp_all add: enabled_def lost_def with_world_def demo_chain_def newMirrorSubscriptionHandle_def)

lemma lost_timer [simp]:
  "chRetryTimer (lost con err w c timer tick) = timer" "chRetryCount (lost con err w c timer tick) = c"
  "(lost con err w c timer tick)\<lparr>chRetryTimer := timer'\<rparr> = lost con err w c timer' tick"
  "retryTimerExpires (lost con err w c timer tick) = lost con err w c None True"
  by (simp_all add: lost_def retryTimerExpires_def)

lemma lost_error:
  "c < subscriptionRetryMax \<Longrightarrow> loopStep env (StreamError \<lparr>Code = Unavailable, StatusMessage = ''''\<rparr>) (lost con err w c timer tick)
     = Ret (Continue, lost con Closed w c (Some (subscriptionRetryBaseDelay * 2 ^ c)) tick)"
  by (simp add: loopStep_def handleStreamError_def isSubscriptionErrorRecoverable_def scheduleSubscriptionRetry_def lost_def Let_def)

lemma lost_fails:
  "w \<noteq> 0 \<Longrightarrow> w \<noteq> 8 \<Longrightarrow> c < 7 \<Longrightarrow> loopStep lost_env RetryTimer (lost con Closed w c timer True)
     = Ret (Continue, lost con Closed (w + 1) (c + 1) (Some (subscriptionRetryBaseDelay * 2 ^ (c + 1))) False)"
  by (simp add: loopStep_def handleRetryTimer_def startSubscription_def scheduleSubscriptionRetry_def lost_def lost_env_def with_world_def Let_def)

lemma lost_wait:
  assumes "outage lost_env ch n gs d (lost con err w c (Some t) tick)" and "0 \<le> t"
  shows "outage lost_env ch n gs (d + t) (lost con err w c None True)"
  using outage_expire [OF outage_wait [OF assms(1) _ assms(2) order.refl]] by simp

lemma lost_cycles:
  assumes "outage lost_env ch 0 gs 0 (lost con Closed 1 0 (Some subscriptionRetryBaseDelay) False)" and "k \<le> 7"
  shows "outage lost_env ch k gs (subscriptionRetryBaseDelay * (2 ^ k - 1)) (lost con Closed (k + 1) k (Some (subscriptionRetryBaseDelay * 2 ^ k)) False)"
  using assms(2)
proof (induction k)
  case 0
  then show ?case using assms(1) by simp
next
  case (Suc k)
  have w: "outage lost_env ch k gs (subscriptionRetryBaseDelay * (2 ^ k - 1) + subscriptionRetryBaseDelay * 2 ^ k) (lost con Closed (k + 1) k None True)"
    by (rule lost_wait) (use Suc in simp_all)
  have "outage lost_env ch (k + 1) gs (subscriptionRetryBaseDelay * (2 ^ k - 1) + subscriptionRetryBaseDelay * 2 ^ k)
      (lost con Closed (k + 1 + 1) (k + 1) (Some (subscriptionRetryBaseDelay * 2 ^ (k + 1))) False)"
    by (rule outage_retry [OF w _ lost_fails]) (use Suc.prems in \<open>simp_all add: lost_enabled\<close>)
  then show ?case by (simp add: algebra_simps)
qed

text \<open>Nine retries: the last error of the stream comes after the timer has expired and before its tick is received.\<close>

lemma lost_outage:
  "\<exists>con ch2. startThread lost_env lost_new = Ret (lost con Open 1 0 None False)
     \<and> outage lost_env (lost con Open 1 0 None False) 9 [100000000, 12800000000] 38300000000 ch2"
proof -
  obtain con1 where v: "nextValidStart con1 = 3" and s: "startThread lost_env lost_new = Ret (lost con1 Open 1 0 None False)"
    using lost_starts by blast
  let ?ch = "lost con1 Open 1 0 None False" and ?st = "\<lparr>Code = Unavailable, StatusMessage = ''''\<rparr>"
  have rec: "isSubscriptionErrorRecoverable ?st" by (simp add: isSubscriptionErrorRecoverable_def)
  have "outage lost_env ?ch 0 ([] @ errorDelay ?st ?ch) 0 (lost con1 Closed 1 0 (Some (subscriptionRetryBaseDelay * 2 ^ 0)) False)"
    by (rule outage_error [OF outage_start lost_enabled(2) lost_error]) simp
  then have "outage lost_env ?ch 0 [100000000] 0 (lost con1 Closed 1 0 (Some subscriptionRetryBaseDelay) False)"
    by (simp add: errorDelay_def rec)
  from lost_wait [OF lost_cycles [OF this, of 7]]
  have "outage lost_env ?ch 7 [100000000] 25500000000 (lost con1 Closed 8 7 None True)" by simp
  from outage_error [OF this lost_enabled(2) lost_error]
  have e: "outage lost_env ?ch 7 [100000000, 12800000000] 25500000000 (lost con1 Closed 8 7 (Some 12800000000) True)"
    by (simp add: errorDelay_def rec)
  obtain con2 where "loopStep lost_env RetryTimer (lost con1 Closed 8 7 (Some 12800000000) True) = Ret (Continue, lost con2 Closed 9 8 (Some 12800000000) False)"
    using lost_reconnects [OF v] by blast
  from lost_wait [OF outage_retry [OF e _ this]]
  have f: "outage lost_env ?ch 8 [100000000, 12800000000] 38300000000 (lost con2 Closed 9 8 None True)" by (simp add: lost_enabled)
  have "\<exists>ch2. loopStep lost_env RetryTimer (lost con2 Closed 9 8 None True) = Ret (Continue, ch2)"
    by (simp add: loopStep_def handleRetryTimer_def startSubscription_def closeHalt_def lost_def lost_env_def with_world_def demo_chain_def Let_def)
  then obtain ch2 where "loopStep lost_env RetryTimer (lost con2 Closed 9 8 None True) = Ret (Continue, ch2)" ..
  from outage_retry [OF f _ this] s show ?thesis by (auto simp: lost_enabled)
qed

theorem reconnection_ends_witness:
  "\<exists>ch0 ch ch'. startThread lost_env ch0 = Ret ch \<and> outage lost_env ch 9 [100000000, 12800000000] 38300000000 ch'
     \<and> 38300000000 \<le> timeLeft ch + (100000000 + 12800000000) + 25400000000 \<and> \<not> enabled RetryTimer ch' \<and> chRetryTimer ch' = None"
proof -
  obtain con ch2 where s: "startThread lost_env lost_new = Ret (lost con Open 1 0 None False)"
    and o: "outage lost_env (lost con Open 1 0 None False) 9 [100000000, 12800000000] 38300000000 ch2" using lost_outage by blast
  from reconnection_ends [OF s run_start o] have
    "38300000000 \<le> timeLeft (lost con Open 1 0 None False) + (100000000 + 12800000000) + 25400000000 \<and> \<not> enabled RetryTimer ch2 \<and> chRetryTimer ch2 = None"
    by simp
  with s o show ?thesis by blast
qed

section \<open>Submitting\<close>

text \<open>
  What the network has been asked: the world keeps a record of the submissions and their results.
\<close>

record submission =
  sbBytes :: bytes
  sbTopic :: string
  sbID :: TransactionID
  sbError :: "submit_err option"

definition recorded :: "'w hcs_env \<Rightarrow> ('w \<Rightarrow> submission list) \<Rightarrow> bool" where
  "recorded env log \<longleftrightarrow>
     (\<forall>b topic i w x w'. heSubmit env b topic i w = (x, w') \<longrightarrow> log w' = log w @ [\<lparr>sbBytes = b, sbTopic = topic, sbID = i, sbError = x\<rparr>])
     \<and> (\<forall>w now w'. heClock env w = (now, w') \<longrightarrow> log w' = log w)"

definition accepted :: "submission list \<Rightarrow> bytes option list" where
  "accepted subs = map (\<lambda>s. Some (sbBytes s)) [s \<leftarrow> subs. sbError s = None]"

text \<open>\<open>submitted\<close>: the submissions between two states of a chain.\<close>

definition submitted :: "('w \<Rightarrow> submission list) \<Rightarrow> 'w chainImpl \<Rightarrow> submission list \<Rightarrow> 'w chainImpl \<Rightarrow> bool" where
  "submitted log ch subs ch' \<longleftrightarrow>
     sent ch ch' \<and> log (chWorld ch') = log (chWorld ch) @ subs \<and> nextValidStart (chConsenter ch) \<le> nextValidStart (chConsenter ch')
     \<and> sorted_wrt (<) (map (\<lambda>s. tiValidStart (sbID s)) subs)
     \<and> (\<forall>s \<in> set subs. nextValidStart (chConsenter ch) \<le> tiValidStart (sbID s) \<and> tiValidStart (sbID s) < nextValidStart (chConsenter ch')
          \<and> tiAccountID (sbID s) = chOperatorID ch \<and> sbTopic s = chTopicID ch)"

text \<open>
  The attempts to submit a chunk: one to three, all with its bytes; each but the last was answered with an error after which the chain tries again, and so was the
  last only if it is the third.
\<close>

definition attempted :: "'w hcs_env \<Rightarrow> nat \<Rightarrow> ApplicationMessageChunk \<Rightarrow> submission list \<Rightarrow> bool" where
  "attempted env n chunk g \<longleftrightarrow>
     g \<noteq> [] \<and> length g \<le> n \<and> (\<forall>s \<in> set g. maChunk env chunk = Some (sbBytes s))
     \<and> (\<forall>s \<in> set (butlast g). \<exists>e. sbError s = Some e \<and> retryable e)
     \<and> (\<forall>e. sbError (last g) = Some e \<and> retryable e \<longrightarrow> length g = n)"

text \<open>
  The attempts of a list of chunks: they are made in the order of the chunks, those of a chunk only when the chunk before has been accepted, and \<open>ok\<close> says that all
  chunks have been accepted.
\<close>

definition sends :: "'w hcs_env \<Rightarrow> ApplicationMessageChunk list \<Rightarrow> submission list list \<Rightarrow> bool \<Rightarrow> bool" where
  "sends env parts groups ok \<longleftrightarrow>
     length groups \<le> length parts \<and> list_all2 (attempted env 3) (take (length groups) parts) groups
     \<and> (\<forall>g \<in> set (butlast groups). sbError (last g) = None)
     \<and> (if ok then length groups = length parts \<and> (groups \<noteq> [] \<longrightarrow> sbError (last (last groups)) = None)
        else groups \<noteq> [] \<and> sbError (last (last groups)) \<noteq> None)"

lemma accepted_simps [simp]:
  "accepted [] = []" "accepted (a @ b) = accepted a @ accepted b"
  "accepted (s # subs) = (if sbError s = None then Some (sbBytes s) # accepted subs else accepted subs)"
  by (simp_all add: accepted_def)

lemma submitted_trans:
  assumes "submitted log a s b" and "submitted log b t c"
  shows "submitted log a (s @ t) c"
proof -
  have "chOperatorID b = chOperatorID a" "chTopicID b = chTopicID a" using assms(1) by (auto simp: submitted_def sent_def)
  moreover have "sent a c" using assms sent_trans by (auto simp: submitted_def)
  moreover have "tiValidStart (sbID x) < tiValidStart (sbID y)" if "x \<in> set s" "y \<in> set t" for x y
    using that assms by (auto simp: submitted_def intro: less_le_trans)
  moreover have "tiValidStart (sbID x) < nextValidStart (chConsenter c)" if "x \<in> set s" for x
    using that assms by (auto simp: submitted_def intro: less_le_trans)
  moreover have "nextValidStart (chConsenter a) \<le> tiValidStart (sbID y)" if "y \<in> set t" for y
    using that assms by (auto simp: submitted_def intro: order_trans)
  ultimately show ?thesis using assms unfolding submitted_def by (auto simp: sorted_wrt_append)
qed

lemma valid_start:
  assumes "recorded env log" and "readClock env ch = (now, ch1)" and "chain_validStart wanted ch1 = (v, ch2)"
  shows "submitted log ch [] ch2 \<and> nextValidStart (chConsenter ch) \<le> v \<and> v < nextValidStart (chConsenter ch2)
    \<and> log (chWorld ch2) = log (chWorld ch)"
proof -
  obtain w where w: "heClock env (chWorld ch) = (now, w)" and ch1: "ch1 = ch\<lparr>chWorld := w\<rparr>"
    using assms(2) by (auto simp: readClock_def split: prod.splits)
  have "log w = log (chWorld ch)" using assms(1) w by (simp add: recorded_def)
  moreover have "sent ch ch2" by (rule sent_trans [OF readClock_sent [OF assms(2)] chain_validStart_sent [OF assms(3)]])
  ultimately show ?thesis using assms(3)
    by (auto simp: submitted_def ch1 chain_validStart_def getUniqueValidStart_def Let_def split: if_splits)
qed

lemma submit_once:
  assumes r: "recorded env log" and 1: "readClock env ch = (now, ch1)" and 2: "chain_validStart wanted ch1 = (v, ch2)"
    and x: "heSubmit env b (chTopicID ch2) \<lparr>tiAccountID = chOperatorID ch2, tiValidStart = v\<rparr> (chWorld ch2) = (x, w)"
  shows "\<exists>s. submitted log ch [s] (ch2\<lparr>chWorld := w\<rparr>) \<and> sbBytes s = b \<and> sbError s = x"
proof -
  let ?s = "\<lparr>sbBytes = b, sbTopic = chTopicID ch2, sbID = \<lparr>tiAccountID = chOperatorID ch2, tiValidStart = v\<rparr>, sbError = x\<rparr>"
  note v = valid_start [OF r 1 2]
  have "log w = log (chWorld ch2) @ [?s]" using r x by (simp add: recorded_def)
  moreover have "sent ch (ch2\<lparr>chWorld := w\<rparr>)" using v sent_trans [OF _ sent_update(1)] by (auto simp: submitted_def)
  moreover have "chOperatorID ch2 = chOperatorID ch" "chTopicID ch2 = chTopicID ch" using v by (auto simp: submitted_def sent_def)
  ultimately have "submitted log ch [?s] (ch2\<lparr>chWorld := w\<rparr>)" using v by (simp add: submitted_def)
  then show ?thesis by (intro exI [of _ ?s]) simp
qed

lemma attempted_Cons:
  assumes "attempted env n chunk g" and "maChunk env chunk = Some (sbBytes s)" and "sbError s = Some e" and "retryable e"
  shows "attempted env (Suc n) chunk (s # g)"
  using assms by (auto simp: attempted_def)

lemma attempted_accepted:
  assumes "attempted env n chunk g"
  shows "accepted g = (if sbError (last g) = None then [maChunk env chunk] else [])"
proof -
  from assms have g: "g = butlast g @ [last g]" by (simp add: attempted_def)
  have "accepted (butlast g) = []" using assms by (auto simp: attempted_def accepted_def filter_empty_conv)
  moreover have "maChunk env chunk = Some (sbBytes (last g))" using assms by (simp add: attempted_def)
  ultimately show ?thesis by (subst g) simp
qed

lemma submitAttempts_submitted:
  assumes r: "recorded env log"
  shows "submitAttempts env (Suc n) chunk err ch = Ret (e, ch') \<Longrightarrow>
    \<exists>g. submitted log ch g ch' \<and> attempted env (Suc n) chunk g \<and> e = sbError (last g)"
proof (induction n arbitrary: err ch)
  case 0
  obtain now ch1 where 1: "readClock env ch = (now, ch1)" by fastforce
  obtain v ch2 where 2: "chain_validStart (now 0 - tenSeconds) ch1 = (v, ch2)" by fastforce
  obtain b where b: "maChunk env chunk = Some b" using 0 1 2 by (cases "maChunk env chunk") simp_all
  obtain x w where x: "heSubmit env b (chTopicID ch2) \<lparr>tiAccountID = chOperatorID ch2, tiValidStart = v\<rparr> (chWorld ch2) = (x, w)"
    by fastforce
  obtain s where s: "submitted log ch [s] (ch2\<lparr>chWorld := w\<rparr>)" "sbBytes s = b" "sbError s = x"
    using submit_once [OF r 1 2 x] by blast
  have "e = x" "ch' = ch2\<lparr>chWorld := w\<rparr>" using 0 1 2 b x by (auto split: option.splits if_splits)
  with s b show ?case by (intro exI [of _ "[s]"]) (simp add: attempted_def)
next
  case (Suc n)
  obtain now ch1 where 1: "readClock env ch = (now, ch1)" by fastforce
  obtain v ch2 where 2: "chain_validStart (now 0 - tenSeconds) ch1 = (v, ch2)" by fastforce
  obtain b where b: "maChunk env chunk = Some b" using Suc.prems 1 2 by (cases "maChunk env chunk") (simp_all add: submitAttempts.simps(2) [of env "Suc n"] del: submitAttempts.simps)
  obtain x w where x: "heSubmit env b (chTopicID ch2) \<lparr>tiAccountID = chOperatorID ch2, tiValidStart = v\<rparr> (chWorld ch2) = (x, w)"
    by fastforce
  obtain s where s: "submitted log ch [s] (ch2\<lparr>chWorld := w\<rparr>)" "sbBytes s = b" "sbError s = x"
    using submit_once [OF r 1 2 x] by blast
  note step = Suc.prems(1) [unfolded submitAttempts.simps(2) [of env "Suc n"] 1 2 b x prod.case option.case]
  show ?case
  proof (cases "\<exists>er. x = Some er \<and> retryable er")
    case True
    then obtain er where er: "x = Some er" "retryable er" by blast
    with step have "submitAttempts env (Suc n) chunk (Some er) (ch2\<lparr>chWorld := w\<rparr>) = Ret (e, ch')" by (simp del: submitAttempts.simps)
    from Suc.IH [OF this] obtain g where g: "submitted log (ch2\<lparr>chWorld := w\<rparr>) g ch'" "attempted env (Suc n) chunk g" "e = sbError (last g)" by blast
    have "g \<noteq> []" using g(2) by (simp add: attempted_def)
    moreover have "attempted env (Suc (Suc n)) chunk (s # g)" by (rule attempted_Cons [OF g(2)]) (use s b er in simp_all)
    ultimately show ?thesis using submitted_trans [OF s(1) g(1)] g(3) by (intro exI [of _ "s # g"]) simp
  next
    case False
    with step have "e = x" "ch' = ch2\<lparr>chWorld := w\<rparr>" by (auto split: option.splits if_splits simp del: submitAttempts.simps)
    with s b False show ?thesis by (intro exI [of _ "[s]"]) (auto simp: attempted_def)
  qed
qed

lemma sends_Nil: "sends env [] [] True"
  by (simp add: sends_def)

lemma sends_Cons: "attempted env 3 c g \<Longrightarrow> sbError (last g) = None \<Longrightarrow> sends env cs gs ok \<Longrightarrow> sends env (c # cs) (g # gs) ok"
  by (auto simp: sends_def)

lemma sends_fail: "attempted env 3 c g \<Longrightarrow> sbError (last g) \<noteq> None \<Longrightarrow> sends env (c # cs) [g] False"
  by (simp add: sends_def)

lemma sends_accepted:
  assumes "sends env parts groups True"
  shows "accepted (concat groups) = map (maChunk env) parts"
proof -
  have a: "list_all2 (attempted env 3) parts groups" using assms unfolding sends_def by (auto simp: take_all)
  have "\<forall>g \<in> set groups. sbError (last g) = None"
    using assms by (cases groups rule: rev_cases) (auto simp: sends_def)
  with a show ?thesis by (induction rule: list_all2_induct) (auto simp: attempted_accepted)
qed

lemma submitChunks_submitted:
  assumes r: "recorded env log"
  shows "submitChunks env cs ch = Ret (ok, ch') \<Longrightarrow> \<exists>groups. submitted log ch (concat groups) ch' \<and> sends env cs groups ok"
proof (induction cs arbitrary: ch)
  case Nil
  then show ?case by (intro exI [of _ "[]"]) (auto simp: submitted_def sends_Nil)
next
  case (Cons c cs)
  then obtain e ch1 where 1: "submitAttempts env 3 c None ch = Ret (e, ch1)"
    and 2: "(if e \<noteq> None then Ret (False, ch1) else submitChunks env cs ch1) = Ret (ok, ch')" by auto
  from 1 have "submitAttempts env (Suc 2) c None ch = Ret (e, ch1)" by (simp only: Suc_numeral semiring_norm)
  from submitAttempts_submitted [OF r this] obtain g where g: "submitted log ch g ch1" "attempted env 3 c g" "e = sbError (last g)"
    by (auto simp only: Suc_numeral semiring_norm)
  show ?case
  proof (cases e)
    case None
    with 2 Cons.IH [of ch1] obtain gs where gs: "submitted log ch1 (concat gs) ch'" "sends env cs gs ok" by auto
    from submitted_trans [OF g(1) gs(1)] sends_Cons [OF g(2) _ gs(2)] g(3) None show ?thesis by (intro exI [of _ "g # gs"]) simp
  next
    case (Some x)
    then have "sends env (c # cs) [g] False" using g(3) by (intro sends_fail [OF g(2)]) simp
    with 2 g(1) Some show ?thesis by (intro exI [of _ "[g]"]) simp
  qed
qed

lemma enqueueChecked_submitted:
  assumes r: "recorded env log" and run: "enqueueChecked env m ch = Ret ((ok, h), ch')"
  shows "\<exists>subs. submitted log ch subs ch' \<and>
    (case maHcsMessage env m of
       None \<Rightarrow> subs = [] \<and> \<not> ok \<and> h = None
     | Some payload \<Rightarrow>
         \<exists>t. nextValidStart (chConsenter ch) \<le> t \<and> (\<forall>s \<in> set subs. t < tiValidStart (sbID s))
           \<and> (case Split (heAmp env) (chain_Sign env ch) (Some payload) t (chAmp ch) of
                Panic _ \<Rightarrow> False
              | Ret (Inl _) \<Rightarrow> subs = [] \<and> \<not> ok \<and> h = None
              | Ret (Inr (parts, hash)) \<Rightarrow>
                  (\<exists>groups. subs = concat groups \<and> sends env parts groups ok) \<and> h = (if ok then Some hash else None)))"
proof (cases "maHcsMessage env m")
  case None
  with run show ?thesis by (intro exI [of _ "[]"]) (simp add: enqueueChecked_def submitted_def)
next
  case (Some payload)
  obtain now ch1 where 1: "readClock env ch = (now, ch1)" by fastforce
  obtain v ch2 where 2: "chain_validStart (now 0 - tenSeconds) ch1 = (v, ch2)" by fastforce
  note v = valid_start [OF r 1 2]
  then have ch2: "chAmp ch2 = chAmp ch" "chain_Sign env ch2 = chain_Sign env ch"
    by (auto simp: submitted_def sent_def chain_Sign_def fun_eq_iff split: option.split)
  from run obtain x where x: "Split (heAmp env) (chain_Sign env ch) (Some payload) v (chAmp ch) = Ret x"
    by (auto simp: enqueueChecked_def Some 1 2 ch2)
  show ?thesis
  proof (cases x)
    case (Inl e)
    with run x have "\<not> ok" "h = None" "ch' = ch2" by (simp_all add: enqueueChecked_def Some 1 2 ch2)
    with x v Inl Some show ?thesis by (intro exI [of _ "[]"]) (auto intro: exI [of _ v])
  next
    case (Inr y)
    obtain parts hash where y: "y = (parts, hash)" by (cases y)
    from run x Inr y have c: "submitChunks env parts ch2 = Ret (ok, ch')" and h: "h = (if ok then Some hash else None)"
      by (auto simp: enqueueChecked_def Some 1 2 ch2 split: if_splits)
    from submitChunks_submitted [OF r c] obtain groups where s: "submitted log ch2 (concat groups) ch'" and g: "sends env parts groups ok" by blast
    have "\<forall>s \<in> set (concat groups). v < tiValidStart (sbID s)" using s v by (auto simp only: submitted_def intro: less_le_trans)
    moreover have "submitted log ch (concat groups) ch'" using submitted_trans [OF conjunct1 [OF v] s] by simp
    ultimately show ?thesis using v x Inr y h g Some by (intro exI [of _ "concat groups"]) (auto intro!: exI [of _ v] exI [of _ groups])
  qed
qed

text \<open>
  C13. Submissions have unique transaction identifiers and follow the chunks of the message.  Whatever the clock, the network and its errors, the transactions
  submitted for a message have the operator as the payer and strictly increasing valid starts, at least the next valid start of the consenter before and
  below the one after, so that no two submissions of the orderer share an identifier.  Nothing is submitted for a message that cannot be encoded or
  split.  Otherwise the submissions are one to three attempts for each chunk, with the chunk's bytes, in the order of the chunks: a further attempt only after an error that allows
  it, a further chunk only after the one before has been accepted, none after a chunk has failed; and the message is reported as sent exactly when every chunk has been
  accepted.
\<close>

theorem submissions_unique:
  assumes r: "recorded env log" and run: "enqueueChecked env m ch = Ret ((ok, h), ch')"
  shows "\<exists>subs. log (chWorld ch') = log (chWorld ch) @ subs
    \<and> sorted_wrt (<) (map (\<lambda>s. tiValidStart (sbID s)) subs)
    \<and> (\<forall>s \<in> set subs. nextValidStart (chConsenter ch) \<le> tiValidStart (sbID s) \<and> tiValidStart (sbID s) < nextValidStart (chConsenter ch')
         \<and> tiAccountID (sbID s) = chOperatorID ch \<and> sbTopic s = chTopicID ch)
    \<and> (case maHcsMessage env m of
         None \<Rightarrow> subs = [] \<and> \<not> ok \<and> h = None
       | Some payload \<Rightarrow>
           \<exists>t. nextValidStart (chConsenter ch) \<le> t \<and> (\<forall>s \<in> set subs. t < tiValidStart (sbID s))
             \<and> (case Split (heAmp env) (chain_Sign env ch) (Some payload) t (chAmp ch) of
                  Panic _ \<Rightarrow> False
                | Ret (Inl _) \<Rightarrow> subs = [] \<and> \<not> ok \<and> h = None
                | Ret (Inr (parts, hash)) \<Rightarrow>
                    (\<exists>groups. subs = concat groups \<and> sends env parts groups ok) \<and> h = (if ok then Some hash else None)))"
  using enqueueChecked_submitted [OF assms] unfolding submitted_def by (elim exE conjE) (intro exI conjI)

text \<open>A network that is busy once, for the first submission.\<close>

definition busy_env :: "submission list hcs_env" where
  "busy_env =
     \<lparr>heMsg = demo_msg_env, heLib = demo_lib, heAmp = demo_amp\<lparr>Sum256 := (\<lambda>_. [6])\<rparr>,
      unChunk = (\<lambda>b. Some (demo_chunk b)), maChunk = (\<lambda>c. Some (MessageChunk c)),
      unHcsMessage = demo_unmarshal, maHcsMessage = (\<lambda>_. Some [4, 5, 6]),
      unHcsMetadata = (\<lambda>_. None), maHcsMetadata = (\<lambda>_. Some [3]),
      heClock = (\<lambda>w. ((\<lambda>_. 0), w)), heNonce = (\<lambda>w. (Some [8], w)),
      heSubmit = (\<lambda>b topic i w. let x = (if w = [] then Some (ErrHederaPreCheckStatus StatusBusy) else None)
         in (x, w @ [\<lparr>sbBytes = b, sbTopic = topic, sbID = i, sbError = x\<rparr>])),
      heSubscribe = (\<lambda>_ _ w. (True, w)), hePing = (\<lambda>_ w. (True, w)), heClose = (\<lambda>w. w)\<rparr>"

lemma busy_recorded: "recorded busy_env (\<lambda>w. w)"
  by (simp add: recorded_def busy_env_def Let_def)

lemma busy_sends:
  "\<exists>h ch'. enqueueChecked busy_env m (with_world [] (demo_chain [1])) = Ret ((True, h), ch') \<and> length (chWorld ch') = 3"
  by (simp add: demo_chain_def with_world_def busy_env_def demo_amp_def sample_sender_def enqueueChecked_def readClock_def chain_validStart_def getUniqueValidStart_def
    Split_def chain_Sign_def demo_lib_def wrapMessage_def timestampProtoOrPanic_def TimestampProto_def validateTimestamp_def orPanic_def
    cutChunks_def sliceChunk_def upt_rec numeral_3_eq_3 retryable_def Let_def)

theorem submissions_unique_witness:
  "\<exists>h ch' t parts hash groups. enqueueChecked busy_env (newNormalMessage [7] 6 0) (with_world [] (demo_chain [1])) = Ret ((True, h), ch')
     \<and> length (chWorld ch') = 3 \<and> sorted_wrt (<) (map (\<lambda>s. tiValidStart (sbID s)) (chWorld ch'))
     \<and> Split (heAmp busy_env) (chain_Sign busy_env (with_world [] (demo_chain [1]))) (Some [4, 5, 6]) t sample_sender = Ret (Inr (parts, hash))
     \<and> chWorld ch' = concat groups \<and> sends busy_env parts groups True"
proof -
  obtain h ch' where run: "enqueueChecked busy_env (newNormalMessage [7] 6 0) (with_world [] (demo_chain [1])) = Ret ((True, h), ch')"
    and n: "length (chWorld ch') = 3" using busy_sends by blast
  have w: "chWorld (with_world [] (demo_chain [1])) = []" "chAmp (with_world [] (demo_chain [1])) = sample_sender"
    by (simp_all add: with_world_def demo_chain_def)
  have p: "maHcsMessage busy_env (newNormalMessage [7] 6 0) = Some [4, 5, 6]" by (simp add: busy_env_def)
  from submissions_unique [OF busy_recorded run] obtain t where
    s: "sorted_wrt (<) (map (\<lambda>s. tiValidStart (sbID s)) (chWorld ch'))"
    and c: "case Split (heAmp busy_env) (chain_Sign busy_env (with_world [] (demo_chain [1]))) (Some [4, 5, 6]) t sample_sender of
        Panic _ \<Rightarrow> False | Ret (Inl _) \<Rightarrow> chWorld ch' = [] \<and> \<not> True \<and> h = None
      | Ret (Inr (parts, hash)) \<Rightarrow> (\<exists>groups. chWorld ch' = concat groups \<and> sends busy_env parts groups True) \<and> h = (if True then Some hash else None)"
    by (auto simp only: w p option.case append_Nil)
  then obtain parts hash groups where "Split (heAmp busy_env) (chain_Sign busy_env (with_world [] (demo_chain [1]))) (Some [4, 5, 6]) t sample_sender = Ret (Inr (parts, hash))"
    "chWorld ch' = concat groups" "sends busy_env parts groups True"
    by (auto split: go.splits sum.splits prod.splits)
  with run n s show ?thesis by (intro exI conjI) (assumption+)
qed

end
