(* ===== verification/SystemChannel.thy ===== *)
theory SystemChannel
  imports MsgProcessor
begin

text \<open>
  The message processor of the ordering system channel (\<open>orderer/common/msgprocessor/systemchannel.go\<close> and
  \<open>systemchannelfilter.go\<close>): requests to create channels.  \<open>DefaultTemplator\<close> derives the configuration a new channel starts from, with the
  orderer section of the system channel and the members of a consortium; the request is an update of that template.

  \<open>sys_env\<close> adds to the environment of the message processor the nonce of the second envelope a request produces, and the encoding of
  the consortium value.  The number of channels is an argument, which the registrar supplies.
\<close>

section \<open>The template of a new channel\<close>

record sys_env =
  seMsg :: msg_env
  seRnd :: "bytes option"
  seMaConsortium :: "string \<Rightarrow> bytes option"

abbreviation seCodec :: "sys_env \<Rightarrow> codec" where
  "seCodec se \<equiv> meCodec (seMsg se)"

abbreviation seVc :: "sys_env \<Rightarrow> value_codec" where
  "seVc se \<equiv> beVc (meBw (seMsg se))"

abbreviation seMs :: "sys_env \<Rightarrow> msp_setup" where
  "seMs se \<equiv> beMs (meBw (seMsg se))"

fun zeroVersions :: "ConfigGroup \<Rightarrow> ConfigGroup" where
  "zeroVersions (ConfigGroup ver groups values policies mp) =
     ConfigGroup 0 (map (\<lambda>(k, g). (k, zeroVersions g)) groups) (map (\<lambda>(k, v). (k, v\<lparr>cvVersion := 0\<rparr>)) values)
       (map (\<lambda>(k, p). (k, p\<lparr>cpVersion := 0\<rparr>)) policies) mp"

text \<open>The name of the policy that governs the application group of the template.\<close>

definition templatePolicyKey :: "Bundle \<Rightarrow> ConfigGroup \<Rightarrow> string" where
  "templatePolicyKey bu app =
     (case OrdererConfig_of bu of
        None \<Rightarrow> ''ChannelCreationPolicy''
      | Some oc \<Rightarrow>
          if UseChannelCreationPolicyAsAdmins (OrdererCapabilities oc) \<and> cgPolicies app \<noteq> []
             \<and> (case map_of (cgPolicies app) ''Admins'' of None \<Rightarrow> True | Some policy \<Rightarrow> cpVersion policy \<noteq> 0)
          then ''Admins'' else ''ChannelCreationPolicy'')"

text \<open>The group of a consortium in the system channel; a missing group is a nil pointer that the code follows.\<close>

definition consortiumGroup :: "ConfigGroup \<Rightarrow> string \<Rightarrow> ConfigGroup go" where
  "consortiumGroup systemChannelGroup name =
     (case map_of (cgGroups systemChannelGroup) ''Consortiums'' of
        None \<Rightarrow> Panic ''nil pointer dereference''
      | Some cons \<Rightarrow>
          (case map_of (cgGroups cons) name of
             None \<Rightarrow> Panic ''nil pointer dereference''
           | Some g \<Rightarrow> Ret g))"

definition templateMembers :: "ConfigGroup \<Rightarrow> ConfigGroup \<Rightarrow> mp_err + (string \<times> ConfigGroup) list" where
  "templateMembers consortium app =
     (if length (cgGroups consortium) > 0 \<and> length (cgGroups app) = 0
      then Inl (TemplateRule ''no application group members, but consortium contains members'')
      else if length (cgGroups consortium) > 0
      then res_map (\<lambda>(orgName, _). case map_of (cgGroups consortium) orgName of
                      None \<Rightarrow> Inl (TemplateRule ''member which is not in the consortium'')
                    | Some g \<Rightarrow> Inr (orgName, g)) (cgGroups app)
      else Inr [])"

definition templateGroup :: "Bundle \<Rightarrow> ConfigGroup \<Rightarrow> ConfigGroup \<Rightarrow> bytes \<Rightarrow> ConfigGroup go" where
  "templateGroup bu systemChannelGroup applicationGroup consortiumValue =
     (case map_of (cgGroups systemChannelGroup) ''Orderer'' of
        None \<Rightarrow> Panic ''nil pointer dereference''
      | Some ordererGroup \<Rightarrow>
          let groups = [(''Orderer'', ordererGroup), (''Application'', applicationGroup)];
              values = AList.update ''Consortium'' \<lparr>cvVersion = 0, cvValue = consortiumValue, cvModPolicy = ''Admins''\<rparr>
                (cgValues systemChannelGroup)
          in if (case OrdererConfig_of bu of None \<Rightarrow> False | Some oc \<Rightarrow> PredictableChannelTemplate (OrdererCapabilities oc))
             then Ret (zeroVersions (ConfigGroup 0 groups values (cgPolicies systemChannelGroup) (cgModPolicy systemChannelGroup)))
             else Ret (ConfigGroup 0 groups values (cgPolicies systemChannelGroup) []))"

definition applicationTemplate :: "string \<Rightarrow> PolicyMsg \<Rightarrow> (string \<times> ConfigGroup) list \<Rightarrow> ConfigGroup" where
  "applicationTemplate policyKey policy members =
     ConfigGroup 0 members [] [(policyKey, \<lparr>cpVersion = 0, cpPolicy = Some policy, cpModPolicy = policyKey\<rparr>)] policyKey"

text \<open>What the templator checks of the update before it builds the template: the application group and the consortium's name.\<close>

definition templateRequest :: "sys_env \<Rightarrow> ConfigUpdate \<Rightarrow> mp_err + ConfigGroup \<times> string" where
  "templateRequest se configUpdate =
     (case cuWriteSet configUpdate of
        None \<Rightarrow> Inl (TemplateRule ''empty writeset'')
      | Some writeSet \<Rightarrow>
          (case map_of (cgGroups writeSet) ''Application'' of
             None \<Rightarrow> Inl (TemplateRule ''missing application group'')
           | Some app \<Rightarrow>
               if cgVersion app \<noteq> 1 then Inl (TemplateRule ''application group version is not 1'')
               else
                 (case map_of (cgValues writeSet) ''Consortium'' of
                    None \<Rightarrow> Inl (TemplateRule ''consortium config value missing'')
                  | Some v \<Rightarrow>
                      (case unConsortium (seVc se) (cvValue v) of
                         None \<Rightarrow> Inl (TemplateRule ''error unmarshaling consortium name'')
                       | Some name \<Rightarrow> Inr (app, name)))))"

definition DefaultTemplator_NewChannelConfig :: "sys_env \<Rightarrow> Bundle \<Rightarrow> Envelope \<Rightarrow> (mp_err + Bundle) go" where
  "DefaultTemplator_NewChannelConfig se bu envConfigUpdate =
     try_bind (try_res MpProto (UnmarshalPayload (seCodec se) (slice_bytes (Envelope.Payload envConfigUpdate)))) (\<lambda>configUpdatePayload.
     try_bind (try_res MpProto (UnmarshalConfigUpdateEnvelope (seCodec se) (plData configUpdatePayload))) (\<lambda>configUpdateEnv.
     case plHeader configUpdatePayload of
       None \<Rightarrow> Ret (Inl (TemplateRule ''config update header was missing''))
     | Some header \<Rightarrow>
         try_bind (try_res MpProto (UnmarshalChannelHeader (seCodec se) (slice_bytes (hdrChannelHeader header)))) (\<lambda>channelHeader.
         try_bind (try_res MpProto (UnmarshalConfigUpdate (seCodec se) (cueConfigUpdate configUpdateEnv))) (\<lambda>configUpdate.
         if cuChannelId configUpdate \<noteq> chChannelId channelHeader then Ret (Inl (TemplateRule ''mismatched channel IDs''))
         else
         try_bind (Ret (templateRequest se configUpdate)) (\<lambda>(app, name).
         case ccConsortiumsConfig (buChannelConfig bu) of
           None \<Rightarrow> Ret (Inl (TemplateRule ''system channel does not support creating channels''))
         | Some consortiums \<Rightarrow>
             (case map_of consortiums name of
                None \<Rightarrow> Ret (Inl (TemplateRule ''unknown consortium name''))
              | Some consortiumConf \<Rightarrow>
                  (case cfgChannelGroup (viConfigProto (buConfigtxManager bu)) of
                     None \<Rightarrow> Panic ''nil pointer dereference''
                   | Some systemChannelGroup \<Rightarrow>
                       go_bind (consortiumGroup systemChannelGroup name) (\<lambda>consortium.
                       try_bind (Ret (templateMembers consortium app)) (\<lambda>members.
                       go_bind (MarshalOrPanic (seMaConsortium se) name) (\<lambda>consortiumValue.
                       go_bind (templateGroup bu systemChannelGroup
                                  (applicationTemplate (templatePolicyKey bu app) (coChannelCreationPolicy consortiumConf) members)
                                  consortiumValue) (\<lambda>channelGroup.
                       bundle_go (NewBundle (seVc se) (seMs se) (chChannelId channelHeader)
                         (Some \<lparr>cfgSequence = 0, cfgChannelGroup = Some channelGroup\<rparr>)))))))))))))"

section \<open>The filter of the system channel\<close>

text \<open>\<open>proto.Equal\<close> on configuration envelopes.\<close>

definition envelopeEqual :: "ConfigEnvelope \<Rightarrow> ConfigEnvelope \<Rightarrow> bool" where
  "envelopeEqual a b \<longleftrightarrow>
     (case (ceConfig a, ceConfig b) of
        (None, None) \<Rightarrow> True
      | (Some x, Some y) \<Rightarrow>
          cfgSequence x = cfgSequence y
          \<and> (case (cfgChannelGroup x, cfgChannelGroup y) of
               (None, None) \<Rightarrow> True | (Some g, Some h) \<Rightarrow> protoEqual g h | _ \<Rightarrow> False)
      | _ \<Rightarrow> False)
     \<and> ceLastUpdate a = ceLastUpdate b"

definition ConfigtxValidator_ProposeConfigUpdate :: "sys_env \<Rightarrow> Bundle \<Rightarrow> Envelope \<Rightarrow> (mp_err + ConfigEnvelope) go" where
  "ConfigtxValidator_ProposeConfigUpdate se bu configtx =
     update_go (proposeConfigUpdate (seCodec se) (ccMspManager (buChannelConfig bu)) (buConfigtxManager bu) configtx)"

text \<open>The last checks of \<open>authorizeAndInspect\<close>: the configuration of the new channel.\<close>

definition inspectNewChannel :: "sys_env \<Rightarrow> Bundle \<Rightarrow> Bundle \<Rightarrow> ConfigEnvelope \<Rightarrow> (mp_err + unit) go" where
  "inspectNewChannel se bu res newChannelConfigEnv =
     try_bind (bundle_go (NewBundle (seVc se) (seMs se) (ChannelID res) (ceConfig newChannelConfigEnv))) (\<lambda>b.
     case ValidateNew res b of
       Some e \<Rightarrow> Ret (Inl (MpBundle e))
     | None \<Rightarrow>
         (case OrdererConfig_of b of
            None \<Rightarrow> Ret (Inl NewOrdererMissing)
          | Some oc \<Rightarrow>
              (case OrdererConfig_of bu of
                 None \<Rightarrow> Panic ''old config is missing orderer group''
               | Some _ \<Rightarrow>
                   (case Supported OrdererHasCapability (opCapabilities (ocProtos oc)) of
                      Some cap \<Rightarrow> Ret (Inl (NotCompatible cap))
                    | None \<Rightarrow>
                        (case Supported ChannelHasCapability (cpCapabilities (ccProtos (buChannelConfig b))) of
                           Some cap \<Rightarrow> Ret (Inl (NotCompatible cap))
                         | None \<Rightarrow> Ret (Inr ()))))))"

definition authorizeAndInspect :: "sys_env \<Rightarrow> Bundle \<Rightarrow> Envelope \<Rightarrow> (mp_err + unit) go" where
  "authorizeAndInspect se bu configTx =
     (case unPayload (seCodec se) (slice_bytes (Envelope.Payload configTx)) of
        None \<Rightarrow> Ret (Inl (TemplateRule ''error unmarshaling wrapped configtx envelope payload''))
      | Some payload \<Rightarrow>
          (case plHeader payload of
             None \<Rightarrow> Ret (Inl (TemplateRule ''wrapped configtx envelope missing header''))
           | Some header \<Rightarrow>
               try_bind (try_res MpProto (UnmarshalChannelHeader (seCodec se) (slice_bytes (hdrChannelHeader header)))) (\<lambda>chdr.
               if chType chdr \<noteq> HeaderType_CONFIG then Ret (Inl (TemplateRule ''not a config transaction''))
               else
                 (case unConfigEnvelope (seCodec se) (plData payload) of
                    None \<Rightarrow> Ret (Inl (TemplateRule ''error unmarshalling wrapped configtx config envelope''))
                  | Some configEnvelope \<Rightarrow>
                      (case ceLastUpdate configEnvelope of
                         None \<Rightarrow> Ret (Inl NoConfigUpdate)
                       | Some lastUpdate \<Rightarrow>
                           try_bind (DefaultTemplator_NewChannelConfig se bu lastUpdate) (\<lambda>res.
                           try_bind (ConfigtxValidator_ProposeConfigUpdate se res lastUpdate) (\<lambda>newChannelConfigEnv.
                           if \<not> envelopeEqual newChannelConfigEnv configEnvelope
                           then Ret (Inl (TemplateRule ''config proposed did not match the config received''))
                           else inspectNewChannel se bu res newChannelConfigEnv)))))))"

definition SystemChainFilter_Apply :: "sys_env \<Rightarrow> nat \<Rightarrow> Bundle \<Rightarrow> rule" where
  "SystemChainFilter_Apply se channelsCount bu env =
     (case unPayload (seCodec se) (slice_bytes (Envelope.Payload env)) of
        None \<Rightarrow> Ret (Inl (TemplateRule ''bad payload''))
      | Some msgData \<Rightarrow>
          (case plHeader msgData of
             None \<Rightarrow> Ret (Inl (TemplateRule ''missing payload header''))
           | Some header \<Rightarrow>
               try_bind (try_res MpProto (UnmarshalChannelHeader (seCodec se) (slice_bytes (hdrChannelHeader header)))) (\<lambda>chdr.
               if chType chdr \<noteq> HeaderType_ORDERER_TRANSACTION then Ret (Inr ())
               else
                 (case OrdererConfig_of bu of
                    None \<Rightarrow> Panic ''System channel does not have orderer config''
                  | Some ordererConfig \<Rightarrow>
                      let maxChannels = opChannelRestrictions (ocProtos ordererConfig) in
                      if maxChannels > 0 \<and> of_nat channelsCount > maxChannels
                      then Ret (Inl (TemplateRule ''channel creation would exceed maximimum number of channels''))
                      else if ConsensusState ordererConfig \<noteq> STATE_NORMAL then Ret (Inl ErrMaintenanceMode)
                      else
                        (case unEnvelope (seCodec se) (plData msgData) of
                           None \<Rightarrow> Ret (Inl (TemplateRule ''payload data error unmarshaling to envelope''))
                         | Some configTx \<Rightarrow> authorizeAndInspect se bu configTx)))))"

definition CreateSystemChannelFilters :: "sys_env \<Rightarrow> nat \<Rightarrow> Bundle \<Rightarrow> nat \<Rightarrow> rule list" where
  "CreateSystemChannelFilters se channelsCount bu i =
     (let rules = [emptyRejectRule, MaxBytesRule bu, SigFilter ChannelWriters ChannelOrdererWriters (seCodec se) bu,
            SystemChainFilter_Apply se channelsCount bu]
      in if \<not> meNoExpirationChecks (seMsg se) then take 2 rules @ [expirationRejectRule (seMsg se) i bu] @ drop 2 rules else rules)"

section \<open>Processing messages of the system channel\<close>

definition SystemChannel_ProcessNormalMsg :: "sys_env \<Rightarrow> nat \<Rightarrow> Bundle \<Rightarrow> Envelope \<Rightarrow> (mp_err + u64) go" where
  "SystemChannel_ProcessNormalMsg se channelsCount bu msg =
     try_bind (try_res MpProto (ChannelID_of (seCodec se) msg)) (\<lambda>channelID.
     if channelID \<noteq> ChannelID bu then Ret (Inl ErrChannelDoesNotExist)
     else processNormalMsg (CreateSystemChannelFilters se channelsCount bu) bu msg)"

definition SystemChannel_ProcessConfigUpdateMsg ::
  "sys_env \<Rightarrow> nat \<Rightarrow> Bundle \<Rightarrow> Envelope option \<Rightarrow> (mp_err + Envelope \<times> u64) go"
where
  "SystemChannel_ProcessConfigUpdateMsg se channelsCount bu update =
     (case update of
        None \<Rightarrow> Panic ''nil pointer dereference''
      | Some envConfigUpdate \<Rightarrow>
          try_bind (try_res MpProto (ChannelID_of (seCodec se) envConfigUpdate)) (\<lambda>channelID.
          if channelID = ChannelID bu
          then processConfigUpdateMsg (seMsg se) (CreateSystemChannelFilters se channelsCount bu) bu (Some envConfigUpdate)
          else
          try_bind (DefaultTemplator_NewChannelConfig se bu envConfigUpdate) (\<lambda>res.
          try_bind (ConfigtxValidator_ProposeConfigUpdate se res envConfigUpdate) (\<lambda>newChannelConfigEnv.
          try_bind (tx_go (CreateSignedEnvelope (seCodec se) (meNow (seMsg se) 0 div 10 ^ 9) (meRnd (seMsg se)) HeaderType_CONFIG channelID
                      (Some (beSigner (meBw (seMsg se)))) (maConfigEnvelope (seCodec se) newChannelConfigEnv) 0 0)) (\<lambda>newChannelEnvConfig.
          try_bind (tx_go (CreateSignedEnvelope (seCodec se) (meNow (seMsg se) 1 div 10 ^ 9) (seRnd se) HeaderType_ORDERER_TRANSACTION (ChannelID bu)
                      (Some (beSigner (meBw (seMsg se)))) (maEnvelope (seCodec se) newChannelEnvConfig) 0 0)) (\<lambda>wrappedOrdererTransaction.
          try_bind (RuleSet_Apply (CreateSystemChannelFilters se channelsCount bu 2) wrappedOrdererTransaction) (\<lambda>_.
          Ret (Inr (wrappedOrdererTransaction, viSequence (buConfigtxManager bu))))))))))"

definition SystemChannel_ProcessConfigMsg :: "sys_env \<Rightarrow> nat \<Rightarrow> Bundle \<Rightarrow> Envelope \<Rightarrow> (mp_err + Envelope \<times> u64) go" where
  "SystemChannel_ProcessConfigMsg se channelsCount bu env =
     try_bind (try_res MpProto (UnmarshalPayload (seCodec se) (slice_bytes (Envelope.Payload env)))) (\<lambda>payload.
     case plHeader payload of
       None \<Rightarrow> Ret (Inl (TemplateRule ''no head was set''))
     | Some header \<Rightarrow>
         (case hdrChannelHeader header of
            None \<Rightarrow> Ret (Inl (TemplateRule ''no channel header was set''))
          | Some ch \<Rightarrow>
              try_bind (try_res MpProto (UnmarshalChannelHeader (seCodec se) ch)) (\<lambda>chdr.
              if chType chdr = HeaderType_CONFIG then
                (case unConfigEnvelope (seCodec se) (plData payload) of
                   None \<Rightarrow> Ret (Inl (MpProto (ErrUnmarshal ''ConfigEnvelope'')))
                 | Some configEnvelope \<Rightarrow>
                     processConfigUpdateMsg (seMsg se) (CreateSystemChannelFilters se channelsCount bu) bu (ceLastUpdate configEnvelope))
              else if chType chdr = HeaderType_ORDERER_TRANSACTION then
                try_bind (try_res MpProto (UnmarshalEnvelope (seCodec se) (plData payload))) (\<lambda>env'.
                try_bind (try_res MpProto (UnmarshalEnvelopeOfType (seCodec se) env' HeaderType_CONFIG ''ConfigEnvelope''
                            (unConfigEnvelope (seCodec se)))) (\<lambda>(_, configEnvelope).
                SystemChannel_ProcessConfigUpdateMsg se channelsCount bu (ceLastUpdate configEnvelope)))
              else Ret (Inl (UnexpectedType (chType chdr))))))"

section \<open>Lemmas\<close>

lemma zeroVersions_sel [simp]:
  "cgVersion (zeroVersions g) = 0" "cgModPolicy (zeroVersions g) = cgModPolicy g"
  "cgGroups (zeroVersions g) = map (\<lambda>(k, h). (k, zeroVersions h)) (cgGroups g)"
  "cgPolicies (zeroVersions g) = map (\<lambda>(k, p). (k, p\<lparr>cpVersion := 0\<rparr>)) (cgPolicies g)"
  "cgValues (zeroVersions g) = map (\<lambda>(k, v). (k, v\<lparr>cvVersion := 0\<rparr>)) (cgValues g)"
  by (cases g; simp)+

lemma zeroVersions_distinct: "group_distinct (zeroVersions g) \<longleftrightarrow> group_distinct g"
  by (induction g rule: zeroVersions.induct) (auto simp: list_all_iff comp_def case_prod_beta)

text \<open>Versions do not matter to the policy managers.\<close>

lemma newPolicyOf_version [simp]: "newPolicyOf unm prov ms (p\<lparr>cpVersion := v\<rparr>) = newPolicyOf unm prov ms p"
  by (simp add: newPolicyOf_def)

lemma NewManagerImpl_zeroVersions: "NewManagerImpl unm path prov (zeroVersions g) = NewManagerImpl unm path prov g"
proof (induction g arbitrary: path rule: zeroVersions.induct)
  case (1 ver groups vs policies mp)
  have ih: "\<forall>(k, h) \<in> set groups. \<forall>p. NewManagerImpl unm p prov (zeroVersions h) = NewManagerImpl unm p prov h" using 1 by auto
  have "res_map (\<lambda>(n, h). res_bind (NewManagerImpl unm (path @ ''/'' @ n) prov h) (\<lambda>m. Inr (n, m))) (map (\<lambda>(k, g). (k, zeroVersions g)) groups)
      = res_map (\<lambda>(n, h). res_bind (NewManagerImpl unm (path @ ''/'' @ n) prov h) (\<lambda>m. Inr (n, m))) groups"
    using ih by (induction groups) auto
  moreover have "res_map (\<lambda>(n, cp). res_bind (newPolicyOf unm prov ms cp) (\<lambda>p. Inr (n, p))) (map (\<lambda>(k, p). (k, p\<lparr>cpVersion := 0\<rparr>)) policies)
      = res_map (\<lambda>(n, cp). res_bind (newPolicyOf unm prov ms cp) (\<lambda>p. Inr (n, p))) policies" for ms
    by (induction policies) auto
  ultimately show ?case by (simp add: NewManagerImpl.simps)
qed

lemma distinct_member: "group_distinct g \<Longrightarrow> map_of (cgGroups g) k = Some h \<Longrightarrow> group_distinct h"
  by (cases g) (auto simp: list_all_iff dest!: map_of_SomeD)

text \<open>The templates, with and without versions reset, look the same from the application group.\<close>

definition template_app :: "string \<Rightarrow> PolicyMsg \<Rightarrow> (string \<times> ConfigGroup) list \<Rightarrow> ConfigGroup \<Rightarrow> bool" where
  "template_app key pol members g \<longleftrightarrow>
     cgVersion g = 0 \<and> cgModPolicy g = key
     \<and> (cgGroups g = members \<or> cgGroups g = map (\<lambda>(k, h). (k, zeroVersions h)) members)
     \<and> cgPolicies g = [(key, \<lparr>cpVersion = 0, cpPolicy = Some pol, cpModPolicy = key\<rparr>)]"

lemma templateGroup_Ret:
  assumes "templateGroup bu sys (applicationTemplate key pol members) v = Ret g" and "group_distinct sys"
    and "\<forall>(k, h) \<in> set members. group_distinct h" and "distinct (map fst members)"
  obtains og app where "cgGroups g = [(''Orderer'', og), (''Application'', app)]" "template_app key pol members app" "group_distinct g"
proof -
  obtain og where og: "map_of (cgGroups sys) ''Orderer'' = Some og" using assms(1) by (auto simp: templateGroup_def split: option.splits)
  let ?vs = "AList.update ''Consortium'' \<lparr>cvVersion = 0, cvValue = v, cvModPolicy = ''Admins''\<rparr> (cgValues sys)"
  let ?t = "\<lambda>mp. ConfigGroup 0 [(''Orderer'', og), (''Application'', applicationTemplate key pol members)] ?vs (cgPolicies sys) mp"
  from assms(1) og have g: "g = zeroVersions (?t (cgModPolicy sys)) \<or> g = ?t []"
    by (auto simp: templateGroup_def Let_def split: if_splits)
  have "group_distinct og" by (rule distinct_member [OF assms(2) og])
  with assms(2-4) have d: "group_distinct (?t mp)" for mp
    by (cases sys) (auto simp: applicationTemplate_def list_all_iff intro: distinct_update)
  have a: "template_app key pol members (applicationTemplate key pol members)"
    "template_app key pol members (zeroVersions (applicationTemplate key pol members))"
    by (auto simp: template_app_def applicationTemplate_def)
  from g show ?thesis
  proof
    assume z: "g = zeroVersions (?t (cgModPolicy sys))"
    then have "group_distinct g" using d zeroVersions_distinct by blast
    with that [of "zeroVersions og" "zeroVersions (applicationTemplate key pol members)"] a z show ?thesis by simp
  next
    assume "g = ?t []"
    with that [of og "applicationTemplate key pol members"] a d show ?thesis by simp
  qed
qed

lemma templateMembers_Inr:
  assumes "templateMembers consortium app = Inr members" and "group_distinct consortium" and "group_distinct app"
  shows "distinct (map fst members) \<and> (\<forall>(k, h) \<in> set members. group_distinct h)
    \<and> (cgGroups consortium \<noteq> [] \<longrightarrow> cgGroups app \<noteq> [] \<and> map fst members = map fst (cgGroups app)
         \<and> (\<forall>(k, h) \<in> set members. map_of (cgGroups consortium) k = Some h))
    \<and> (cgGroups consortium = [] \<longrightarrow> members = [])"
proof (cases "cgGroups consortium = []")
  case True
  with assms(1) show ?thesis by (auto simp: templateMembers_def)
next
  case False
  with assms(1) have ne: "cgGroups app \<noteq> []" and m: "list_all2 (\<lambda>(orgName, _) y. (case map_of (cgGroups consortium) orgName of
      None \<Rightarrow> Inl (TemplateRule ''member which is not in the consortium'') | Some g \<Rightarrow> Inr (orgName, g)) = Inr y) (cgGroups app) members"
    by (auto simp: templateMembers_def res_map_Inr case_prod_beta' split: if_splits)
  have n: "map fst members = map fst (cgGroups app)"
    using m by (induction rule: list_all2_induct) (auto split: option.splits)
  have c: "\<forall>(k, h) \<in> set members. map_of (cgGroups consortium) k = Some h"
    using m by (induction rule: list_all2_induct) (auto split: option.splits)
  have "distinct (map fst (cgGroups app))" using assms(3) by (cases app) simp
  with n c ne False distinct_member [OF assms(2)] show ?thesis by auto
qed

lemma template_policy:
  assumes new: "NewManagerImpl unm path prov g = Inr pm" and "cgGroups g = [(''Orderer'', og), (''Application'', app)]"
    and t: "template_app key pol members app" and key: "CHR ''/'' \<notin> set key" "key \<noteq> []"
  obtains m ms p where "Manager [''Application''] pm = Some m" "GetPolicy key m = Inr (PolicyLogger p (''/'' @ pmPath m @ ''/'' @ key), True)"
    "newPolicyOf unm prov ms \<lparr>cpVersion = 0, cpPolicy = Some pol, cpModPolicy = key\<rparr> = Inr p"
    "list_all2 (\<lambda>(org, h) (org', m'). org' = org \<and> NewManagerImpl unm (path @ ''/Application/'' @ org) prov h = Inr m') members ms"
proof -
  obtain mgrs pols where "pm = ManagerImpl path (fold (\<lambda>(k, v). AList.update k v) (subPolicyEntries mgrs) pols) mgrs"
    and "list_all2 (\<lambda>(g, grp) (g', m'). g = g' \<and> NewManagerImpl unm (path @ ''/'' @ g) prov grp = Inr m') (cgGroups g) mgrs"
    by (rule NewManagerImpl_Inr [OF new])
  with assms(2) obtain m where pm: "Manager [''Application''] pm = Some m"
    and a: "NewManagerImpl unm (path @ ''/'' @ ''Application'') prov app = Inr m"
    by (auto simp: list_all2_Cons1)
  obtain ver gs vs where app: "app = ConfigGroup ver gs vs [(key, \<lparr>cpVersion = 0, cpPolicy = Some pol, cpModPolicy = key\<rparr>)] key"
    "gs = members \<or> gs = map (\<lambda>(k, h). (k, zeroVersions h)) members" using t by (cases app) (auto simp: template_app_def)
  from a app obtain ms p where ms: "m = ManagerImpl (path @ ''/'' @ ''Application'') (fold (\<lambda>(k, v). AList.update k v) (subPolicyEntries ms) [(key, p)]) ms"
    and p: "newPolicyOf unm prov ms \<lparr>cpVersion = 0, cpPolicy = Some pol, cpModPolicy = key\<rparr> = Inr p"
    by (auto simp: NewManagerImpl.simps split: if_splits)
  have "list_all2 (\<lambda>(g, grp) (g', m'). g = g' \<and> NewManagerImpl unm ((path @ ''/'' @ ''Application'') @ ''/'' @ g) prov grp = Inr m') gs ms"
    by (rule NewManagerImpl_Inr [OF a]) (simp add: app(1) ms)
  then have n: "list_all2 (\<lambda>(org, h) (org', m'). org' = org \<and> NewManagerImpl unm (path @ ''/Application/'' @ org) prov h = Inr m') members ms"
    using app(2) by (auto simp: list_all2_map1 NewManagerImpl_zeroVersions elim!: list_all2_mono)
  have "key \<notin> fst ` set (subPolicyEntries ms)" using key by (auto simp: subPolicyEntries_def)
  then have "map_of (pmPolicies m) key = Some p"
    by (simp add: ms map_of_fold_update map_add_Some_iff map_of_eq_None_iff)
  moreover have "\<not> prefix ''/'' key" using key by (auto simp: prefix_def)
  ultimately have "GetPolicy key m = Inr (PolicyLogger p (''/'' @ pmPath m @ ''/'' @ key), True)"
    using key by (simp add: GetPolicy_def lookupPolicy_def)
  from that [OF pm this p n] show ?thesis .
qed

lemma policyKey_proper: "CHR ''/'' \<notin> set (templatePolicyKey bu app)" "templatePolicyKey bu app \<noteq> []"
  by (simp_all add: templatePolicyKey_def split: option.splits)

abbreviation applicationPath :: string where
  "applicationPath \<equiv> groupPrefix @ pathString [''Channel'', ''Application'']"

lemma application_element:
  assumes "mapConfig (Some g) ''Channel'' = Inr m" and "group_distinct g" and "map_of (cgGroups g) ''Application'' = Some app"
  shows "map_of m applicationPath = Some \<lparr>cmpItem = CGroup app, cmpKey = ''Application'', cmpPath = [''Channel'']\<rparr>"
proof -
  have "\<lparr>cmpItem = CGroup app, cmpKey = ''Application'', cmpPath = [''Channel'']\<rparr> \<in> set (elements [''Channel'', ''Application''] app)"
    using root_in_elements [of app "[''Channel'', ''Application'']"] by simp
  then have "\<lparr>cmpItem = CGroup app, cmpKey = ''Application'', cmpPath = [''Channel'']\<rparr> \<in> set (elements [''Channel''] g)"
    using map_of_SomeD [OF assms(3)] by (cases g) (auto simp: groupElements_set)
  then show ?thesis using map_of_mapConfig [OF assms(1,2)] by (simp add: fqPath_group)
qed

lemma NewChannelConfig_template:
  assumes "DefaultTemplator_NewChannelConfig se bu tx = Ret (Inr res)"
    and "EnvelopeToConfigUpdate (seCodec se) tx = Inr cue" and "unConfigUpdate (seCodec se) (cueConfigUpdate cue) = Some cu"
    and "cfgChannelGroup (viConfigProto (buConfigtxManager bu)) = Some sys"
  obtains app name cons co consortium members v g cid where
    "templateRequest se cu = Inr (app, name)" "ccConsortiumsConfig (buChannelConfig bu) = Some cons" "map_of cons name = Some co"
    "consortiumGroup sys name = Ret consortium" "templateMembers consortium app = Inr members"
    "templateGroup bu sys (applicationTemplate (templatePolicyKey bu app) (coChannelCreationPolicy co) members) v = Ret g"
    "NewBundle (seVc se) (seMs se) cid (Some \<lparr>cfgSequence = 0, cfgChannelGroup = Some g\<rparr>) = Inr res"
proof -
  from assms(2) obtain payload header chdr where p: "UnmarshalPayload (seCodec se) (slice_bytes (Envelope.Payload tx)) = Inr payload"
    "plHeader payload = Some header" "UnmarshalChannelHeader (seCodec se) (slice_bytes (hdrChannelHeader header)) = Inr chdr"
    "UnmarshalConfigUpdateEnvelope (seCodec se) (plData payload) = Inr cue"
    by (auto simp: EnvelopeToConfigUpdate_def UnmarshalEnvelopeOfType_def UnmarshalConfigUpdateEnvelope_def split: option.splits if_splits)
  have u: "UnmarshalConfigUpdate (seCodec se) (cueConfigUpdate cue) = Inr cu" using assms(3) by (simp add: UnmarshalConfigUpdate_def)
  note run = assms(1) [unfolded DefaultTemplator_NewChannelConfig_def p u assms(4) option.case]
  from run have "cuChannelId cu = chChannelId chdr" by (simp add: p u split: if_splits)
  with run obtain app name where req: "templateRequest se cu = Inr (app, name)" by (auto simp: p u)
  note run = run [simplified p u req option.case prod.case, simplified]
  from run obtain cons co where cons: "ccConsortiumsConfig (buChannelConfig bu) = Some cons" "map_of cons name = Some co"
    by (auto simp: req p u split: option.splits if_splits)
  from run cons that [OF req cons] show ?thesis by (auto simp: req p u split: if_splits)
qed

lemma NewBundle_policies:
  assumes "NewBundle vc ms cid (Some \<lparr>cfgSequence = s, cfgChannelGroup = Some g\<rparr>) = Inr b"
  shows "NewManagerImpl (unImplicitMeta vc) ''Channel'' [(1, NewPolicy (ccMspManager (buChannelConfig b)) (unSignaturePolicy vc))] g = Inr (viPm (buConfigtxManager b))"
    and "mapConfig (Some g) ''Channel'' = Inr (viConfigMap (buConfigtxManager b))" and "viNamespace (buConfigtxManager b) = ''Channel''"
proof -
  from assms have m: "NewManagerImpl (unImplicitMeta vc) ''Channel'' [(1, NewPolicy (ccMspManager (buChannelConfig b)) (unSignaturePolicy vc))] g = Inr (buPolicyManager b)"
    and v: "NewValidatorImpl cid (Some \<lparr>cfgSequence = s, cfgChannelGroup = Some g\<rparr>) ''Channel'' (buPolicyManager b) = Inr (buConfigtxManager b)"
    by (auto simp: NewBundle_def preValidate_def Let_def split: option.splits if_splits)
  show "NewManagerImpl (unImplicitMeta vc) ''Channel'' [(1, NewPolicy (ccMspManager (buChannelConfig b)) (unSignaturePolicy vc))] g = Inr (viPm (buConfigtxManager b))"
    by (rule NewValidatorImpl_Inr [OF v]) (simp add: m)
  show "mapConfig (Some g) ''Channel'' = Inr (viConfigMap (buConfigtxManager b))"
    by (rule NewValidatorImpl_Inr [OF v]) auto
  show "viNamespace (buConfigtxManager b) = ''Channel''"
    by (rule NewValidatorImpl_Inr [OF v])
qed

lemma creation_delta:
  assumes auth: "authorizeUpdate c msp vi (Some cue) = Inr full" and cu: "unConfigUpdate c (cueConfigUpdate cue) = Some cu"
    and sds: "ConfigUpdateEnvelopeAsSignedData c (Some cue) = Inr sds"
    and ns: "viNamespace vi = ''Channel''" and d: "updates_distinct c"
    and w: "cuWriteSet cu = Some ws" "map_of (cgGroups ws) ''Application'' = Some app" "cgVersion app = 1"
    and old: "map_of (viConfigMap vi) applicationPath = Some old" "version old = 0"
  shows "authorised msp vi sds old"
proof -
  from authorizeUpdate_Inr [OF auth] cu sds ns w(1) obtain readSet writeSet where
    r: "mapConfig (cuReadSet cu) ''Channel'' = Inr readSet" and ws: "mapConfig (Some ws) ''Channel'' = Inr writeSet"
    and vr: "verifyReadSet vi readSet = None" and vd: "verifyDeltaSet msp vi (computeDeltaSet readSet writeSet) sds = None"
    by (metis (no_types, lifting) Inr_inject option.inject)
  let ?el = "\<lparr>cmpItem = CGroup app, cmpKey = ''Application'', cmpPath = [''Channel'']\<rparr>"
  have "group_distinct ws" using d cu w(1) by (auto simp: updates_distinct_def)
  from map_of_SomeD [OF application_element [OF ws this w(2)]] have el: "(applicationPath, ?el) \<in> set writeSet" .
  have v: "version ?el = 1" by (simp add: version_def w(3))
  have "version rv \<noteq> 1" if "map_of readSet applicationPath = Some rv" for rv
    using vr map_of_SomeD [OF that] old by (auto simp: verifyReadSet_def verifyRead_def split: option.splits if_splits)
  with el v have "(applicationPath, ?el) \<in> set (computeDeltaSet readSet writeSet)"
    by (auto simp: computeDeltaSet_def split: option.splits)
  with vd have "verifyDelta msp vi sds (applicationPath, ?el) = None" by (simp add: verifyDeltaSet_None)
  with old(1) show ?thesis by (auto simp: verifyDelta_None authorised_def split: option.splits)
qed

lemma templateMembers_subset:
  assumes "templateMembers consortium app = Inr members" and "group_distinct consortium" and "group_distinct app"
  shows "cgGroups consortium \<noteq> [] \<longrightarrow> cgGroups app \<noteq> [] \<and> fst ` set (cgGroups app) \<subseteq> fst ` set (cgGroups consortium)"
proof
  assume "cgGroups consortium \<noteq> []"
  with templateMembers_Inr [OF assms] have n: "map fst members = map fst (cgGroups app)" and "cgGroups app \<noteq> []"
    and c: "\<forall>(k, h) \<in> set members. map_of (cgGroups consortium) k = Some h" by simp_all
  have "fst ` set (cgGroups app) = fst ` set members" using arg_cong [OF n, of set] by simp
  also have "\<dots> \<subseteq> fst ` set (cgGroups consortium)" using c by (auto dest!: bspec map_of_SomeD intro: rev_image_eqI)
  finally show "cgGroups app \<noteq> [] \<and> fst ` set (cgGroups app) \<subseteq> fst ` set (cgGroups consortium)" using \<open>cgGroups app \<noteq> []\<close> by simp
qed

text \<open>
  The policy managers of the organizations of a new channel: one for each organization that the request lists, built from the group that the consortium has for it; none if the
  consortium has no members.
\<close>

definition member_managers ::
  "(bytes \<Rightarrow> ImplicitMetaDef option) \<Rightarrow> providers \<Rightarrow> ConfigGroup \<Rightarrow> ConfigGroup \<Rightarrow> (string \<times> ManagerImpl) list \<Rightarrow> bool"
where
  "member_managers unm prov consortium app ms \<longleftrightarrow>
     (if cgGroups consortium = [] then ms = []
      else list_all2 (\<lambda>(org, _) (org', m). org' = org
             \<and> (\<exists>g. map_of (cgGroups consortium) org = Some g \<and> NewManagerImpl unm (''Channel/Application/'' @ org) prov g = Inr m))
           (cgGroups app) ms)"

lemma template_managers:
  assumes "templateMembers consortium app = Inr members"
    and "list_all2 (\<lambda>(org, h) (org', m'). org' = org \<and> NewManagerImpl unm (''Channel'' @ ''/Application/'' @ org) prov h = Inr m') members ms"
  shows "member_managers unm prov consortium app ms"
proof (cases "cgGroups consortium = []")
  case True
  with assms show ?thesis by (auto simp: templateMembers_def member_managers_def)
next
  case False
  with assms(1) have "list_all2 (\<lambda>(org, _) (org', h). org' = org \<and> map_of (cgGroups consortium) org = Some h) (cgGroups app) members"
    by (auto simp: templateMembers_def res_map_Inr split: if_splits option.splits elim!: list_all2_mono)
  from list_all2_trans [OF _ this assms(2), of "\<lambda>(org, _) (org', m). org' = org
      \<and> (\<exists>g. map_of (cgGroups consortium) org = Some g \<and> NewManagerImpl unm (''Channel/Application/'' @ org) prov g = Inr m)"]
  show ?thesis using False by (auto simp: member_managers_def)
qed

section \<open>Properties\<close>

text \<open>
  C23. Creating a channel is authorised by its consortium.  When the system channel's processor accepts an update for another channel, the
  update names a consortium of the system channel; if this consortium has members, the application group of the update lists at least one
  organization, and members of the consortium only; and the signatures of the update satisfy the consortium's channel creation policy.  This policy is built over the
  policy managers of the listed organizations, each built from the group of that organization in the consortium, so that an implicit meta policy such as ANY Admins
  counts the policies which the consortium has for them.
\<close>

theorem channel_creation_authorised:
  assumes run: "SystemChannel_ProcessConfigUpdateMsg se n bu (Some tx) = Ret (Inr (wrapped, seq))"
    and other: "ChannelID_of (seCodec se) tx = Inr cid" "cid \<noteq> ChannelID bu"
    and cue: "EnvelopeToConfigUpdate (seCodec se) tx = Inr cue" and cu: "unConfigUpdate (seCodec se) (cueConfigUpdate cue) = Some cu"
    and sds: "ConfigUpdateEnvelopeAsSignedData (seCodec se) (Some cue) = Inr sds"
    and dist: "updates_distinct (seCodec se)" "cfgChannelGroup (viConfigProto (buConfigtxManager bu)) = Some sys" "group_distinct sys"
  shows "\<exists>app name cons co consortium res ms p.
    templateRequest se cu = Inr (app, name) \<and> ccConsortiumsConfig (buChannelConfig bu) = Some cons \<and> map_of cons name = Some co
    \<and> consortiumGroup sys name = Ret consortium
    \<and> (cgGroups consortium \<noteq> [] \<longrightarrow> cgGroups app \<noteq> [] \<and> fst ` set (cgGroups app) \<subseteq> fst ` set (cgGroups consortium))
    \<and> DefaultTemplator_NewChannelConfig se bu tx = Ret (Inr res)
    \<and> newPolicyOf (unImplicitMeta (seVc se)) [(1, NewPolicy (ccMspManager (buChannelConfig res)) (unSignaturePolicy (seVc se)))] ms
        \<lparr>cpVersion = 0, cpPolicy = Some (coChannelCreationPolicy co), cpModPolicy = templatePolicyKey bu app\<rparr> = Inr p
    \<and> member_managers (unImplicitMeta (seVc se)) [(1, NewPolicy (ccMspManager (buChannelConfig res)) (unSignaturePolicy (seVc se)))] consortium app ms
    \<and> EvaluateSignedData (ccMspManager (buChannelConfig res)) p sds"
proof -
  from run other obtain res env where t: "DefaultTemplator_NewChannelConfig se bu tx = Ret (Inr res)"
    and u: "proposeConfigUpdate (seCodec se) (ccMspManager (buChannelConfig res)) (buConfigtxManager res) tx = Inr env"
    by (auto simp: SystemChannel_ProcessConfigUpdateMsg_def ConfigtxValidator_ProposeConfigUpdate_def)
  obtain app name cons co consortium members v g id where
    req: "templateRequest se cu = Inr (app, name)" and cons: "ccConsortiumsConfig (buChannelConfig bu) = Some cons" "map_of cons name = Some co"
    and con: "consortiumGroup sys name = Ret consortium" and mem: "templateMembers consortium app = Inr members"
    and tg: "templateGroup bu sys (applicationTemplate (templatePolicyKey bu app) (coChannelCreationPolicy co) members) v = Ret g"
    and nb: "NewBundle (seVc se) (seMs se) id (Some \<lparr>cfgSequence = 0, cfgChannelGroup = Some g\<rparr>) = Inr res"
    by (rule NewChannelConfig_template [OF t cue cu dist(2)])
  from req obtain ws where ws: "cuWriteSet cu = Some ws" "map_of (cgGroups ws) ''Application'' = Some app" "cgVersion app = 1"
    by (auto simp: templateRequest_def split: option.splits if_splits)
  have "group_distinct ws" using dist(1) cu ws(1) by (auto simp: updates_distinct_def)
  then have da: "group_distinct app" by (rule distinct_member [OF _ ws(2)])
  have dc: "group_distinct consortium" using con dist(3) by (auto simp: consortiumGroup_def intro: distinct_member split: option.splits)
  note m = templateMembers_Inr [OF mem dc da]
  obtain og tapp where g: "cgGroups g = [(''Orderer'', og), (''Application'', tapp)]"
    and ta: "template_app (templatePolicyKey bu app) (coChannelCreationPolicy co) members tapp" and dg: "group_distinct g"
    by (rule templateGroup_Ret [OF tg dist(3)]) (use m in auto)
  note b = NewBundle_policies [OF nb]
  obtain mgr ms p where mgr: "Manager [''Application''] (viPm (buConfigtxManager res)) = Some mgr"
    and gp: "GetPolicy (templatePolicyKey bu app) mgr = Inr (PolicyLogger p (''/'' @ pmPath mgr @ ''/'' @ templatePolicyKey bu app), True)"
    and p: "newPolicyOf (unImplicitMeta (seVc se)) [(1, NewPolicy (ccMspManager (buChannelConfig res)) (unSignaturePolicy (seVc se)))] ms
        \<lparr>cpVersion = 0, cpPolicy = Some (coChannelCreationPolicy co), cpModPolicy = templatePolicyKey bu app\<rparr> = Inr p"
    and ms: "list_all2 (\<lambda>(org, h) (org', m'). org' = org \<and> NewManagerImpl (unImplicitMeta (seVc se)) (''Channel'' @ ''/Application/'' @ org)
        [(1, NewPolicy (ccMspManager (buChannelConfig res)) (unSignaturePolicy (seVc se)))] h = Inr m') members ms"
    by (rule template_policy [OF b(1) g ta policyKey_proper])
  let ?old = "\<lparr>cmpItem = CGroup tapp, cmpKey = ''Application'', cmpPath = [''Channel'']\<rparr>"
  have old: "map_of (viConfigMap (buConfigtxManager res)) applicationPath = Some ?old"
    by (rule application_element [OF b(2) dg]) (simp add: g)
  have v0: "version ?old = 0" and mp: "modPolicy ?old = templatePolicyKey bu app" using ta by (simp_all add: template_app_def version_def modPolicy_def)
  from proposeConfigUpdate_Inr [OF u] cue obtain full where
    a: "authorizeUpdate (seCodec se) (ccMspManager (buChannelConfig res)) (buConfigtxManager res) (Some cue) = Inr full"
    by (metis Inr_inject)
  have "authorised (ccMspManager (buChannelConfig res)) (buConfigtxManager res) sds ?old"
    by (rule creation_delta [OF a cu sds b(3) dist(1) ws old v0])
  moreover have "policyForItem (buConfigtxManager res) ?old = Inr (Some (PolicyLogger p (''/'' @ pmPath mgr @ ''/'' @ templatePolicyKey bu app)))"
    using policyKey_proper [of bu app] mgr gp
    by (cases "templatePolicyKey bu app") (auto simp: policyForItem_def mp Let_def simp del: Manager.simps(2) simp add: Manager.simps(1))
  ultimately have ev: "EvaluateSignedData (ccMspManager (buChannelConfig res)) p sds" by (simp add: authorised_def)
  have sub: "cgGroups consortium \<noteq> [] \<longrightarrow> cgGroups app \<noteq> [] \<and> fst ` set (cgGroups app) \<subseteq> fst ` set (cgGroups consortium)"
    and mn: "member_managers (unImplicitMeta (seVc se)) [(1, NewPolicy (ccMspManager (buChannelConfig res)) (unSignaturePolicy (seVc se)))] consortium app ms"
    using templateMembers_subset [OF mem dc da] template_managers [OF mem ms] by simp_all
  show ?thesis
    by (intro exI conjI, rule req, rule cons(1), rule cons(2), rule con, rule sub, rule t, rule p, rule mn, rule ev)
qed

text \<open>A system channel with one consortium of one organization, and a request to create a channel signed by its administrators.\<close>

definition org_group :: ConfigGroup where
  "org_group = ConfigGroup 0 [] [(''MSP'', sample_value [1])] [sample_admins 1] ''Admins''"

definition sys_channel :: ConfigGroup where
  "sys_channel = ConfigGroup 0
     [(''Orderer'', ConfigGroup 0 [(''OrdererOrg'', org_group)]
         [(''BatchSize'', sample_value []), (''BatchTimeout'', sample_value []), (''ConsensusType'', sample_value [1]), (''Capabilities'', sample_value [])]
         [sample_admins 3] ''Admins''),
      (''Consortiums'', ConfigGroup 0
         [(''Consortium'', ConfigGroup 0 [(''Org1'', org_group)] [(''ChannelCreationPolicy'', sample_value [1])] [] ''Admins'')] [] [] ''Admins'')]
     [(''HashingAlgorithm'', sample_value []), (''BlockDataHashingStructure'', sample_value []), (''Capabilities'', sample_value [])]
     [sample_admins 3, (''Writers'', \<lparr>cpVersion = 0, cpPolicy = Some \<lparr>PolicyType = 1, PolicyValue = [1]\<rparr>, cpModPolicy = ''Admins''\<rparr>)] ''Admins''"

definition sys_vc :: value_codec where
  "sys_vc = wit_vc\<lparr>unPolicyMsg := (\<lambda>_. Some \<lparr>PolicyType = 1, PolicyValue = []\<rparr>)\<rparr>"

definition sys_bundle :: Bundle where
  "sys_bundle = (case NewBundle sys_vc sample_ms ''syschannel'' (Some \<lparr>cfgSequence = 3, cfgChannelGroup = Some sys_channel\<rparr>) of
     Inr b \<Rightarrow> b | Inl _ \<Rightarrow> sample_bundle)"

definition create_tx :: Envelope where
  "create_tx = \<lparr>Envelope.Payload = Some [1], Signature = [9]\<rparr>"

definition create_read :: ConfigGroup where
  "create_read = ConfigGroup 0 [(''Application'', ConfigGroup 0 [(''Org1'', ConfigGroup 0 [] [] [] '''')] [] [] '''')] [(''Consortium'', sample_value [])] [] ''''"

definition create_write :: ConfigGroup where
  "create_write = ConfigGroup 0 [(''Application'', ConfigGroup 1 [(''Org1'', ConfigGroup 0 [] [] [] '''')] [] [] ''Admins'')] [(''Consortium'', sample_value [])] [] ''''"

definition create_headers :: "(Payload \<times> bytes) list" where
  "create_headers =
     [(\<lparr>plHeader = Some \<lparr>hdrChannelHeader = Some [2], hdrSignatureHeader = Some [3]\<rparr>, plData = [4]\<rparr>, [1]),
      (\<lparr>plHeader = Some \<lparr>hdrChannelHeader = Some [12], hdrSignatureHeader = Some [3]\<rparr>, plData = [14]\<rparr>, [11]),
      (\<lparr>plHeader = Some \<lparr>hdrChannelHeader = Some [22], hdrSignatureHeader = Some [3]\<rparr>, plData = [15]\<rparr>, [21])]"

definition create_chdrs :: "(ChannelHeader \<times> bytes) list" where
  "create_chdrs = [(MakeChannelHeader 0 HeaderType_CONFIG_UPDATE 0 ''mychannel'' 0, [2]), (MakeChannelHeader 0 HeaderType_CONFIG 0 ''mychannel'' 0, [12]),
     (MakeChannelHeader 0 HeaderType_ORDERER_TRANSACTION 0 ''syschannel'' 0, [22])]"

definition create_codec0 :: codec where
  "create_codec0 = (update_codec create_read create_write [[1], [2]])
     \<lparr>unPayload := untable create_headers, maPayload := table create_headers,
      unChannelHeader := untable create_chdrs, maChannelHeader := table create_chdrs,
      unSignatureHeader := (\<lambda>b. Some (if b = [3] then \<lparr>shCreator = [1], shNonce = [8]\<rparr> else \<lparr>shCreator = b, shNonce = []\<rparr>)),
      maSignatureHeader := table [(\<lparr>shCreator = [1], shNonce = [8]\<rparr>, [3])]\<rparr>"

definition create_env_of :: "codec \<Rightarrow> sys_env" where
  "create_env_of c = \<lparr>seMsg =
     \<lparr>meBw = \<lparr>beCodec = c, beVc = sys_vc, beMs = sample_ms, beSigner = sample_signer [1], beNonce = (\<lambda>_. Some [8])\<rparr>,
      meNow = (\<lambda>_. 0), meRnd = Some [8], meNoExpirationChecks = False, meIdBytes = (\<lambda>_. None), meNotAfter = (\<lambda>_. None),
      meRaftMetadata = (\<lambda>_. False)\<rparr>, seRnd = Some [8], seMaConsortium = (\<lambda>_. Some [])\<rparr>"

definition create_result :: ConfigGroup where
  "create_result = ConfigGroup 0
     [(''Orderer'', ConfigGroup 0 [(''OrdererOrg'', org_group)]
         [(''BatchSize'', sample_value []), (''BatchTimeout'', sample_value []), (''ConsensusType'', sample_value [1]), (''Capabilities'', sample_value [])]
         [sample_admins 3] ''Admins''),
      (''Application'', ConfigGroup 1 [(''Org1'', org_group)] [] [] ''Admins'')]
     [(''HashingAlgorithm'', sample_value []), (''BlockDataHashingStructure'', sample_value []), (''Capabilities'', sample_value []), (''Consortium'', sample_value [])]
     [sample_admins 3, (''Writers'', \<lparr>cpVersion = 0, cpPolicy = Some \<lparr>PolicyType = 1, PolicyValue = [1]\<rparr>, cpModPolicy = ''Admins''\<rparr>)] ''Admins''"

definition create_ce :: ConfigEnvelope where
  "create_ce = \<lparr>ceConfig = Some \<lparr>cfgSequence = 1, cfgChannelGroup = Some create_result\<rparr>, ceLastUpdate = Some create_tx\<rparr>"

definition create_codec :: codec where
  "create_codec = create_codec0\<lparr>
      unConfigEnvelope := untable [(create_ce, [14])], maConfigEnvelope := table [(create_ce, [14])],
      unEnvelope := untable [(wit_config, [15])], maEnvelope := table [(wit_config, [15])]\<rparr>"

definition create_wrapped :: Envelope where
  "create_wrapped = \<lparr>Envelope.Payload = Some [21], Signature = [9]\<rparr>"

lemma create_process: "SystemChannel_ProcessConfigUpdateMsg (create_env_of create_codec) 1 sys_bundle (Some create_tx) = Ret (Inr (create_wrapped, 3))"
  by code_simp

lemma create_parts:
  "ChannelID_of create_codec create_tx = Inr ''mychannel''"
  "EnvelopeToConfigUpdate create_codec create_tx = Inr \<lparr>cueConfigUpdate = [5],
     cueSignatures = [\<lparr>csSignatureHeader = [1], csSignature = [9]\<rparr>, \<lparr>csSignatureHeader = [2], csSignature = [9]\<rparr>]\<rparr>"
  "ConfigUpdateEnvelopeAsSignedData create_codec (Some \<lparr>cueConfigUpdate = [5],
     cueSignatures = [\<lparr>csSignatureHeader = [1], csSignature = [9]\<rparr>, \<lparr>csSignatureHeader = [2], csSignature = [9]\<rparr>]\<rparr>)
   = Inr [\<lparr>sdData = [1, 5], sdIdentity = [1], sdSignature = [9]\<rparr>, \<lparr>sdData = [2, 5], sdIdentity = [2], sdSignature = [9]\<rparr>]"
  by code_simp+

lemma sys_parts:
  "ChannelID sys_bundle \<noteq> ''mychannel''" "cfgChannelGroup (viConfigProto (buConfigtxManager sys_bundle)) = Some sys_channel"
  "group_distinct sys_channel"
  by code_simp+

theorem channel_creation_authorised_witness:
  "\<exists>app name (co :: ConsortiumConfig) consortium res ms p. DefaultTemplator_NewChannelConfig (create_env_of create_codec) sys_bundle create_tx = Ret (Inr res)
     \<and> consortiumGroup sys_channel name = Ret consortium
     \<and> newPolicyOf (unImplicitMeta sys_vc) [(1, NewPolicy (ccMspManager (buChannelConfig res)) (unSignaturePolicy sys_vc))] ms
        \<lparr>cpVersion = 0, cpPolicy = Some (coChannelCreationPolicy co), cpModPolicy = templatePolicyKey sys_bundle app\<rparr> = Inr p
     \<and> member_managers (unImplicitMeta sys_vc) [(1, NewPolicy (ccMspManager (buChannelConfig res)) (unSignaturePolicy sys_vc))] consortium app ms
     \<and> EvaluateSignedData (ccMspManager (buChannelConfig res)) p
         [\<lparr>sdData = [1, 5], sdIdentity = [1], sdSignature = [9]\<rparr>, \<lparr>sdData = [2, 5], sdIdentity = [2], sdSignature = [9]\<rparr>]"
proof -
  have c: "seCodec (create_env_of create_codec) = create_codec" "seVc (create_env_of create_codec) = sys_vc" by (simp_all add: create_env_of_def)
  have u: "unConfigUpdate create_codec (cueConfigUpdate \<lparr>cueConfigUpdate = [5], cueSignatures = sigs\<rparr>) = Some \<lparr>cuChannelId = ''mychannel'', cuReadSet = Some create_read, cuWriteSet = Some create_write\<rparr>" for sigs
    by (simp add: create_codec_def create_codec0_def update_codec_def)
  have d: "updates_distinct create_codec"
    by (auto simp: updates_distinct_def create_codec_def create_codec0_def update_codec_def create_read_def create_write_def split: if_splits)
  from channel_creation_authorised [OF create_process, unfolded c, OF create_parts(1) sys_parts(1) [symmetric] create_parts(2) u create_parts(3) d sys_parts(2,3)]
  show ?thesis by (elim exE conjE) (intro exI conjI, assumption+)
qed

end
