(* ===== verification/Broadcast.thy ===== *)
theory Broadcast
  imports Ordering SystemChannel
begin

text \<open>
  The broadcast service (\<open>orderer/common/broadcast/broadcast.go\<close>) with the part of the registrar it uses
  (\<open>orderer/common/multichannel/registrar.go\<close>): a client's message is routed to a channel, checked by the channel's message processor and handed to
  its chain.

  The registrar holds the chains by channel; the chains share one consenter and one world, so a step of one chain writes both back
  to all of them.  A chain is the support of its channel: its bundle is the configuration the processor works with.  The processor of the system
  channel is the one of \<open>SystemChannel\<close>.  A handler that waits for a chain which is busy reprocessing gives no response.
\<close>

section \<open>The registrar\<close>

record 'w Registrar =
  rgChains :: "(string \<times> 'w chainImpl) list"
  rgSystemChannelID :: string

definition GetChain :: "'w Registrar \<Rightarrow> string \<Rightarrow> 'w chainImpl option" where
  "GetChain r chainID = map_of (rgChains r) chainID"

definition ChannelsCount :: "'w Registrar \<Rightarrow> nat" where
  "ChannelsCount r = length (rgChains r)"

definition ChannelList :: "'w Registrar \<Rightarrow> string option \<times> string list" where
  "ChannelList r =
     (if length (rgChains r) = 0 then (None, [])
      else (if rgSystemChannelID r \<noteq> [] then Some (rgSystemChannelID r) else None,
            filter (\<lambda>name. name \<noteq> rgSystemChannelID r) (map fst (rgChains r))))"

definition putChain :: "string \<Rightarrow> 'w chainImpl \<Rightarrow> 'w Registrar \<Rightarrow> 'w Registrar" where
  "putChain key ch r = r\<lparr>rgChains :=
     map (\<lambda>(k, c). (k, if k = key then ch else c\<lparr>chConsenter := chConsenter ch, chWorld := chWorld ch\<rparr>)) (rgChains r)\<rparr>"

datatype support_err = NoChannelHeader proto_err | NoSystemChannel | NotDirect

text \<open>The support is given by the name of its channel.\<close>

definition BroadcastChannelSupport ::
  "codec \<Rightarrow> 'w Registrar \<Rightarrow> Envelope \<Rightarrow> support_err + ChannelHeader \<times> bool \<times> string"
where
  "BroadcastChannelSupport c r msg =
     (case ChannelHeader_of c msg of
        Inl e \<Rightarrow> Inl (NoChannelHeader e)
      | Inr chdr \<Rightarrow>
          if GetChain r (chChannelId chdr) = None \<and> rgSystemChannelID r = [] then Inl NoSystemChannel
          else
            let cs = (if GetChain r (chChannelId chdr) = None then rgSystemChannelID r else chChannelId chdr) in
            (case ClassifyMsg chdr of
               ConfigUpdateMsg \<Rightarrow> Inr (chdr, True, cs)
             | ConfigMsg \<Rightarrow> Inl NotDirect
             | NormalMsg \<Rightarrow> Inr (chdr, False, cs)))"

section \<open>Handling a message\<close>

datatype Status_code = SUCCESS | BAD_REQUEST | NOT_FOUND | FORBIDDEN | SERVICE_UNAVAILABLE

definition ClassifyError :: "mp_err \<Rightarrow> Status_code" where
  "ClassifyError err =
     (case err of
        ErrChannelDoesNotExist \<Rightarrow> NOT_FOUND
      | ErrPermissionDenied \<Rightarrow> FORBIDDEN
      | ErrMaintenanceMode \<Rightarrow> SERVICE_UNAVAILABLE
      | _ \<Rightarrow> BAD_REQUEST)"

text \<open>The environment of one call of the system channel's processor: a second nonce.\<close>

definition sysEnv :: "'w hcs_env \<Rightarrow> (string \<Rightarrow> bytes option) \<Rightarrow> 'w chainImpl \<Rightarrow> sys_env \<times> 'w chainImpl" where
  "sysEnv env maConsortium ch =
     (case msgEnv env ch of (me, ch1) \<Rightarrow>
     (case heNonce env (chWorld ch1) of (rnd, w) \<Rightarrow>
        (\<lparr>seMsg = me, seRnd = rnd, seMaConsortium = maConsortium\<rparr>, ch1\<lparr>chWorld := w\<rparr>)))"

definition supportNormal ::
  "'w hcs_env \<Rightarrow> (string \<Rightarrow> bytes option) \<Rightarrow> 'w Registrar \<Rightarrow> string \<Rightarrow> 'w chainImpl \<Rightarrow> Envelope \<Rightarrow> ((mp_err + u64) \<times> 'w chainImpl) go"
where
  "supportNormal env maConsortium r key ch msg =
     (if key = rgSystemChannelID r
      then (case sysEnv env maConsortium ch of (se, ch1) \<Rightarrow>
            go_bind (SystemChannel_ProcessNormalMsg se (ChannelsCount r) (chBundle ch1) msg) (\<lambda>x. Ret (x, ch1)))
      else (case msgEnv env ch of (me, ch1) \<Rightarrow>
            go_bind (ProcessNormalMsg me (chBundle ch1) msg) (\<lambda>x. Ret (x, ch1))))"

definition supportConfigUpdate ::
  "'w hcs_env \<Rightarrow> (string \<Rightarrow> bytes option) \<Rightarrow> 'w Registrar \<Rightarrow> string \<Rightarrow> 'w chainImpl \<Rightarrow> Envelope
   \<Rightarrow> ((mp_err + Envelope \<times> u64) \<times> 'w chainImpl) go"
where
  "supportConfigUpdate env maConsortium r key ch msg =
     (if key = rgSystemChannelID r
      then (case sysEnv env maConsortium ch of (se, ch1) \<Rightarrow>
            go_bind (SystemChannel_ProcessConfigUpdateMsg se (ChannelsCount r) (chBundle ch1) (Some msg)) (\<lambda>x. Ret (x, ch1)))
      else (case msgEnv env ch of (me, ch1) \<Rightarrow>
            go_bind (ProcessConfigUpdateMsg me (chBundle ch1) (Some msg)) (\<lambda>x. Ret (x, ch1))))"

text \<open>\<open>WaitReady\<close> followed by the call of the chain.\<close>

definition enqueueMessage ::
  "('w chainImpl \<Rightarrow> (chain_err option \<times> 'w chainImpl) go) \<Rightarrow> 'w chainImpl \<Rightarrow> (Status_code option \<times> 'w chainImpl) go"
where
  "enqueueMessage send ch =
     (case WaitReady ch of
        Blocked \<Rightarrow> Ret (None, ch)
      | Failed _ \<Rightarrow> Ret (Some SERVICE_UNAVAILABLE, ch)
      | Ready \<Rightarrow>
          go_bind (send ch) (\<lambda>(err, ch1).
          Ret (Some (if err \<noteq> None then SERVICE_UNAVAILABLE else SUCCESS), ch1)))"

definition ProcessMessage ::
  "'w hcs_env \<Rightarrow> (string \<Rightarrow> bytes option) \<Rightarrow> Envelope \<Rightarrow> 'w Registrar \<Rightarrow> (Status_code option \<times> 'w Registrar) go"
where
  "ProcessMessage env maConsortium msg r =
     (case BroadcastChannelSupport (meCodec (heMsg env)) r msg of
        Inl _ \<Rightarrow> Ret (Some BAD_REQUEST, r)
      | Inr (chdr, isConfig, key) \<Rightarrow>
          (case GetChain r key of
             None \<Rightarrow> Panic ''nil pointer dereference''
           | Some ch \<Rightarrow>
               go_bind
                 (if \<not> isConfig
                  then go_bind (supportNormal env maConsortium r key ch msg) (\<lambda>(x, ch1).
                       case x of
                         Inl e \<Rightarrow> Ret (Some (ClassifyError e), ch1)
                       | Inr configSeq \<Rightarrow> enqueueMessage (Order env msg configSeq) ch1)
                  else go_bind (supportConfigUpdate env maConsortium r key ch msg) (\<lambda>(x, ch1).
                       case x of
                         Inl e \<Rightarrow> Ret (Some (ClassifyError e), ch1)
                       | Inr (config, configSeq) \<Rightarrow> enqueueMessage (Configure env config configSeq) ch1)) (\<lambda>(status, ch2).
               Ret (status, putChain key ch2 r))))"

text \<open>
  The loop of \<open>Handle\<close> over the messages of a stream, with whether the response to each can be sent; it ends after a response that is not a success,
  and waits for ever when a message gets no response.
\<close>

fun Handle ::
  "'w hcs_env \<Rightarrow> (string \<Rightarrow> bytes option) \<Rightarrow> (Envelope \<times> bool) list \<Rightarrow> 'w Registrar \<Rightarrow> (Status_code list \<times> 'w Registrar) go"
where
  "Handle env maConsortium [] r = Ret ([], r)"
| "Handle env maConsortium ((msg, sendOk) # rest) r =
     go_bind (ProcessMessage env maConsortium msg r) (\<lambda>(status, r1).
     case status of
       None \<Rightarrow> Ret ([], r1)
     | Some st \<Rightarrow>
         if st \<noteq> SUCCESS \<or> \<not> sendOk then Ret ([st], r1)
         else go_bind (Handle env maConsortium rest r1) (\<lambda>(sts, r2). Ret (st # sts, r2)))"

section \<open>Lemmas\<close>

text \<open>What an accepted envelope has passed, in either processor.\<close>

definition passes :: "'w hcs_env \<Rightarrow> Bundle \<Rightarrow> Envelope \<Rightarrow> bool" where
  "passes env bu e \<longleftrightarrow>
     emptyRejectRule e = Ret (Inr ()) \<and> MaxBytesRule bu e = Ret (Inr ())
     \<and> SigFilter ChannelWriters ChannelOrdererWriters (meCodec (heMsg env)) bu e = Ret (Inr ())"

text \<open>\<open>aside\<close>: a step that only consumes clock readings and nonces.\<close>

definition aside :: "('w \<Rightarrow> submission list) \<Rightarrow> 'w chainImpl \<Rightarrow> 'w chainImpl \<Rightarrow> bool" where
  "aside log ch ch' \<longleftrightarrow> (\<exists>w. ch' = ch\<lparr>chWorld := w\<rparr> \<and> log w = log (chWorld ch))"

definition nonces_quiet :: "'w hcs_env \<Rightarrow> ('w \<Rightarrow> submission list) \<Rightarrow> bool" where
  "nonces_quiet env log \<longleftrightarrow> (\<forall>w rnd w'. heNonce env w = (rnd, w') \<longrightarrow> log w' = log w)"

lemma msgEnv_aside:
  assumes "recorded env log" and "nonces_quiet env log" and "msgEnv env ch = (me, ch1)"
  shows "aside log ch ch1 \<and> meBw me = meBw (heMsg env)"
  using assms by (auto simp: msgEnv_def aside_def recorded_def nonces_quiet_def split: prod.splits)

lemma sysEnv_aside:
  assumes "recorded env log" and "nonces_quiet env log" and "sysEnv env ma ch = (se, ch1)"
  shows "aside log ch ch1 \<and> meBw (seMsg se) = meBw (heMsg env)"
proof -
  obtain me ch0 where m: "msgEnv env ch = (me, ch0)" by fastforce
  obtain rnd w where n: "heNonce env (chWorld ch0) = (rnd, w)" by fastforce
  have "log w = log (chWorld ch0)" using assms(2) n by (simp add: nonces_quiet_def)
  moreover have "se = \<lparr>seMsg = me, seRnd = rnd, seMaConsortium = ma\<rparr>" "ch1 = ch0\<lparr>chWorld := w\<rparr>"
    using assms(3) by (auto simp: sysEnv_def m n)
  ultimately show ?thesis using msgEnv_aside [OF assms(1,2) m] by (auto simp: aside_def)
qed

lemma aside_sel: "aside log ch ch1 \<Longrightarrow> chBundle ch1 = chBundle ch \<and> WaitReady ch1 = WaitReady ch
    \<and> log (chWorld ch1) = log (chWorld ch) \<and> chain_Sign env ch1 = chain_Sign env ch \<and> chAmp ch1 = chAmp ch"
  by (auto simp: aside_def WaitReady_def chain_Sign_def fun_eq_iff split: latch.split option.split)

lemma standard_filters:
  assumes "meBw me = meBw (heMsg env)" and "RuleSet_Apply (CreateStandardChannelFilters me i bu) e = Ret (Inr u)"
  shows "passes env bu e"
  using assms(2) filters_members [of bu me i] unfolding RuleSet_Apply_Inr passes_def assms(1) [symmetric] by blast

lemma system_filters:
  assumes "meBw (seMsg se) = meBw (heMsg env)" and "RuleSet_Apply (CreateSystemChannelFilters se n bu i) e = Ret (Inr u)"
  shows "passes env bu e"
  using assms(2) unfolding RuleSet_Apply_Inr passes_def assms(1) [symmetric] by (auto simp: CreateSystemChannelFilters_def Let_def)

lemma supportNormal_Inr:
  assumes "recorded env log" and "nonces_quiet env log" and "supportNormal env ma r key ch msg = Ret (Inr seq, ch1)"
  shows "aside log ch ch1 \<and> passes env (chBundle ch) msg \<and> seq = viSequence (buConfigtxManager (chBundle ch))"
proof (cases "key = rgSystemChannelID r")
  case True
  obtain se ch0 where s: "sysEnv env ma ch = (se, ch0)" by fastforce
  note a = sysEnv_aside [OF assms(1,2) s] and sel = aside_sel [OF conjunct1 [OF sysEnv_aside [OF assms(1,2) s]]]
  from assms(3) True s have "ch1 = ch0" "SystemChannel_ProcessNormalMsg se (ChannelsCount r) (chBundle ch0) msg = Ret (Inr seq)"
    by (auto simp: supportNormal_def)
  then show ?thesis using a sel system_filters [of se env]
    by (auto simp: SystemChannel_ProcessNormalMsg_def processNormalMsg_def Let_def split: option.splits if_splits)
next
  case False
  obtain me ch0 where m: "msgEnv env ch = (me, ch0)" by fastforce
  note a = msgEnv_aside [OF assms(1,2) m] and sel = aside_sel [OF conjunct1 [OF msgEnv_aside [OF assms(1,2) m]]]
  from assms(3) False m have "ch1 = ch0" "ProcessNormalMsg me (chBundle ch0) msg = Ret (Inr seq)"
    by (auto simp: supportNormal_def)
  then show ?thesis using a sel standard_filters [of me env]
    by (auto simp: ProcessNormalMsg_def processNormalMsg_def Let_def split: option.splits if_splits)
qed

text \<open>
  The transactions that a configuration update becomes.  \<open>config_transaction\<close>: an envelope signed by the orderer, with the configuration that the validator of a
  bundle proposes for the update, and the update itself.  \<open>creation_transaction\<close>: an envelope of the system channel that wraps the configuration transaction of a new
  channel, proposed from the template for that channel.
\<close>

definition config_transaction :: "'w hcs_env \<Rightarrow> Bundle \<Rightarrow> string \<Rightarrow> Envelope \<Rightarrow> Envelope \<Rightarrow> bool" where
  "config_transaction env bu channelID update e \<longleftrightarrow>
     (\<exists>ce now rnd. proposeConfigUpdate (meCodec (heMsg env)) (ccMspManager (buChannelConfig bu)) (buConfigtxManager bu) update = Inr ce
        \<and> ceLastUpdate ce = Some update
        \<and> CreateSignedEnvelope (meCodec (heMsg env)) now rnd HeaderType_CONFIG channelID (Some (beSigner (meBw (heMsg env))))
            (maConfigEnvelope (meCodec (heMsg env)) ce) 0 0 = Ret (Inr e))"

definition creation_transaction :: "'w hcs_env \<Rightarrow> (string \<Rightarrow> bytes option) \<Rightarrow> Bundle \<Rightarrow> Envelope \<Rightarrow> Envelope \<Rightarrow> bool" where
  "creation_transaction env maConsortium bu update e \<longleftrightarrow>
     (\<exists>se res channelID new now rnd. meBw (seMsg se) = meBw (heMsg env) \<and> seMaConsortium se = maConsortium
        \<and> ChannelID_of (meCodec (heMsg env)) update = Inr channelID \<and> channelID \<noteq> ChannelID bu
        \<and> DefaultTemplator_NewChannelConfig se bu update = Ret (Inr res) \<and> config_transaction env res channelID update new
        \<and> CreateSignedEnvelope (meCodec (heMsg env)) now rnd HeaderType_ORDERER_TRANSACTION (ChannelID bu) (Some (beSigner (meBw (heMsg env))))
            (maEnvelope (meCodec (heMsg env)) new) 0 0 = Ret (Inr e))"

lemma proposed_transaction:
  assumes "proposeConfigUpdate (meCodec (heMsg env)) (ccMspManager (buChannelConfig bu)) (buConfigtxManager bu) update = Inr ce"
    and "CreateSignedEnvelope (meCodec (heMsg env)) now rnd HeaderType_CONFIG channelID (Some (beSigner (meBw (heMsg env))))
            (maConfigEnvelope (meCodec (heMsg env)) ce) 0 0 = Ret (Inr e)"
  shows "config_transaction env bu channelID update e"
proof -
  have "ceLastUpdate ce = Some update" by (rule proposeConfigUpdate_Inr [OF assms(1)]) simp
  with assms show ?thesis unfolding config_transaction_def by (intro exI conjI)
qed

lemma processConfigUpdateMsg_Inr:
  assumes "processConfigUpdateMsg me filters bu (Some update) = Ret (Inr (config, seq))" and me: "meBw me = meBw (heMsg env)"
  shows "RuleSet_Apply (filters 2) config = Ret (Inr ()) \<and> seq = viSequence (buConfigtxManager bu)
    \<and> config_transaction env bu (ChannelID bu) update config"
proof -
  from assms(1) obtain ce where ce: "ProposeConfigUpdate me bu update = Ret (Inr ce)"
    and e: "CreateSignedEnvelope (meCodec me) (meNow me 1 div 10 ^ 9) (meRnd me) HeaderType_CONFIG (ChannelID bu)
        (Some (beSigner (meBw me))) (maConfigEnvelope (meCodec me) ce) 0 0 = Ret (Inr config)"
    and f: "RuleSet_Apply (filters 2) config = Ret (Inr ())" "seq = viSequence (buConfigtxManager bu)"
    by (auto simp: processConfigUpdateMsg_def Let_def split: go.splits sum.splits)
  have "config_transaction env bu (ChannelID bu) update config"
    by (rule ProposeConfigUpdate_Inr [OF ce], rule proposed_transaction [OF _ e [unfolded me]]) (simp add: me)
  with f show ?thesis by simp
qed

lemma SystemChannel_ProcessConfigUpdateMsg_Inr:
  assumes "SystemChannel_ProcessConfigUpdateMsg se n bu (Some update) = Ret (Inr (config, seq))" and me: "meBw (seMsg se) = meBw (heMsg env)"
  shows "RuleSet_Apply (CreateSystemChannelFilters se n bu 2) config = Ret (Inr ()) \<and> seq = viSequence (buConfigtxManager bu)
    \<and> (config_transaction env bu (ChannelID bu) update config \<or> creation_transaction env (seMaConsortium se) bu update config)"
proof -
  from assms(1) obtain cid where cid: "ChannelID_of (seCodec se) update = Inr cid" by (auto simp: SystemChannel_ProcessConfigUpdateMsg_def)
  show ?thesis
  proof (cases "cid = ChannelID bu")
    case True
    with assms(1) cid have "processConfigUpdateMsg (seMsg se) (CreateSystemChannelFilters se n bu) bu (Some update) = Ret (Inr (config, seq))"
      by (simp add: SystemChannel_ProcessConfigUpdateMsg_def)
    from processConfigUpdateMsg_Inr [OF this me] show ?thesis by blast
  next
    case False
    with assms(1) cid obtain res ce new where t: "DefaultTemplator_NewChannelConfig se bu update = Ret (Inr res)"
      and ce: "proposeConfigUpdate (seCodec se) (ccMspManager (buChannelConfig res)) (buConfigtxManager res) update = Inr ce"
      and new: "CreateSignedEnvelope (seCodec se) (meNow (seMsg se) 0 div 10 ^ 9) (meRnd (seMsg se)) HeaderType_CONFIG cid
                  (Some (beSigner (meBw (seMsg se)))) (maConfigEnvelope (seCodec se) ce) 0 0 = Ret (Inr new)"
      and w: "CreateSignedEnvelope (seCodec se) (meNow (seMsg se) 1 div 10 ^ 9) (seRnd se) HeaderType_ORDERER_TRANSACTION (ChannelID bu)
                  (Some (beSigner (meBw (seMsg se)))) (maEnvelope (seCodec se) new) 0 0 = Ret (Inr config)"
      and f: "RuleSet_Apply (CreateSystemChannelFilters se n bu 2) config = Ret (Inr ())" "seq = viSequence (buConfigtxManager bu)"
      by (auto simp: SystemChannel_ProcessConfigUpdateMsg_def ConfigtxValidator_ProposeConfigUpdate_def)
    have c: "config_transaction env res cid update new" by (rule proposed_transaction [OF ce [unfolded me] new [unfolded me]])
    have "creation_transaction env (seMaConsortium se) bu update config"
      unfolding creation_transaction_def
      by (intro exI conjI, rule me, rule refl, rule cid [unfolded me], rule False, rule t, rule c, rule w [unfolded me])
    with f show ?thesis by simp
  qed
qed

lemma supportConfigUpdate_Inr:
  assumes "recorded env log" and "nonces_quiet env log" and "supportConfigUpdate env ma r key ch msg = Ret (Inr (config, seq), ch1)"
  shows "aside log ch ch1 \<and> passes env (chBundle ch) config \<and> seq = viSequence (buConfigtxManager (chBundle ch))
    \<and> (config_transaction env (chBundle ch) (ChannelID (chBundle ch)) msg config
       \<or> key = rgSystemChannelID r \<and> creation_transaction env ma (chBundle ch) msg config)"
proof (cases "key = rgSystemChannelID r")
  case True
  obtain se ch0 where s: "sysEnv env ma ch = (se, ch0)" by fastforce
  note a = sysEnv_aside [OF assms(1,2) s] and sel = aside_sel [OF conjunct1 [OF sysEnv_aside [OF assms(1,2) s]]]
  from assms(3) True s have ch: "ch1 = ch0" and p: "SystemChannel_ProcessConfigUpdateMsg se (ChannelsCount r) (chBundle ch0) (Some msg) = Ret (Inr (config, seq))"
    by (auto simp: supportConfigUpdate_def)
  have "seMaConsortium se = ma" using s by (auto simp: sysEnv_def split: prod.splits)
  with SystemChannel_ProcessConfigUpdateMsg_Inr [OF p conjunct2 [OF a]] a sel ch True system_filters [of se env] show ?thesis by auto
next
  case False
  obtain me ch0 where m: "msgEnv env ch = (me, ch0)" by fastforce
  note a = msgEnv_aside [OF assms(1,2) m] and sel = aside_sel [OF conjunct1 [OF msgEnv_aside [OF assms(1,2) m]]]
  from assms(3) False m have ch: "ch1 = ch0" and p: "ProcessConfigUpdateMsg me (chBundle ch0) (Some msg) = Ret (Inr (config, seq))"
    by (auto simp: supportConfigUpdate_def)
  from processConfigUpdateMsg_Inr [OF p [unfolded ProcessConfigUpdateMsg_def] conjunct2 [OF a]] a sel ch standard_filters [of me env] show ?thesis by auto
qed

text \<open>What the consensus service has of a message that was enqueued: every chunk of its application message, in order.\<close>

definition handed_over :: "'w hcs_env \<Rightarrow> ('w \<Rightarrow> submission list) \<Rightarrow> 'w chainImpl \<Rightarrow> HcsMessage \<Rightarrow> 'w chainImpl \<Rightarrow> bool" where
  "handed_over env log ch m ch' \<longleftrightarrow>
     (\<exists>subs payload t parts hash. maHcsMessage env m = Some payload
        \<and> Split (heAmp env) (chain_Sign env ch) (Some payload) t (chAmp ch) = Ret (Inr (parts, hash))
        \<and> log (chWorld ch') = log (chWorld ch) @ subs \<and> accepted subs = map (maChunk env) parts)"

lemma handed_over_aside: "aside log ch ch1 \<Longrightarrow> handed_over env log ch1 m ch2 \<Longrightarrow> handed_over env log ch m ch2"
  using aside_sel [of log ch ch1 env] by (simp add: handed_over_def)

lemma enqueue_handed_over:
  assumes "recorded env log" and "enqueue env m ch = Ret ((True, h), ch')"
  shows "handed_over env log ch m ch'"
proof -
  from assms(2) have "enqueueChecked env m ch = Ret ((True, h), ch')"
    by (auto simp: enqueue_def split: latch.splits)
  from enqueueChecked_submitted [OF assms(1) this] obtain subs where s: "submitted log ch subs ch'"
    and c: "case maHcsMessage env m of
       None \<Rightarrow> subs = [] \<and> \<not> True \<and> h = None
     | Some payload \<Rightarrow>
         \<exists>t. nextValidStart (chConsenter ch) \<le> t \<and> (\<forall>s \<in> set subs. t < tiValidStart (sbID s))
           \<and> (case Split (heAmp env) (chain_Sign env ch) (Some payload) t (chAmp ch) of
                Panic _ \<Rightarrow> False
              | Ret (Inl _) \<Rightarrow> subs = [] \<and> \<not> True \<and> h = None
              | Ret (Inr (parts, hash)) \<Rightarrow>
                  (\<exists>groups. subs = concat groups \<and> sends env parts groups True) \<and> h = (if True then Some hash else None))" by blast
  from c obtain payload t where p: "maHcsMessage env m = Some payload"
    and sp: "case Split (heAmp env) (chain_Sign env ch) (Some payload) t (chAmp ch) of
                Panic _ \<Rightarrow> False
              | Ret (Inl _) \<Rightarrow> subs = [] \<and> \<not> True \<and> h = None
              | Ret (Inr (parts, hash)) \<Rightarrow>
                  (\<exists>groups. subs = concat groups \<and> sends env parts groups True) \<and> h = (if True then Some hash else None)"
    by (cases "maHcsMessage env m") auto
  from sp obtain parts hash groups where "Split (heAmp env) (chain_Sign env ch) (Some payload) t (chAmp ch) = Ret (Inr (parts, hash))"
    "subs = concat groups" "sends env parts groups True" by (auto split: go.splits sum.splits prod.splits)
  moreover from this(3) have "accepted (concat groups) = map (maChunk env) parts" by (rule sends_accepted)
  moreover have "log (chWorld ch') = log (chWorld ch) @ subs" using s by (simp add: submitted_def)
  ultimately show ?thesis unfolding handed_over_def using p by (intro exI conjI) (assumption | simp)+
qed

lemma handleTimeToCutRequest_world:
  "handleTimeToCutRequest q ch = Ret ch' \<Longrightarrow> chWorld ch' = chWorld ch"
  by (auto simp: handleTimeToCutRequest_def split: if_splits option.splits)

lemma Order_handed_over:
  assumes "recorded env log" and "Order env e n ch = Ret (None, ch')"
  obtains b where "maEnvelope (meCodec (heMsg env)) e = Some b" and "handed_over env log ch (newNormalMessage b n 0) ch'"
proof -
  from assms(2) obtain b where b: "maEnvelope (meCodec (heMsg env)) e = Some b"
    by (auto simp: Order_def order_def split: option.splits)
  with assms(2) obtain h ch1 where q: "enqueue env (newNormalMessage b n 0) ch = Ret ((True, h), ch1)" and "chWorld ch' = chWorld ch1"
    by (auto simp: Order_def order_def handleTimeToCutRequest_world split: if_splits)
  with enqueue_handed_over [OF assms(1) q] b show thesis by (intro that) (auto simp: handed_over_def)
qed

lemma Configure_handed_over:
  assumes "recorded env log" and "Configure env e n ch = Ret (None, ch')"
  obtains b where "maEnvelope (meCodec (heMsg env)) e = Some b" and "handed_over env log ch (newConfigMessage b n 0) ch'"
proof -
  from assms(2) obtain b where b: "maEnvelope (meCodec (heMsg env)) e = Some b"
    by (auto simp: Configure_def configure_def split: option.splits)
  with assms(2) obtain h where q: "enqueue env (newConfigMessage b n 0) ch = Ret ((True, h), ch')"
    by (auto simp: Configure_def configure_def split: if_splits)
  with enqueue_handed_over [OF assms(1) q] b show thesis by (intro that) auto
qed

lemma BroadcastChannelSupport_Inr:
  assumes "BroadcastChannelSupport c reg msg = Inr (chdr, isConfig, key)"
  shows "ChannelHeader_of c msg = Inr chdr \<and> key = (if GetChain reg (chChannelId chdr) = None then rgSystemChannelID reg else chChannelId chdr)
    \<and> isConfig = (chType chdr = HeaderType_CONFIG_UPDATE)"
  using assms by (auto simp: BroadcastChannelSupport_def ClassifyMsg_def Let_def split: sum.splits if_splits)

lemma enqueueMessage_SUCCESS:
  "enqueueMessage send ch = Ret (Some SUCCESS, ch') \<longleftrightarrow> WaitReady ch = Ready \<and> send ch = Ret (None, ch')"
  by (auto simp: enqueueMessage_def split: waiting.splits if_splits)

lemma ClassifyError_fails [simp]: "ClassifyError err \<noteq> SUCCESS"
  by (simp add: ClassifyError_def split: mp_err.split)

lemma normal_SUCCESS:
  assumes "go_bind (supportNormal env ma reg key ch msg) (\<lambda>(x, ch1).
      case x of Inl e \<Rightarrow> Ret (Some (ClassifyError e), ch1) | Inr configSeq \<Rightarrow> enqueueMessage (Order env msg configSeq) ch1) = Ret (Some SUCCESS, ch')"
  obtains seq ch1 where "supportNormal env ma reg key ch msg = Ret (Inr seq, ch1)" and "WaitReady ch1 = Ready" and "Order env msg seq ch1 = Ret (None, ch')"
proof -
  from assms obtain x ch1 where 1: "supportNormal env ma reg key ch msg = Ret (x, ch1)" by auto
  with assms that show thesis by (cases x) (simp_all add: enqueueMessage_SUCCESS)
qed

lemma config_SUCCESS:
  assumes "go_bind (supportConfigUpdate env ma reg key ch msg) (\<lambda>(x, ch1).
      case x of Inl e \<Rightarrow> Ret (Some (ClassifyError e), ch1) | Inr (config, configSeq) \<Rightarrow> enqueueMessage (Configure env config configSeq) ch1)
      = Ret (Some SUCCESS, ch')"
  obtains config seq ch1 where "supportConfigUpdate env ma reg key ch msg = Ret (Inr (config, seq), ch1)" and "WaitReady ch1 = Ready"
    and "Configure env config seq ch1 = Ret (None, ch')"
proof -
  from assms obtain x ch1 where 1: "supportConfigUpdate env ma reg key ch msg = Ret (x, ch1)" by auto
  with assms that show thesis by (cases x) (auto simp: enqueueMessage_SUCCESS)
qed

text \<open>A stream is served in order and no message is handled after a failure: every response but the last is a success.\<close>

lemma Handle_stops:
  "Handle env ma ms r = Ret (sts, r') \<Longrightarrow> length sts \<le> length ms \<and> list_all ((=) SUCCESS) (butlast sts)"
proof (induction ms arbitrary: r sts)
  case (Cons m ms)
  obtain msg sendOk where m: "m = (msg, sendOk)" by (cases m)
  from Cons.prems obtain status r1 where p: "ProcessMessage env ma msg r = Ret (status, r1)" by (auto simp: m)
  show ?case
  proof (cases "status = Some SUCCESS \<and> sendOk")
    case True
    with Cons.prems p obtain sts' where s: "sts = SUCCESS # sts'" and h: "Handle env ma ms r1 = Ret (sts', r')" by (auto simp: m)
    from Cons.IH [OF h] s show ?thesis by simp
  next
    case False
    with Cons.prems p show ?thesis by (cases status) (auto simp: m split: if_splits)
  qed
qed simp

section \<open>Properties\<close>

text \<open>
  C11. A client that is told SUCCESS has its message in the hands of the consensus service.  The message went to the channel it names or, if there is none, to the
  system channel, and the chain of that channel was ready.  Unless it is a configuration update, the message itself is submitted, as a normal message.  For a configuration update, the
  configuration transaction that the channel's validator makes from it is submitted, as a configuration message, or on the system channel the transaction that creates a new
  channel by it.  What is submitted passed the empty, size and signature checks under the channel's current configuration and carries that configuration's sequence number,
  and the service accepted every chunk it was split into, in order.
\<close>

theorem broadcast_success_submitted:
  assumes r: "recorded env log" and n: "nonces_quiet env log"
    and run: "ProcessMessage env maConsortium msg reg = Ret (Some SUCCESS, reg')"
  shows "\<exists>chdr key ch ch' e b m. ChannelHeader_of (meCodec (heMsg env)) msg = Inr chdr
    \<and> key = (if GetChain reg (chChannelId chdr) = None then rgSystemChannelID reg else chChannelId chdr)
    \<and> GetChain reg key = Some ch \<and> reg' = putChain key ch' reg \<and> WaitReady ch = Ready
    \<and> passes env (chBundle ch) e \<and> maEnvelope (meCodec (heMsg env)) e = Some b
    \<and> (if chType chdr = HeaderType_CONFIG_UPDATE
       then m = newConfigMessage b (viSequence (buConfigtxManager (chBundle ch))) 0
         \<and> (config_transaction env (chBundle ch) (ChannelID (chBundle ch)) msg e
            \<or> key = rgSystemChannelID reg \<and> creation_transaction env maConsortium (chBundle ch) msg e)
       else m = newNormalMessage b (viSequence (buConfigtxManager (chBundle ch))) 0 \<and> e = msg)
    \<and> handed_over env log ch m ch'"
proof -
  from run obtain chdr isConfig key where s: "BroadcastChannelSupport (meCodec (heMsg env)) reg msg = Inr (chdr, isConfig, key)"
    by (cases "BroadcastChannelSupport (meCodec (heMsg env)) reg msg") (auto simp: ProcessMessage_def)
  note route = BroadcastChannelSupport_Inr [OF s]
  from run obtain ch where ch: "GetChain reg key = Some ch"
    by (cases "GetChain reg key") (simp_all add: ProcessMessage_def s)
  have fin: ?thesis if p: "aside log ch ch1" "passes env (chBundle ch) e"
    and w: "WaitReady ch1 = Ready" and b: "maEnvelope (meCodec (heMsg env)) e = Some b"
    and m: "if chType chdr = HeaderType_CONFIG_UPDATE
       then m = newConfigMessage b (viSequence (buConfigtxManager (chBundle ch))) 0
         \<and> (config_transaction env (chBundle ch) (ChannelID (chBundle ch)) msg e
            \<or> key = rgSystemChannelID reg \<and> creation_transaction env maConsortium (chBundle ch) msg e)
       else m = newNormalMessage b (viSequence (buConfigtxManager (chBundle ch))) 0 \<and> e = msg"
    and h: "handed_over env log ch1 m ch'" and reg: "reg' = putChain key ch' reg" for ch1 ch' e b m
  proof -
    from p have "WaitReady ch = Ready" using aside_sel w by metis
    moreover have "handed_over env log ch m ch'" by (rule handed_over_aside [OF p(1) h])
    ultimately show ?thesis using route ch reg b p(2) m by (intro exI conjI) (assumption | erule conjunct1 | erule conjunct1 [OF conjunct2])+
  qed
  show ?thesis
  proof (cases isConfig)
    case False
    from run obtain ch' where reg: "reg' = putChain key ch' reg"
      and "go_bind (supportNormal env maConsortium reg key ch msg) (\<lambda>(x, ch1).
        case x of Inl e \<Rightarrow> Ret (Some (ClassifyError e), ch1) | Inr configSeq \<Rightarrow> enqueueMessage (Order env msg configSeq) ch1) = Ret (Some SUCCESS, ch')"
      by (auto simp: ProcessMessage_def s ch False)
    from this(2) obtain seq ch1 where p: "supportNormal env maConsortium reg key ch msg = Ret (Inr seq, ch1)"
      and w: "WaitReady ch1 = Ready" and o: "Order env msg seq ch1 = Ret (None, ch')" by (rule normal_SUCCESS)
    from Order_handed_over [OF r o] obtain b where b: "maEnvelope (meCodec (heMsg env)) msg = Some b"
      and h: "handed_over env log ch1 (newNormalMessage b seq 0) ch'" .
    from supportNormal_Inr [OF r n p] route False show ?thesis by (intro fin [OF _ _ w b _ h reg]) simp_all
  next
    case True
    from run obtain ch' where reg: "reg' = putChain key ch' reg"
      and "go_bind (supportConfigUpdate env maConsortium reg key ch msg) (\<lambda>(x, ch1).
        case x of Inl e \<Rightarrow> Ret (Some (ClassifyError e), ch1) | Inr (config, configSeq) \<Rightarrow> enqueueMessage (Configure env config configSeq) ch1)
        = Ret (Some SUCCESS, ch')"
      by (auto simp: ProcessMessage_def s ch True)
    from this(2) obtain config seq ch1 where p: "supportConfigUpdate env maConsortium reg key ch msg = Ret (Inr (config, seq), ch1)"
      and w: "WaitReady ch1 = Ready" and o: "Configure env config seq ch1 = Ret (None, ch')" by (rule config_SUCCESS)
    from Configure_handed_over [OF r o] obtain b where b: "maEnvelope (meCodec (heMsg env)) config = Some b"
      and h: "handed_over env log ch1 (newConfigMessage b seq 0) ch'" .
    from supportConfigUpdate_Inr [OF r n p] route True show ?thesis by (intro fin [OF _ _ w b _ h reg]) simp_all
  qed
qed

text \<open>An orderer with one channel, whose administrators update its configuration over a network that is busy once.\<close>

definition update_env :: "submission list hcs_env" where
  "update_env = busy_env\<lparr>heMsg := wit_env\<rparr>"

definition update_chain :: "submission list chainImpl" where
  "update_chain = (with_world [] (demo_chain [1]))\<lparr>chWriter := wit_bw\<rparr>"

definition update_registrar :: "submission list Registrar" where
  "update_registrar = \<lparr>rgChains = [(''mychannel'', update_chain)], rgSystemChannelID = []\<rparr>"

lemma update_recorded: "recorded update_env (\<lambda>w. w)" "nonces_quiet update_env (\<lambda>w. w)"
  by (simp_all add: recorded_def nonces_quiet_def update_env_def busy_env_def Let_def)

lemma update_support: "BroadcastChannelSupport (meCodec (heMsg update_env)) update_registrar wit_tx
    = Inr (MakeChannelHeader 0 HeaderType_CONFIG_UPDATE 0 ''mychannel'' 0, True, ''mychannel'')"
proof -
  have "ChannelHeader_of (meCodec wit_env) wit_tx = Inr (MakeChannelHeader 0 HeaderType_CONFIG_UPDATE 0 ''mychannel'' 0)" by code_simp
  moreover have "ClassifyMsg (MakeChannelHeader 0 HeaderType_CONFIG_UPDATE 0 ''mychannel'' 0) = ConfigUpdateMsg" by code_simp
  ultimately show ?thesis
    by (simp add: BroadcastChannelSupport_def update_env_def update_registrar_def GetChain_def MakeChannelHeader_def)
qed

lemma update_sends:
  "\<exists>h ch'. enqueue update_env m update_chain = Ret ((True, h), ch') \<and> length (chWorld ch') = 3"
  by (simp add: update_env_def update_chain_def enqueue_def demo_chain_def with_world_def busy_env_def demo_amp_def sample_sender_def enqueueChecked_def
    readClock_def chain_validStart_def getUniqueValidStart_def
    Split_def chain_Sign_def demo_lib_def wrapMessage_def timestampProtoOrPanic_def TimestampProto_def validateTimestamp_def orPanic_def
    cutChunks_def sliceChunk_def upt_rec numeral_3_eq_3 retryable_def Let_def)

lemma update_accepted:
  "supportConfigUpdate update_env ma update_registrar ''mychannel'' update_chain wit_tx = Ret (Inr (wit_config, 6), update_chain)"
proof -
  have "msgEnv update_env update_chain = (wit_env, update_chain)"
    by (simp add: msgEnv_def update_env_def busy_env_def update_chain_def wit_env_def with_world_def)
  then show ?thesis
    by (simp add: supportConfigUpdate_def update_registrar_def update_chain_def wit_bw_def wit_process)
qed

lemma update_succeeds:
  "\<exists>ch'. ProcessMessage update_env ma wit_tx update_registrar = Ret (Some SUCCESS, putChain ''mychannel'' ch' update_registrar) \<and> length (chWorld ch') = 3"
proof -
  have b: "maEnvelope (meCodec (heMsg update_env)) wit_config = Some [15]"
    by (simp add: update_env_def wit_env_def wit_codec_def table_def)
  from update_sends obtain h ch' where q: "enqueue update_env (newConfigMessage [15] 6 0) update_chain = Ret ((True, h), ch')"
    and l: "length (chWorld ch') = 3" by blast
  have "WaitReady update_chain = Ready" by (simp add: WaitReady_def update_chain_def with_world_def demo_chain_def)
  moreover have "Configure update_env wit_config 6 update_chain = Ret (None, ch')" by (simp add: Configure_def configure_def b q)
  ultimately have e: "enqueueMessage (Configure update_env wit_config 6) update_chain = Ret (Some SUCCESS, ch')" by (simp add: enqueueMessage_SUCCESS)
  have g: "GetChain update_registrar ''mychannel'' = Some update_chain" by (simp add: GetChain_def update_registrar_def)
  have "ProcessMessage update_env ma wit_tx update_registrar = Ret (Some SUCCESS, putChain ''mychannel'' ch' update_registrar)"
    by (simp add: ProcessMessage_def update_support g update_accepted e)
  with l show ?thesis by blast
qed

theorem broadcast_success_submitted_witness:
  "\<exists>reg' key ch e b ch'. ProcessMessage update_env (\<lambda>_. None) wit_tx update_registrar = Ret (Some SUCCESS, reg')
     \<and> GetChain update_registrar key = Some ch \<and> reg' = putChain key ch' update_registrar
     \<and> (config_transaction update_env (chBundle ch) (ChannelID (chBundle ch)) wit_tx e
        \<or> key = rgSystemChannelID update_registrar \<and> creation_transaction update_env (\<lambda>_. None) (chBundle ch) wit_tx e)
     \<and> handed_over update_env (\<lambda>w. w) ch (newConfigMessage b (viSequence (buConfigtxManager (chBundle ch))) 0) ch'"
proof -
  obtain reg' where run: "ProcessMessage update_env (\<lambda>_. None) wit_tx update_registrar = Ret (Some SUCCESS, reg')" using update_succeeds by blast
  from broadcast_success_submitted [OF update_recorded run] obtain chdr key ch ch' e b m where
    c: "ChannelHeader_of (meCodec (heMsg update_env)) wit_tx = Inr chdr" and
    g: "GetChain update_registrar key = Some ch" "reg' = putChain key ch' update_registrar" and
    m: "if chType chdr = HeaderType_CONFIG_UPDATE
       then m = newConfigMessage b (viSequence (buConfigtxManager (chBundle ch))) 0
         \<and> (config_transaction update_env (chBundle ch) (ChannelID (chBundle ch)) wit_tx e
            \<or> key = rgSystemChannelID update_registrar \<and> creation_transaction update_env (\<lambda>_. None) (chBundle ch) wit_tx e)
       else m = newNormalMessage b (viSequence (buConfigtxManager (chBundle ch))) 0 \<and> e = wit_tx" and
    h: "handed_over update_env (\<lambda>w. w) ch m ch'"
    by (elim exE conjE) (rule that)
  have "chType chdr = HeaderType_CONFIG_UPDATE" using BroadcastChannelSupport_Inr [OF update_support] c by simp
  with m have m': "m = newConfigMessage b (viSequence (buConfigtxManager (chBundle ch))) 0"
    and t: "config_transaction update_env (chBundle ch) (ChannelID (chBundle ch)) wit_tx e
            \<or> key = rgSystemChannelID update_registrar \<and> creation_transaction update_env (\<lambda>_. None) (chBundle ch) wit_tx e" by simp_all
  show ?thesis by (intro exI conjI, rule run, rule g(1), rule g(2), rule t, rule h [unfolded m'])
qed

end
