(* ===== verification/Spec2Isabelle.thy ===== *)
theory Spec2Isabelle
  imports Broadcast
begin

text \<open>
  A verification of the ordering service of Hyperledger Fabric with the consensus plugin for the Hedera Consensus
  Service (HCS), as found under \<open>src/\<close>.

  \<^bold>\<open>The program.\<close>  A client sends an envelope to an orderer.  The broadcast service
  (\<open>orderer/common/broadcast\<close>) looks up the channel in the registrar and lets the channel's message processor
  (\<open>orderer/common/msgprocessor\<close>) check the envelope against the channel's configuration bundle
  (\<open>common/channelconfig\<close>, \<open>common/configtx\<close>, \<open>common/policies\<close>, \<open>common/cauthdsl\<close>, \<open>common/capabilities\<close>).  The chain of the
  plugin (\<open>orderer/consensus/hcs/chain.go\<close>) wraps an accepted envelope, signs and splits it into chunks
  (\<open>app_msg_processor.go\<close>) and submits them to a topic of HCS, with transaction identifiers from the consenter
  (\<open>consenter.go\<close>).  Every orderer of the channel consumes the messages of the topic in consensus order: it reassembles
  chunks, discards or resubmits messages that were checked under an old configuration, hands the others to the block cutter
  (\<open>orderer/common/blockcutter\<close>), cuts blocks when a batch is full or a request to cut arrives on the topic, and
  writes them with the block writer (\<open>orderer/common/multichannel\<close>, over \<open>protoutil\<close>).  The orderers exchange nothing
  but the messages of the topic.

  \<^bold>\<open>Conventions.\<close>  \<open>Prelude\<close> has the shared types.  A Go function that may panic returns \<open>'a go\<close>, which is \<open>Ret\<close> of the result or
  \<open>Panic\<close>; an error result is the left side of a sum, or an option.  The theories of policies, of updates and of bundles have the panic as one of
  their errors instead.  Integers keep their width where the code computes with it (\<open>u32\<close>, \<open>u64\<close>); times and durations are
  nanoseconds.  Go maps are association lists with distinct keys.  A slice that is compared with nil is an option.  Structs are
  records with the fields of the code, and the operations take and return the record.

  Code outside the repository is a record of functions that the definitions take as an argument: the protobuf codecs
  (\<open>codec\<close>, \<open>peer_codec\<close>, \<open>value_codec\<close>, \<open>amp_lib\<close>), membership services (\<open>msp_lib\<close>, \<open>msp_setup\<close>), the Hedera SDK (\<open>hedera_lib\<close>), and in
  \<open>hcs_env\<close> the clock, the nonces and the network, which act on a world of any type.  What a property needs of them is one of its
  hypotheses (\<open>codec_ok\<close>, \<open>config_codec_ok\<close>, \<open>decoder_ok\<close>, \<open>commit_total\<close>, \<open>recorded\<close>, \<open>nonces_quiet\<close>), and its witness gives an
  instance.  SHA-256, the DER encoding of block headers, MD5 and \<open>time.ParseDuration\<close> are written out.

  \<^bold>\<open>Theories and what they show.\<close>

  \<^item> \<open>BlockCutter\<close> (\<open>blockcutter.go\<close>): \<open>Ordered\<close> and \<open>Cut\<close> on the record \<open>receiver\<close>.  The locale \<open>block_receiver\<close> is the contract of a
    receiver, interpreted on the two.  Any sequence of calls conserves the stream of envelopes; batches respect the count and the preferred size;
    the table in the comment of \<open>Ordered\<close>, with its exact conditions.
  \<^item> \<open>HcsTypes\<close> (\<open>hcs.proto\<close>, the constructors of \<open>chain.go\<close>), \<open>AppMsgProcessor\<close> and \<open>ChunkTransport\<close>
    (\<open>app_msg_processor.go\<close>): splitting and reassembling over a store of chunk holders that the map and the list by age
    share.  \<open>Reassemble\<close> refines an abstract table ordered by age (through the locale \<open>go_refinement\<close> of \<open>Prelude\<close>); the round trip of \<open>Split\<close> and
    \<open>Reassemble\<close> under any interleaving; exact expiry; consistency of the containers; exactly when \<open>Reassemble\<close> panics.
  \<^item> \<open>ConfigTypes\<close>, \<open>Policies\<close> (\<open>common/policies\<close>, \<open>common/cauthdsl\<close>): a signature policy counts an identity once, thresholds of implicit meta
    policies, paths of the policy managers, merging of converted policies, the parser of implicit meta policies.
  \<^item> \<open>GoCrypto\<close>, \<open>ProtoUtil\<close>, \<open>TxUtils\<close> (\<open>protoutil\<close>): headers, signed data, blocks and their hashes, proposals, endorsements and
    transactions.  A transaction is assembled from agreeing endorsements only, and unpacks to what was endorsed.
  \<^item> \<open>ConfigMap\<close>, \<open>ConfigTx\<close> (\<open>common/configtx\<close>): the map view of a configuration and its inverse; every change of an accepted update is
    authorised by the policy of the changed element; an update is not applied twice; \<open>Validate\<close> agrees with proposing.  An update that adds an
    element without raising the version of the parent needs no signature.
  \<^item> \<open>ChannelConfig\<close> (\<open>common/channelconfig\<close>, \<open>common/capabilities\<close>): the sections of a configuration with their checks, and what a bundle
    guarantees to the code that uses it.
  \<^item> \<open>BlockWriter\<close> (\<open>blockwriter.go\<close> and the checks of the ledger): the commit runs in a goroutine, \<open>bwPending\<close>; its schedule makes no
    difference, it always succeeds, the last configuration is tracked across restarts, and the hash chain binds the headers.
  \<^item> \<open>MsgProcessor\<close> and \<open>SystemChannel\<close> (\<open>msgprocessor\<close>): the filters, normal messages, configuration updates, migration between consensus types,
    channel creation.  An accepted update can be written, accepted messages give blocks within the limits, and a channel is created
    with the consent of its consortium.
  \<^item> \<open>HcsConsenter\<close>, \<open>HcsChain\<close> (\<open>consenter.go\<close>, \<open>hcs_factory_impl.go\<close>, \<open>chain.go\<close>): the record \<open>chainImpl\<close> with the fields of the Go type, the
    local variables of the two loops and the world.  The loops are event handlers: \<open>loopStep\<close> is one iteration of \<open>processMessages\<close>,
    \<open>handleTimeToCutRequest\<close>, \<open>sendTimerFired\<close> and \<open>recvTimerFired\<close> one of \<open>processTimeToCutRequests\<close>.
  \<^item> \<open>HcsMachine\<close>, \<open>Ordering\<close>: \<open>mstep\<close> is the replicated state machine that consumes the topic.  Every interleaving of a
    chain's events refines it, so orderers agree; this is shown for a chain that has finished the recollection of chunks (the replay of chunks after a
    restart, during which it commits nothing) and whose operator key is listed in the configurations it goes through.  Accepted envelopes are conserved in the blocks; a request to cut a block stops no orderer;
    transaction identifiers are unique and the submissions follow the chunks; reconnection ends.  Two properties state faults: an orderer may write metadata under which it
    refuses to restart, and a request to cut a block makes it discard a resubmitted message.
  \<^item> \<open>Broadcast\<close> (\<open>broadcast.go\<close>, lookups of \<open>registrar.go\<close>): a message that is answered with SUCCESS has passed the checks
    and every chunk of it, or of the configuration transaction made from it, has been accepted by HCS.

  \<^bold>\<open>Bounds and termination.\<close>  No definition uses fuel.  The loops of the code are structural recursions, except
  \<open>expireByTimestamp\<close> (the list by age shrinks), \<open>parseUnits\<close> (the text shrinks) and \<open>recurseConfigMap\<close> (the path
  grows, and no key of the map is longer than its longest, so that it ends on every map).  The bounds are those of the code: a
  chunk is submitted at most three times; the chain subscribes again at most nine times without a message (its limit of eight, and one more for a tick
  of the retry timer that a reset left behind), and the retry timer runs for at most 25.4 seconds beyond the delays that errors of the stream set.  The message loop of a chain is not run to an end: the properties speak of any finite sequence of events.

  \<^bold>\<open>Samples.\<close>  Each witness applies its property to a concrete instance, defined next to it and evaluated by simplification: two orderers with
  different keys and a topic of single chunks (\<open>demo_env\<close>), a network that is busy once (\<open>busy_env\<close>), a restart
  (\<open>restart_env\<close>), a stream that is lost until the ninth retry (\<open>lost_env\<close>), a channel with administrators that update it (\<open>wit_env\<close>, \<open>update_env\<close>), and a system channel with a consortium.

  \<^bold>\<open>Not modelled.\<close>  gRPC, logging and metrics.  The registrar's start-up and its creation of chains: the block writer records
  the channels it asks for.  A chain that resubmits a configuration message uses the processor of a standard channel, so resubmission on the system
  channel is not covered.  The agreement of orderers does not cover a chain while it recollects chunks.  Two goroutines interleave at the granularity of handlers, as the locks and channels of the code
  make them; a race inside a handler is not represented.  The files and the index of the block store, except the checks of number and hash when a block is
  appended.  X.509, ECDSA and idemix.  The other consenters (Raft, Kafka, solo), block delivery, the peer, gossip, and the command-line
  tools: they are not part of ordering through HCS.
\<close>

end
